(* ===== verification/PC_Prelude.thy ===== *)
theory PC_Prelude
  imports Main "HOL-Library.State_Monad"
begin

text \<open>
  The shared vocabulary of the development: the parts of Go and of its standard library the
  controller uses (errors with wrapping, panics, strings cut at a separator, prefixes,
  quoting), the state monad in which code with effects is written, and the two small calculi
  the component proofs run on. \<open>wp\<close> pushes a postcondition backwards through a program;
  \<open>keeps f\<close> says that a program does not change the observation \<open>f\<close> of its state,
  \<open>preserves I\<close> that it keeps the state invariant \<open>I\<close>.
  Component theories add their own facts to the collections declared here.
\<close>

named_theorems wp_rules \<open>weakest-precondition equations, one per program construct\<close>
named_theorems keeps_intros \<open>introduction rules for observations a program leaves alone\<close>
named_theorems preserves_intros \<open>introduction rules for state invariants of a program\<close>

section \<open>Errors and panics\<close>

text \<open>
  A Go \<open>error\<close>. \<open>ApiError\<close> is an error of the Kubernetes API (the flag is what
  \<open>apierrors.IsNotFound\<close> reads), \<open>GitError\<close> one of a git client library (the flag is
  \<open>errors.Is(err, ErrNotFound)\<close>), \<open>PlainError\<close> is \<open>errors.New\<close> or
  \<open>fmt.Errorf\<close> without \<open>%w\<close>, and \<open>Wrapped p e\<close> is
  \<open>fmt.Errorf("p: %w", e)\<close>, which \<open>errors.As\<close> and \<open>errors.Is\<close> see through;
  \<open>WrappedIn p e q\<close> is \<open>fmt.Errorf("p: %w, q", e)\<close>.
\<close>

datatype go_error =
    ApiError bool string
  | GitError bool string
  | PlainError string
  | Wrapped string go_error
  | WrappedIn string go_error string

fun err_Error :: "go_error \<Rightarrow> string" where
  "err_Error (ApiError _ m) = m"
| "err_Error (GitError _ m) = m"
| "err_Error (PlainError m) = m"
| "err_Error (Wrapped p e) = p @ '': '' @ err_Error e"
| "err_Error (WrappedIn p e q) = p @ '': '' @ err_Error e @ '', '' @ q"

fun IsNotFound :: "go_error \<Rightarrow> bool" where
  "IsNotFound (ApiError b _) = b"
| "IsNotFound (GitError _ _) = False"
| "IsNotFound (PlainError _) = False"
| "IsNotFound (Wrapped _ e) = IsNotFound e"
| "IsNotFound (WrappedIn _ e _) = IsNotFound e"

fun IsGitNotFound :: "go_error \<Rightarrow> bool" where
  "IsGitNotFound (ApiError _ _) = False"
| "IsGitNotFound (GitError b _) = b"
| "IsGitNotFound (PlainError _) = False"
| "IsGitNotFound (Wrapped _ e) = IsGitNotFound e"
| "IsGitNotFound (WrappedIn _ e _) = IsGitNotFound e"

text \<open>A call either returns or panics; a panic carries the reason the runtime gives.\<close>

datatype 'a outcome = Returned 'a | Panicked string

fun returns :: "'a outcome \<Rightarrow> bool" where
  "returns (Returned _) = True"
| "returns (Panicked _) = False"

text \<open>A panic, if any, is one that \<open>P\<close> allows.\<close>

fun panics_only :: "(string \<Rightarrow> bool) \<Rightarrow> 'a outcome \<Rightarrow> bool" where
  "panics_only P (Returned _) = True"
| "panics_only P (Panicked m) = P m"

lemma returns_iff: "returns x \<longleftrightarrow> (\<exists>a. x = Returned a)"
  by (cases x) simp_all

lemma panics_only_iff: "panics_only P x \<longleftrightarrow> (\<forall>m. x = Panicked m \<longrightarrow> P m)"
  by (cases x) simp_all

lemma panics_only_returns: "panics_only P x \<Longrightarrow> (\<And>m. \<not> P m) \<Longrightarrow> returns x"
  by (cases x) simp_all

abbreviation nil_dereference :: string where
  "nil_dereference \<equiv> ''invalid memory address or nil pointer dereference''"

abbreviation index_out_of_range :: string where
  "index_out_of_range \<equiv> ''index out of range''"

section \<open>Strings\<close>

text \<open>A Go string is a sequence of bytes, here a list of characters.\<close>

definition HasPrefix :: "string \<Rightarrow> string \<Rightarrow> bool" where
  "HasPrefix s p \<longleftrightarrow> take (length p) s = p"

definition StripPrefix :: "string \<Rightarrow> string \<Rightarrow> string option" where
  "StripPrefix p s = (if HasPrefix s p then Some (drop (length p) s) else None)"

text \<open>\<open>strings.Split\<close> at a separator of one byte, and \<open>strings.Join\<close>.\<close>

fun SplitOn :: "char \<Rightarrow> string \<Rightarrow> string list" where
  "SplitOn c [] = [[]]"
| "SplitOn c (x # xs) =
     (if x = c then [] # SplitOn c xs
      else (case SplitOn c xs of [] \<Rightarrow> [[x]] | w # ws \<Rightarrow> (x # w) # ws))"

fun JoinWith :: "char \<Rightarrow> string list \<Rightarrow> string" where
  "JoinWith c [] = []"
| "JoinWith c [w] = w"
| "JoinWith c (w # v # ws) = w @ [c] @ JoinWith c (v # ws)"

definition Contains :: "string \<Rightarrow> char \<Rightarrow> bool" where
  "Contains s c \<longleftrightarrow> List.member s c"

lemma HasPrefix_append [simp]: "HasPrefix (p @ s) p"
  by (simp add: HasPrefix_def)

lemma HasPrefix_iff: "HasPrefix s p \<longleftrightarrow> (\<exists>r. s = p @ r)"
  unfolding HasPrefix_def by (metis append_eq_conv_conj append_take_drop_id)

lemma StripPrefix_append [simp]: "StripPrefix p (p @ s) = Some s"
  by (simp add: StripPrefix_def)

lemma StripPrefix_Some_iff: "StripPrefix p s = Some r \<longleftrightarrow> s = p @ r"
  by (auto simp: StripPrefix_def HasPrefix_iff)

lemma SplitOn_nonempty [simp]: "SplitOn c s \<noteq> []"
  by (cases s) (auto split: list.splits)

lemma SplitOn_no_sep: "c \<notin> set s \<Longrightarrow> SplitOn c s = [s]"
  by (induction s) auto

lemma SplitOn_append: "c \<notin> set w \<Longrightarrow> SplitOn c (w @ c # s) = w # SplitOn c s"
  by (induction w) auto

lemma SplitOn_words_no_sep: "w \<in> set (SplitOn c s) \<Longrightarrow> c \<notin> set w"
  by (induction s arbitrary: w) (auto split: list.splits if_splits)

lemma JoinWith_Cons: "ws \<noteq> [] \<Longrightarrow> JoinWith c (w # ws) = w @ [c] @ JoinWith c ws"
  by (cases ws) auto

lemma JoinWith_SplitOn [simp]: "JoinWith c (SplitOn c s) = s"
proof (induction s)
  case (Cons x xs)
  then show ?case
    by (cases "SplitOn c xs"; cases "tl (SplitOn c xs)") (auto simp: JoinWith_Cons)
qed simp

lemma SplitOn_JoinWith:
  "ws \<noteq> [] \<Longrightarrow> \<forall>w \<in> set ws. c \<notin> set w \<Longrightarrow> SplitOn c (JoinWith c ws) = ws"
proof (induction ws)
  case (Cons w ws)
  then show ?case
    by (cases ws) (auto simp: SplitOn_no_sep SplitOn_append JoinWith_Cons)
qed simp

lemma Contains_iff [simp]: "Contains s c \<longleftrightarrow> c \<in> set s"
  by (simp add: Contains_def)

text \<open>\<open>strconv.Itoa\<close>, the decimal form \<open>%d\<close> prints.\<close>

fun digits_of :: "nat \<Rightarrow> string" where
  "digits_of n =
     (if n < 10 then [char_of (48 + n)] else digits_of (n div 10) @ [char_of (48 + n mod 10)])"

declare digits_of.simps [simp del]

definition Itoa :: "int \<Rightarrow> string" where
  "Itoa i = (if i < 0 then ''-'' @ digits_of (nat (- i)) else digits_of (nat i))"

text \<open>\<open>trimString\<close> of both controllers (the two copies are identical).\<close>

definition trimString :: "string \<Rightarrow> nat \<Rightarrow> string" where
  "trimString str limit = (if length str \<le> limit then str else take limit str @ ''...'')"

lemma length_trimString: "length (trimString str limit) \<le> limit + 3"
  by (simp add: trimString_def)

section \<open>Effects: the state monad, weakest preconditions, kept observations\<close>

abbreviation result :: "'a \<Rightarrow> ('s, 'a) state" where
  "result \<equiv> State_Monad.return"

abbreviation exec :: "('s, 'a) state \<Rightarrow> 's \<Rightarrow> 's" where
  "exec m s \<equiv> snd (run_state m s)"

abbreviation value_of :: "('s, 'a) state \<Rightarrow> 's \<Rightarrow> 'a" where
  "value_of m s \<equiv> fst (run_state m s)"

definition wp :: "('s, 'a) state \<Rightarrow> ('a \<Rightarrow> 's \<Rightarrow> bool) \<Rightarrow> 's \<Rightarrow> bool" where
  "wp m Q s \<longleftrightarrow> (case run_state m s of (a, s') \<Rightarrow> Q a s')"

lemma wp_return [wp_rules]: "wp (result a) Q s \<longleftrightarrow> Q a s"
  by (simp add: wp_def)

lemma wp_bind [wp_rules]:
  "wp (State_Monad.bind m f) Q s \<longleftrightarrow> wp m (\<lambda>a. wp (f a) Q) s"
  by (simp add: wp_def split: prod.splits)

lemma wp_if [wp_rules]:
  "wp (if b then m else n) Q s \<longleftrightarrow> (if b then wp m Q s else wp n Q s)"
  by simp

lemma wp_case_sum [wp_rules]:
  "wp (case r of Inl e \<Rightarrow> m e | Inr a \<Rightarrow> n a) Q s
     \<longleftrightarrow> (case r of Inl e \<Rightarrow> wp (m e) Q s | Inr a \<Rightarrow> wp (n a) Q s)"
  by (cases r) simp_all

lemma wp_case_option [wp_rules]:
  "wp (case r of None \<Rightarrow> m | Some a \<Rightarrow> n a) Q s
     \<longleftrightarrow> (case r of None \<Rightarrow> wp m Q s | Some a \<Rightarrow> wp (n a) Q s)"
  by (cases r) simp_all

lemma wp_case_outcome [wp_rules]:
  "wp (case r of Returned a \<Rightarrow> m a | Panicked msg \<Rightarrow> n msg) Q s
     \<longleftrightarrow> (case r of Returned a \<Rightarrow> wp (m a) Q s | Panicked msg \<Rightarrow> wp (n msg) Q s)"
  by (cases r) simp_all

lemma wp_case_prod [wp_rules]:
  "wp (case r of (a, b) \<Rightarrow> m a b) Q s \<longleftrightarrow> (case r of (a, b) \<Rightarrow> wp (m a b) Q s)"
  by (cases r) simp

lemma wp_let [wp_rules]: "wp (let x = v in m x) Q s \<longleftrightarrow> wp (m v) Q s"
  by simp

lemma wp_mono: "wp m Q s \<Longrightarrow> (\<And>a t. Q a t \<Longrightarrow> R a t) \<Longrightarrow> wp m R s"
  by (auto simp: wp_def split: prod.splits)

lemma wp_conj: "wp m (\<lambda>a t. Q a t \<and> R a t) s \<longleftrightarrow> wp m Q s \<and> wp m R s"
  by (auto simp: wp_def split: prod.splits)

lemma wp_runI: "(\<And>a t. run_state m s = (a, t) \<Longrightarrow> Q a t) \<Longrightarrow> wp m Q s"
  by (auto simp: wp_def split: prod.splits)

lemma wp_runD: "wp m Q s \<Longrightarrow> run_state m s = (a, t) \<Longrightarrow> Q a t"
  by (simp add: wp_def)

lemma wp_exec: "wp m Q s \<longleftrightarrow> Q (value_of m s) (exec m s)"
  by (simp add: wp_def split: prod.splits)

definition keeps :: "('s \<Rightarrow> 'b) \<Rightarrow> ('s, 'a) state \<Rightarrow> bool" where
  "keeps f m \<longleftrightarrow> (\<forall>s. f (exec m s) = f s)"

lemma keepsD: "keeps f m \<Longrightarrow> f (exec m s) = f s"
  by (simp add: keeps_def)

lemma keeps_runD: "keeps f m \<Longrightarrow> run_state m s = (a, t) \<Longrightarrow> f t = f s"
  by (metis keepsD snd_conv)

lemma keeps_return [keeps_intros]: "keeps f (result a)"
  by (simp add: keeps_def)

lemma keeps_bind [keeps_intros]:
  "keeps f m \<Longrightarrow> (\<And>a. keeps f (k a)) \<Longrightarrow> keeps f (State_Monad.bind m k)"
  by (simp add: keeps_def split: prod.splits) (metis snd_conv)

lemma keeps_if [keeps_intros]:
  "keeps f m \<Longrightarrow> keeps f n \<Longrightarrow> keeps f (if b then m else n)"
  by simp

lemma keeps_case_sum [keeps_intros]:
  "(\<And>e. keeps f (m e)) \<Longrightarrow> (\<And>a. keeps f (n a))
     \<Longrightarrow> keeps f (case r of Inl e \<Rightarrow> m e | Inr a \<Rightarrow> n a)"
  by (cases r) simp_all

lemma keeps_case_option [keeps_intros]:
  "keeps f m \<Longrightarrow> (\<And>a. keeps f (n a)) \<Longrightarrow> keeps f (case r of None \<Rightarrow> m | Some a \<Rightarrow> n a)"
  by (cases r) simp_all

lemma keeps_case_outcome [keeps_intros]:
  "(\<And>a. keeps f (m a)) \<Longrightarrow> (\<And>msg. keeps f (n msg)) \<Longrightarrow>
     keeps f (case r of Returned a \<Rightarrow> m a | Panicked msg \<Rightarrow> n msg)"
  by (cases r) simp_all

lemma keeps_case_list [keeps_intros]:
  "keeps f m \<Longrightarrow> (\<And>a as. keeps f (n a as))
     \<Longrightarrow> keeps f (case r of [] \<Rightarrow> m | a # as \<Rightarrow> n a as)"
  by (cases r) simp_all

lemma keeps_case_prod [keeps_intros]:
  "(\<And>a b. keeps f (m a b)) \<Longrightarrow> keeps f (case r of (a, b) \<Rightarrow> m a b)"
  by (cases r) simp

lemma keeps_let [keeps_intros]: "(\<And>x. keeps f (m x)) \<Longrightarrow> keeps f (let x = v in m x)"
  by simp

definition preserves :: "('s \<Rightarrow> bool) \<Rightarrow> ('s, 'a) state \<Rightarrow> bool" where
  "preserves I m \<longleftrightarrow> (\<forall>s. I s \<longrightarrow> I (exec m s))"

lemma preservesD: "preserves I m \<Longrightarrow> I s \<Longrightarrow> I (exec m s)"
  by (simp add: preserves_def)

lemma preserves_return [preserves_intros]: "preserves I (result a)"
  by (simp add: preserves_def)

lemma preserves_bind [preserves_intros]:
  "preserves I m \<Longrightarrow> (\<And>a. preserves I (k a)) \<Longrightarrow> preserves I (State_Monad.bind m k)"
  by (simp add: preserves_def split: prod.splits) (metis snd_conv)

lemma preserves_if [preserves_intros]:
  "(b \<Longrightarrow> preserves I m) \<Longrightarrow> (\<not> b \<Longrightarrow> preserves I n) \<Longrightarrow> preserves I (if b then m else n)"
  by simp

lemma preserves_case_sum [preserves_intros]:
  "(\<And>e. preserves I (m e)) \<Longrightarrow> (\<And>a. preserves I (n a))
     \<Longrightarrow> preserves I (case r of Inl e \<Rightarrow> m e | Inr a \<Rightarrow> n a)"
  by (cases r) simp_all

lemma preserves_case_option [preserves_intros]:
  "preserves I m \<Longrightarrow> (\<And>a. preserves I (n a)) \<Longrightarrow> preserves I (case r of None \<Rightarrow> m | Some a \<Rightarrow> n a)"
  by (cases r) simp_all

lemma preserves_case_outcome [preserves_intros]:
  "(\<And>a. preserves I (m a)) \<Longrightarrow> (\<And>msg. preserves I (n msg)) \<Longrightarrow>
     preserves I (case r of Returned a \<Rightarrow> m a | Panicked msg \<Rightarrow> n msg)"
  by (cases r) simp_all

lemma preserves_case_prod [preserves_intros]:
  "(\<And>a b. preserves I (m a b)) \<Longrightarrow> preserves I (case r of (a, b) \<Rightarrow> m a b)"
  by (cases r) simp

lemma wp_preserves: "(\<And>s. I s \<Longrightarrow> wp m (\<lambda>_. I) s) \<Longrightarrow> preserves I m"
  by (simp add: preserves_def wp_exec)

end
