(* ===== verification/Api_Types.thy ===== *)
theory Api_Types
  imports PC_Prelude
begin

text \<open>
  The data model of the \<open>Pipeline\<close> custom resource (\<open>api/v1alpha1\<close>) with its
  methods, and the fields of the Kubernetes types the code reads: one record per struct, with
  the struct's fields in order. A pointer field is an \<open>option\<close>. The map
  \<open>.status.environments\<close> is an \<open>option\<close> of a partial map, since Go distinguishes
  the nil map (no write allowed) from the empty one; its entries are pointers that the
  custom resource's schema keeps non-null. The methods that read and write the waiting
  approval satisfy get-after-set laws, stated as a locale and interpreted here.
\<close>

section \<open>Kubernetes metadata and conditions\<close>

record ObjectKey =
  ok_Namespace :: string
  ok_Name :: string

record GroupVersionKind =
  gvk_Group :: string
  gvk_Version :: string
  gvk_Kind :: string

text \<open>\<open>metav1.Condition\<close>; the time stamp the library maintains is never read here.\<close>

record Condition =
  cond_Type :: string
  cond_Status :: string
  cond_Reason :: string
  cond_Message :: string

abbreviation ConditionTrue :: string where "ConditionTrue \<equiv> ''True''"
abbreviation ConditionFalse :: string where "ConditionFalse \<equiv> ''False''"

section \<open>References\<close>

record LocalAppReference =
  lar_APIVersion :: string
  lar_Kind :: string
  lar_Name :: string

record CrossNamespaceClusterReference =
  ccr_APIVersion :: string
  ccr_Kind :: string
  ccr_Name :: string
  ccr_Namespace :: string

definition ClusterRef_String :: "CrossNamespaceClusterReference \<Rightarrow> string" where
  "ClusterRef_String s =
     (if ccr_Namespace s \<noteq> ''''
      then ccr_Kind s @ ''/'' @ ccr_Namespace s @ ''/'' @ ccr_Name s
      else ccr_Kind s @ ''/'' @ ccr_Name s)"

section \<open>The Pipeline specification\<close>

record PullRequestPromotion =
  prp_Type :: string
  prp_URL :: string
  prp_BaseBranch :: string
  prp_SecretRef :: string

definition Github :: string where "Github = ''github''"
definition Gitlab :: string where "Gitlab = ''gitlab''"
definition BitBucketServer :: string where "BitBucketServer = ''bitbucket-server''"
definition AzureDevOps :: string where "AzureDevOps = ''azure-devops''"

text \<open>\<open>NotificationPromotion\<close> has no fields. A \<open>LocalObjectReference\<close> is its name.\<close>

type_synonym NotificationPromotion = unit

record Strategy =
  st_PullRequest :: "PullRequestPromotion option"
  st_Notification :: "NotificationPromotion option"
  st_SecretRef :: "string option"

record Promotion =
  pr_Manual :: bool
  pr_Strategy :: Strategy

record Target =
  tgt_Namespace :: string
  tgt_ClusterRef :: "CrossNamespaceClusterReference option"

record Environment =
  env_Name :: string
  env_Targets :: "Target list"
  env_Promotion :: "Promotion option"

record PipelineSpec =
  spec_Environments :: "Environment list"
  spec_AppRef :: LocalAppReference
  spec_Promotion :: "Promotion option"

text \<open>\<open>GetPromotion\<close>: the loop returns the promotion of the first matching environment
  that has one, and the pipeline's default after the loop.\<close>

fun GetPromotion_loop :: "Environment list \<Rightarrow> string \<Rightarrow> Promotion option" where
  "GetPromotion_loop [] env = None"
| "GetPromotion_loop (e # es) env =
     (if env_Name e = env \<and> env_Promotion e \<noteq> None then env_Promotion e
      else GetPromotion_loop es env)"

definition GetPromotion :: "PipelineSpec \<Rightarrow> string \<Rightarrow> Promotion option" where
  "GetPromotion ps env =
     (case GetPromotion_loop (spec_Environments ps) env of
        Some p \<Rightarrow> Some p
      | None \<Rightarrow> spec_Promotion ps)"

text \<open>\<open>Target.String\<close> calls \<open>String\<close> on a possibly nil reference, which dereferences it.\<close>

definition Target_String :: "Target \<Rightarrow> string outcome" where
  "Target_String t =
     (case tgt_ClusterRef t of
        None \<Rightarrow> Panicked nil_dereference
      | Some r \<Rightarrow> Returned (ClusterRef_String r @ ''_'' @ tgt_Namespace t))"

section \<open>The Pipeline status\<close>

record ClusterAppReference =
  car_LocalAppReference :: LocalAppReference
  car_ClusterRef :: "CrossNamespaceClusterReference option"

record TargetStatus =
  ts_ClusterAppRef :: ClusterAppReference
  ts_Ready :: bool
  ts_Revision :: string
  ts_Error :: string

record WaitingApproval =
  wa_Revision :: string

record EnvironmentStatus =
  es_WaitingApproval :: WaitingApproval
  es_Targets :: "TargetStatus list"

record PipelineStatus =
  ps_ObservedGeneration :: int
  ps_Conditions :: "Condition list"
  ps_Environments :: "(string \<rightharpoonup> EnvironmentStatus) option"

abbreviation zero_LocalAppReference :: LocalAppReference where
  "zero_LocalAppReference \<equiv> \<lparr>lar_APIVersion = '''', lar_Kind = '''', lar_Name = ''''\<rparr>"

abbreviation zero_WaitingApproval :: WaitingApproval where
  "zero_WaitingApproval \<equiv> \<lparr>wa_Revision = ''''\<rparr>"

text \<open>Reading a nil map finds nothing.\<close>

definition envs_lookup :: "PipelineStatus \<Rightarrow> string \<Rightarrow> EnvironmentStatus option" where
  "envs_lookup st env = (case ps_Environments st of None \<Rightarrow> None | Some m \<Rightarrow> m env)"

definition GetWaitingApproval :: "PipelineStatus \<Rightarrow> string \<Rightarrow> WaitingApproval" where
  "GetWaitingApproval p env =
     (case envs_lookup p env of
        None \<Rightarrow> zero_WaitingApproval
      | Some val \<Rightarrow> es_WaitingApproval val)"

definition setWaitingApproval :: "PipelineStatus \<Rightarrow> string \<Rightarrow> WaitingApproval \<Rightarrow> PipelineStatus"
where
  "setWaitingApproval p env waitingApproval =
     (let m = (case ps_Environments p of None \<Rightarrow> Map.empty | Some m \<Rightarrow> m)
      in case m env of
           None \<Rightarrow> p\<lparr>ps_Environments :=
             Some (m(env \<mapsto> \<lparr>es_WaitingApproval = waitingApproval, es_Targets = []\<rparr>))\<rparr>
         | Some val \<Rightarrow> p\<lparr>ps_Environments :=
             Some (m(env \<mapsto> val\<lparr>es_WaitingApproval := waitingApproval\<rparr>))\<rparr>)"

definition SetWaitingApproval :: "PipelineStatus \<Rightarrow> string \<Rightarrow> string \<Rightarrow> PipelineStatus" where
  "SetWaitingApproval p env revision = setWaitingApproval p env \<lparr>wa_Revision = revision\<rparr>"

definition ResetWaitingApproval :: "PipelineStatus \<Rightarrow> string \<Rightarrow> PipelineStatus" where
  "ResetWaitingApproval p env = setWaitingApproval p env zero_WaitingApproval"

section \<open>The Pipeline object\<close>

text \<open>\<open>DeletionTimestamp\<close> is a pointer to a time; time 0 stands for Go's zero time.\<close>

record Pipeline =
  p_Name :: string
  p_Namespace :: string
  p_Generation :: int
  p_DeletionTimestamp :: "int option"
  p_Spec :: PipelineSpec
  p_Status :: PipelineStatus

definition DeletionTimestamp_IsZero :: "Pipeline \<Rightarrow> bool" where
  "DeletionTimestamp_IsZero p =
     (case p_DeletionTimestamp p of None \<Rightarrow> True | Some t \<Rightarrow> t = 0)"

definition Pipeline_key :: "Pipeline \<Rightarrow> ObjectKey" where
  "Pipeline_key p = \<lparr>ok_Namespace = p_Namespace p, ok_Name = p_Name p\<rparr>"

text \<open>Reasons and limits (\<open>conditions.go\<close>, \<open>pipeline_types.go\<close>).\<close>

definition TargetClusterNotFoundReason :: string where
  "TargetClusterNotFoundReason = ''TargetClusterNotFound''"

definition TargetClusterNotReadyReason :: string where
  "TargetClusterNotReadyReason = ''TargetClusterNotReady''"

definition ReconciliationSucceededReason :: string where
  "ReconciliationSucceededReason = ''ReconciliationSucceeded''"

definition EnvironmentNotReadyReason :: string where
  "EnvironmentNotReadyReason = ''EnvironmentNotReady''"

definition TargetNotReadableReason :: string where
  "TargetNotReadableReason = ''TargetNotReadable''"

definition MaxConditionMessageLength :: nat where
  "MaxConditionMessageLength = 20000"

text \<open>In nanoseconds, as \<open>time.Duration\<close> counts.\<close>

definition DefaultRequeueInterval :: int where
  "DefaultRequeueInterval = 30 * 60 * 1000000000"

section \<open>The GitopsCluster and Secret fields the code reads\<close>

record GitopsCluster =
  gc_Namespace :: string
  gc_Name :: string
  gc_CAPIClusterRef :: "string option"
  gc_SecretRef :: "string option"
  gc_Conditions :: "Condition list"

record Secret =
  sec_Data :: "string \<rightharpoonup> string"

section \<open>Laws of the status methods\<close>

text \<open>The contract between the webhook handlers, which set, check and reset an approval, and
  the status: reading an environment gives what was last written there, and writing one
  environment changes no other environment and none of the target statuses.\<close>

locale approval_store =
  fixes get_app :: "'s \<Rightarrow> string \<Rightarrow> WaitingApproval"
    and put_app :: "'s \<Rightarrow> string \<Rightarrow> WaitingApproval \<Rightarrow> 's"
    and targets_of :: "'s \<Rightarrow> string \<Rightarrow> TargetStatus list"
  assumes get_put: "get_app (put_app s e a) e = a"
    and get_put_other: "e' \<noteq> e \<Longrightarrow> get_app (put_app s e a) e' = get_app s e'"
    and targets_put: "targets_of (put_app s e a) e' = targets_of s e'"
begin

lemma reset_revokes:
  assumes "r \<noteq> ''''"
  shows "wa_Revision (get_app (put_app s e \<lparr>wa_Revision = ''''\<rparr>) e) \<noteq> r"
  using assms by (simp add: get_put)

lemma put_put: "get_app (put_app (put_app s e a) e b) e' = get_app (put_app s e b) e'"
  by (cases "e' = e") (simp_all add: get_put get_put_other)

lemma put_commute:
  assumes "e \<noteq> f"
  shows "get_app (put_app (put_app s e a) f b) e' = get_app (put_app (put_app s f b) e a) e'"
  using assms by (cases "e' = e"; cases "e' = f") (simp_all add: get_put get_put_other)

end

definition status_targets :: "PipelineStatus \<Rightarrow> string \<Rightarrow> TargetStatus list" where
  "status_targets st env = (case envs_lookup st env of None \<Rightarrow> [] | Some es \<Rightarrow> es_Targets es)"

lemma envs_lookup_setWaitingApproval:
  "envs_lookup (setWaitingApproval st env a) e =
     (if e = env
      then Some (case envs_lookup st env of
                   None \<Rightarrow> \<lparr>es_WaitingApproval = a, es_Targets = []\<rparr>
                 | Some val \<Rightarrow> val\<lparr>es_WaitingApproval := a\<rparr>)
      else envs_lookup st e)"
  by (auto simp: setWaitingApproval_def envs_lookup_def Let_def split: option.splits)

interpretation status_app: approval_store GetWaitingApproval setWaitingApproval status_targets
  by unfold_locales
     (auto simp: GetWaitingApproval_def status_targets_def envs_lookup_setWaitingApproval
           split: option.splits)

lemma setWaitingApproval_frame [simp]:
  "ps_Conditions (setWaitingApproval st env a) = ps_Conditions st"
  "ps_ObservedGeneration (setWaitingApproval st env a) = ps_ObservedGeneration st"
  by (auto simp: setWaitingApproval_def Let_def split: option.splits)

lemma GetPromotion_loop_find:
  "GetPromotion_loop es env =
     Option.bind (find (\<lambda>e. env_Name e = env \<and> env_Promotion e \<noteq> None) es) env_Promotion"
  by (induction es) auto

lemma GetPromotion_loop_Some:
  "GetPromotion_loop es env = Some p \<longleftrightarrow>
     (\<exists>i < length es. env_Name (es ! i) = env \<and> env_Promotion (es ! i) = Some p \<and>
        (\<forall>j < i. env_Name (es ! j) = env \<longrightarrow> env_Promotion (es ! j) = None))"
  unfolding GetPromotion_loop_find bind_eq_Some_conv find_Some_iff by auto

lemma GetPromotion_loop_None:
  "GetPromotion_loop es env = None \<longleftrightarrow>
     (\<forall>e \<in> set es. env_Name e = env \<longrightarrow> env_Promotion e = None)"
  by (induction es) auto

end
