(* ===== verification/Scheme_Registration.thy ===== *)
theory Scheme_Registration
  imports Api_Types
begin

text \<open>
  The registration of the resource's Go types with the runtime scheme
  (\<open>groupversion_info.go\<close>, the \<open>init\<close> functions of \<open>pipeline_types.go\<close> and
  \<open>main.go\<close>), which the client and the manager rely on to know the kinds they are given. The
  scheme and the registration functions of other packages are parameters.
\<close>

record GroupVersion =
  gv_Group :: string
  gv_Version :: string

definition api_GroupVersion :: GroupVersion where
  "api_GroupVersion = \<lparr>gv_Group = ''pipelines.weave.works'', gv_Version = ''v1alpha1''\<rparr>"

text \<open>\<open>scheme.Builder\<close>: the group version and the types registered so far, by their kinds.\<close>

record Builder =
  bd_GroupVersion :: GroupVersion
  bd_types :: "string list"

definition builder_Register :: "string list \<Rightarrow> Builder \<Rightarrow> Builder" where
  "builder_Register kinds b = b\<lparr>bd_types := bd_types b @ kinds\<rparr>"

definition SchemeBuilder :: Builder where
  "SchemeBuilder = \<lparr>bd_GroupVersion = api_GroupVersion, bd_types = []\<rparr>"

text \<open>The package's \<open>init\<close>, which has run before \<open>main\<close> begins.\<close>

definition api_init :: "Builder \<Rightarrow> Builder" where
  "api_init b = builder_Register [''Pipeline'', ''PipelineList''] b"

record 's SchemeLib =
  sl_clientgo_AddToScheme :: "'s \<Rightarrow> go_error + 's"
  sl_clusterctrl_AddToScheme :: "'s \<Rightarrow> go_error + 's"
  sl_Builder_AddToScheme :: "Builder \<Rightarrow> 's \<Rightarrow> go_error + 's"
  sl_kinds :: "'s \<Rightarrow> GroupVersionKind set"

definition api_AddToScheme :: "'s SchemeLib \<Rightarrow> 's \<Rightarrow> go_error + 's" where
  "api_AddToScheme S = sl_Builder_AddToScheme S (api_init SchemeBuilder)"

text \<open>\<open>utilruntime.Must\<close> panics with the error.\<close>

definition Must :: "(go_error + 's) \<Rightarrow> 's outcome" where
  "Must r = (case r of Inl err \<Rightarrow> Panicked (err_Error err) | Inr s \<Rightarrow> Returned s)"

definition main_init :: "'s SchemeLib \<Rightarrow> 's \<Rightarrow> 's outcome" where
  "main_init S scheme =
     (case Must (sl_clientgo_AddToScheme S scheme) of
        Panicked m \<Rightarrow> Panicked m
      | Returned scheme1 \<Rightarrow>
          (case Must (api_AddToScheme S scheme1) of
             Panicked m \<Rightarrow> Panicked m
           | Returned scheme2 \<Rightarrow> Must (sl_clusterctrl_AddToScheme S scheme2)))"

text \<open>What the registration functions are documented to do: add kinds and drop none, the builder
  all those registered with it, under its group version.\<close>

definition gvk_of :: "GroupVersion \<Rightarrow> string \<Rightarrow> GroupVersionKind" where
  "gvk_of gv kind = \<lparr>gvk_Group = gv_Group gv, gvk_Version = gv_Version gv, gvk_Kind = kind\<rparr>"

definition scheme_laws :: "'s SchemeLib \<Rightarrow> bool" where
  "scheme_laws S \<longleftrightarrow>
     (\<forall>s t. sl_clientgo_AddToScheme S s = Inr t \<longrightarrow> sl_kinds S s \<subseteq> sl_kinds S t) \<and>
     (\<forall>s t. sl_clusterctrl_AddToScheme S s = Inr t \<longrightarrow> sl_kinds S s \<subseteq> sl_kinds S t) \<and>
     (\<forall>b s t. sl_Builder_AddToScheme S b s = Inr t \<longrightarrow>
        sl_kinds S t = sl_kinds S s \<union> gvk_of (bd_GroupVersion b) ` set (bd_types b))"

text \<open>When \<open>main\<close> begins, the scheme knows the two kinds of this repository; no registration was
  forgotten and no error swallowed.\<close>

lemma main_init_registers:
  assumes "scheme_laws S" and "main_init S scheme = Returned t"
  shows "gvk_of api_GroupVersion ''Pipeline'' \<in> sl_kinds S t"
    and "gvk_of api_GroupVersion ''PipelineList'' \<in> sl_kinds S t"
    and "sl_kinds S scheme \<subseteq> sl_kinds S t"
proof -
  obtain s1 s2 where s: "sl_clientgo_AddToScheme S scheme = Inr s1" "api_AddToScheme S s1 = Inr s2"
    "sl_clusterctrl_AddToScheme S s2 = Inr t"
    using assms(2) by (auto simp: main_init_def Must_def split: sum.splits outcome.splits)
  have k2: "sl_kinds S s2 = sl_kinds S s1 \<union> gvk_of api_GroupVersion ` {''Pipeline'', ''PipelineList''}"
    using assms(1) s(2)
    by (auto simp: scheme_laws_def api_AddToScheme_def api_init_def builder_Register_def SchemeBuilder_def)
  have "sl_kinds S scheme \<subseteq> sl_kinds S s1" "sl_kinds S s2 \<subseteq> sl_kinds S t"
    using assms(1) s unfolding scheme_laws_def by blast+
  then show "gvk_of api_GroupVersion ''Pipeline'' \<in> sl_kinds S t"
    "gvk_of api_GroupVersion ''PipelineList'' \<in> sl_kinds S t"
    "sl_kinds S scheme \<subseteq> sl_kinds S t"
    using k2 by auto
qed

end
