(* ===== verification/Git_Types.thy ===== *)
theory Git_Types
  imports Api_Types
begin

text \<open>
  The data of \<open>internal/git\<close>: repositories, commits, pull requests and the options of a
  provider, the requests that the Azure provider sends, and the calls that the pull request
  strategy and the providers make to the file system, to the git client and to the clients of
  the hosting services.
\<close>

section \<open>Commits, pull requests, repositories\<close>

record CommitFile =
  cf_Path :: string
  cf_Content :: "string option"

record Commit =
  cmt_CommitMessage :: string
  cmt_Files :: "CommitFile list"

record PullRequestInput =
  pri_RepositoryURL :: string
  pri_Title :: string
  pri_Body :: string
  pri_Head :: string
  pri_Base :: string
  pri_Commits :: "Commit list"

record GitPullRequest =
  gpr_Title :: string
  gpr_Description :: string
  gpr_Link :: string
  gpr_Merged :: bool
  gpr_Source :: string
  gpr_Number :: int

record UpdatePullRequestOptions =
  upo_Title :: string
  upo_Body :: string

record Repository =
  repo_Domain :: string
  repo_Org :: string
  repo_Name :: string

record TreeEntry =
  te_Name :: string
  te_Path :: string
  te_Type :: string
  te_Size :: int
  te_SHA :: string
  te_Link :: string

text \<open>\<open>gitprovider.OrgRepositoryRef\<close> with the reference to the organization in it, and the
  part of a URL that \<open>ParseURL\<close> returns.\<close>

record OrgRepositoryRef =
  orr_Domain :: string
  orr_Organization :: string
  orr_SubOrganizations :: "string list"
  orr_RepositoryName :: string
  orr_key :: string

record ParsedURL =
  pu_Domain :: string
  pu_OrganizationName :: string
  pu_RepositoryName :: string

section \<open>Requests\<close>

record writeFilesToBranchRequest =
  wf_HeadBranch :: string
  wf_BaseBranch :: string
  wf_Commits :: "Commit list"
  wf_CreateBranch :: bool

record createPullRequestRequest =
  cpr_HeadBranch :: string
  cpr_BaseBranch :: string
  cpr_Title :: string
  cpr_Description :: string

record refUpdate =
  ru_Name :: string
  ru_OldObjectID :: string

record change =
  ch_ChangeType :: string
  ch_ItemPath :: string
  ch_Content :: string
  ch_ContentType :: string

record commitRef =
  cref_Comment :: string
  cref_Changes :: "change list"
  cref_CommitID :: string
  cref_URL :: string

record contentCreateUpdate =
  ccu_RefUpdates :: "refUpdate list"
  ccu_Commits :: "commitRef list"

text \<open>\<open>scm.Request\<close>; the body is kept as the value that is encoded as JSON.\<close>

record scm_Request =
  srq_Method :: string
  srq_Path :: string
  srq_Header :: "(string \<times> string list) list"
  srq_Body :: contentCreateUpdate

section \<open>Calls to git and to the hosting services\<close>

text \<open>\<open>gitprovider.ClientOption\<close> and \<open>scm.ContentParams\<close>. Clients, clones and
  repositories of third-party libraries are handles.\<close>

datatype ClientOption =
    ggp_WithOAuth2Token string
  | ggp_WithDomain string
  | ggp_WithConditionalRequests bool

record ContentParams =
  cp_Branch :: string
  cp_Message :: string
  cp_Data :: string
  cp_Sha :: string

datatype git_call =
    GitMkdirTemp string
  | GitRemoveAll string
  | GitNewClient string
  | GitClone nat string string
  | GitClose nat
  | GitSwitchBranch nat string
  | GitSetShortHandRef string
  | GitExecutePipeline string string string string
  | GitIsClean nat
  | GitCommit nat string string
  | GitPush nat
  | GgpNewClient string "string list" "ClientOption list"
  | GgpGetRepository nat OrgRepositoryRef
  | GgpListCommits nat string
  | GgpCreateBranch nat string string
  | GgpCreateCommit nat string string "CommitFile list"
  | GgpCreatePullRequest nat string string string string
  | GgpListTree nat string string bool
  | GgpListPullRequests nat
  | GgpEditPullRequest nat int string
  | ScmNewClient string string string
  | ScmFindRepository nat string
  | ScmListCommits nat string string string
  | ScmCreateContent nat string string ContentParams
  | ScmUpdateContent nat string string ContentParams
  | ScmCreateRef nat string string string
  | ScmDo nat scm_Request
  | ScmCreatePullRequest nat string string string string string
  | ScmListContents nat string string string
  | ScmListPullRequests nat string
  | ScmUpdatePullRequest nat string int string string

text \<open>The calls that change something at the hosting service.\<close>

fun publishes :: "git_call \<Rightarrow> bool" where
  "publishes (GitPush _) = True"
| "publishes (GgpCreateBranch _ _ _) = True"
| "publishes (GgpCreateCommit _ _ _ _) = True"
| "publishes (GgpCreatePullRequest _ _ _ _ _) = True"
| "publishes (GgpEditPullRequest _ _ _) = True"
| "publishes (ScmCreateContent _ _ _ _) = True"
| "publishes (ScmUpdateContent _ _ _ _) = True"
| "publishes (ScmCreateRef _ _ _ _) = True"
| "publishes (ScmDo _ _) = True"
| "publishes (ScmCreatePullRequest _ _ _ _ _ _) = True"
| "publishes (ScmUpdatePullRequest _ _ _ _ _) = True"
| "publishes _ = False"

end
