(* ===== verification/Platform.thy ===== *)
theory Platform
  imports Git_Types
begin

text \<open>
  What the controller stands on. Code that is not part of the repository (the API server and
  its client, the event recorder, controller-runtime caches and work queues, git clients, the
  pure helpers of apimachinery) appears as parameters: the record \<open>Platform\<close> holds its
  effectful operations as functions on an unspecified outside world \<open>'w\<close>, the record
  \<open>Lib\<close> its pure functions. The process state \<open>sys\<close> is the outside world, the map
  of target caches, and the trace of the calls made to the outside, in order; \<open>perform\<close>
  is the only way to touch the outside, so a theorem about the trace is about every
  interaction the code has. What the code relies on is stated as predicates on the
  parameters (\<open>condition_laws\<close>, \<open>nested_laws\<close>).
\<close>

named_theorems emits_intros \<open>introduction rules for the calls a program may add to the trace\<close>
named_theorems op_defs \<open>definitions of the single external operations\<close>

section \<open>Data exchanged with the outside\<close>

text \<open>Unstructured objects: the values of \<open>interface\{\}\<close> after decoding JSON.\<close>

datatype json =
    JNull
  | JBool bool
  | JNumber int
  | JString string
  | JSlice "json list"
  | JMap "(string \<times> json) list"

type_synonym json_object = "(string \<times> json) list"

text \<open>The three results of \<open>unstructured.NestedString\<close> and \<open>NestedSlice\<close>.\<close>

type_synonym 'a nested = "'a \<times> bool \<times> go_error option"

record clusterAndGVK =
  cg_ObjectKey :: ObjectKey
  cg_GVK :: GroupVersionKind

text \<open>A running cache is known by a handle; its cancel function is that of one context.\<close>

record cacheAndCancel =
  cc_cache :: nat
  cc_cancel :: nat

text \<open>An item of the garbage collector's work queue: an \<open>interface\{\}\<close> that should hold
  a cache key.\<close>

datatype queue_item = CacheItem clusterAndGVK | OtherItem nat

text \<open>An unstructured application object: identity and content.\<close>

record Unstructured =
  u_GVK :: GroupVersionKind
  u_Namespace :: string
  u_Name :: string
  u_Object :: json_object

text \<open>\<open>strategy.Promotion\<close> and \<open>strategy.PromotionResult\<close>.\<close>

record StrategyPromotion =
  sp_PipelineNamespace :: string
  sp_PipelineName :: string
  sp_Environment :: Environment
  sp_Version :: string

record PromotionResult =
  res_Location :: string

section \<open>Calls to the outside\<close>

datatype call =
    CallGetPipeline ObjectKey
  | CallGetCluster ObjectKey
  | CallGetSecret ObjectKey
  | CallListPipelines string string
  | CallPatch string Pipeline
  | CallStatusPatch string Pipeline Pipeline
  | CallStatusUpdate Pipeline
  | CallEvent ObjectKey string string string
  | CallAnnotatedEvent ObjectKey "(string \<times> string) list" string string string
  | CallPromote Promotion StrategyPromotion
  | CallKubeconfig ObjectKey
  | CallNewCache string
  | CallRunCache nat
  | CallCancelCache nat
  | CallGetInformer nat GroupVersionKind
  | CallAddEventHandler nat ObjectKey
  | CallHasSynced nat
  | CallCacheGet nat GroupVersionKind ObjectKey
  | CallSendEvent ObjectKey
  | CallQueueGet
  | CallQueueAdd queue_item
  | CallQueueAddRateLimited queue_item
  | CallQueueDone queue_item
  | CallQueueForget queue_item
  | CallSleep int
  | CallGit git_call

fun is_promote :: "call \<Rightarrow> bool" where
  "is_promote (CallPromote _ _) = True"
| "is_promote _ = False"

fun is_patch :: "call \<Rightarrow> bool" where
  "is_patch (CallPatch _ _) = True"
| "is_patch _ = False"

text \<open>The calls that write to the API server.\<close>

fun is_write :: "call \<Rightarrow> bool" where
  "is_write (CallPatch _ _) = True"
| "is_write (CallStatusPatch _ _ _) = True"
| "is_write (CallStatusUpdate _) = True"
| "is_write _ = False"

fun is_sleep :: "call \<Rightarrow> bool" where
  "is_sleep (CallSleep _) = True"
| "is_sleep _ = False"

text \<open>A quiet call neither promotes nor writes nor waits.\<close>

abbreviation quiet :: "call \<Rightarrow> bool" where
  "quiet c \<equiv> \<not> is_promote c \<and> \<not> is_write c \<and> \<not> is_sleep c"

section \<open>The outside as parameters\<close>

type_synonym ('w, 'a) io = "'w \<Rightarrow> (go_error + 'a) \<times> 'w"

record 'w Platform =
  pf_GetPipeline :: "ObjectKey \<Rightarrow> ('w, Pipeline) io"
  pf_GetCluster :: "ObjectKey \<Rightarrow> ('w, GitopsCluster) io"
  pf_GetSecret :: "ObjectKey \<Rightarrow> ('w, Secret) io"
  pf_ListPipelines :: "string \<Rightarrow> string \<Rightarrow> ('w, Pipeline list) io"
  pf_Patch :: "string \<Rightarrow> Pipeline \<Rightarrow> ('w, unit) io"
  pf_StatusPatch :: "string \<Rightarrow> Pipeline \<Rightarrow> Pipeline \<Rightarrow> ('w, unit) io"
  pf_StatusUpdate :: "Pipeline \<Rightarrow> ('w, unit) io"
  pf_Event :: "ObjectKey \<Rightarrow> string \<Rightarrow> string \<Rightarrow> string \<Rightarrow> 'w \<Rightarrow> unit \<times> 'w"
  pf_AnnotatedEvent ::
    "ObjectKey \<Rightarrow> (string \<times> string) list \<Rightarrow> string \<Rightarrow> string \<Rightarrow> string \<Rightarrow> 'w \<Rightarrow> unit \<times> 'w"
  pf_Kubeconfig :: "ObjectKey \<Rightarrow> ('w, string) io"
  pf_NewCache :: "string \<Rightarrow> ('w, nat) io"
  pf_RunCache :: "nat \<Rightarrow> 'w \<Rightarrow> nat \<times> 'w"
  pf_CancelCache :: "nat \<Rightarrow> 'w \<Rightarrow> unit \<times> 'w"
  pf_GetInformer :: "nat \<Rightarrow> GroupVersionKind \<Rightarrow> ('w, nat) io"
  pf_AddEventHandler :: "nat \<Rightarrow> ObjectKey \<Rightarrow> ('w, unit) io"
  pf_HasSynced :: "nat \<Rightarrow> 'w \<Rightarrow> bool \<times> 'w"
  pf_CacheGet :: "nat \<Rightarrow> GroupVersionKind \<Rightarrow> ObjectKey \<Rightarrow> ('w, json_object) io"
  pf_SendEvent :: "ObjectKey \<Rightarrow> 'w \<Rightarrow> unit \<times> 'w"
  pf_QueueGet :: "'w \<Rightarrow> queue_item option \<times> 'w"
  pf_QueueAdd :: "queue_item \<Rightarrow> 'w \<Rightarrow> unit \<times> 'w"
  pf_QueueAddRateLimited :: "queue_item \<Rightarrow> 'w \<Rightarrow> unit \<times> 'w"
  pf_QueueDone :: "queue_item \<Rightarrow> 'w \<Rightarrow> unit \<times> 'w"
  pf_QueueForget :: "queue_item \<Rightarrow> 'w \<Rightarrow> unit \<times> 'w"
  pf_Sleep :: "int \<Rightarrow> 'w \<Rightarrow> unit \<times> 'w"

record Lib =
  lib_SetStatusCondition :: "Condition list \<Rightarrow> Condition \<Rightarrow> Condition list"
  lib_RemoveStatusCondition :: "Condition list \<Rightarrow> string \<Rightarrow> Condition list"
  lib_ParseGroupVersion :: "string \<Rightarrow> go_error + (string \<times> string)"
  lib_NestedSlice :: "json_object \<Rightarrow> string list \<Rightarrow> json list nested"
  lib_NestedString :: "json_object \<Rightarrow> string list \<Rightarrow> string nested"
  lib_ObjectKeyString :: "ObjectKey \<Rightarrow> string"
  lib_GVKString :: "GroupVersionKind \<Rightarrow> string"
  lib_GVKForObject :: "GroupVersionKind \<Rightarrow> go_error + GroupVersionKind"
  lib_RESTConfigFromKubeConfig :: "string \<Rightarrow> go_error + string"

section \<open>The process state\<close>

record 'w sys =
  world :: 'w
  trace :: "call list"
  cachesMap :: "clusterAndGVK \<rightharpoonup> cacheAndCancel"

definition perform :: "call \<Rightarrow> ('w \<Rightarrow> 'a \<times> 'w) \<Rightarrow> ('w sys, 'a) state" where
  "perform c f =
     State (\<lambda>s. case f (world s) of (a, w) \<Rightarrow> (a, s\<lparr>world := w, trace := trace s @ [c]\<rparr>))"

text \<open>Reading and writing the process's own map of caches.\<close>

definition read_caches :: "('w sys, clusterAndGVK \<rightharpoonup> cacheAndCancel) state" where
  "read_caches = State (\<lambda>s. (cachesMap s, s))"

definition write_caches :: "(clusterAndGVK \<rightharpoonup> cacheAndCancel) \<Rightarrow> ('w sys, unit) state" where
  "write_caches m = State (\<lambda>s. ((), s\<lparr>cachesMap := m\<rparr>))"

text \<open>A closure that also changes captured variables \<open>'r\<close>.\<close>

definition lift_sys :: "('w sys, 'a) state \<Rightarrow> ('w sys \<times> 'r, 'a) state" where
  "lift_sys m = State (\<lambda>(s, res). case run_state m s of (a, s') \<Rightarrow> (a, (s', res)))"

lemma run_lift_sys [simp]: "run_state (lift_sys m) \<sigma> = (value_of m (fst \<sigma>), (exec m (fst \<sigma>), snd \<sigma>))"
  by (cases \<sigma>) (simp add: lift_sys_def split: prod.split)

text \<open>The operations as programs.\<close>

definition client_GetPipeline where [op_defs]:
  "client_GetPipeline K key = perform (CallGetPipeline key) (pf_GetPipeline K key)"

definition client_GetCluster where [op_defs]:
  "client_GetCluster K key = perform (CallGetCluster key) (pf_GetCluster K key)"

definition client_GetSecret where [op_defs]:
  "client_GetSecret K key = perform (CallGetSecret key) (pf_GetSecret K key)"

definition client_ListPipelines where [op_defs]:
  "client_ListPipelines K idx key = perform (CallListPipelines idx key) (pf_ListPipelines K idx key)"

definition patcher_Patch where [op_defs]:
  "patcher_Patch K owner p = perform (CallPatch owner p) (pf_Patch K owner p)"

definition client_StatusPatch where [op_defs]:
  "client_StatusPatch K owner base p =
     perform (CallStatusPatch owner base p) (pf_StatusPatch K owner base p)"

definition client_StatusUpdate where [op_defs]:
  "client_StatusUpdate K p = perform (CallStatusUpdate p) (pf_StatusUpdate K p)"

definition recorder_Eventf where [op_defs]:
  "recorder_Eventf K key ty reason msg =
     perform (CallEvent key ty reason msg) (pf_Event K key ty reason msg)"

definition recorder_AnnotatedEventf where [op_defs]:
  "recorder_AnnotatedEventf K key ann ty reason msg =
     perform (CallAnnotatedEvent key ann ty reason msg) (pf_AnnotatedEvent K key ann ty reason msg)"

definition capi_FromSecret where [op_defs]:
  "capi_FromSecret K key = perform (CallKubeconfig key) (pf_Kubeconfig K key)"

definition cache_New where [op_defs]:
  "cache_New K cfg = perform (CallNewCache cfg) (pf_NewCache K cfg)"

definition run_cache where [op_defs]:
  "run_cache K h = perform (CallRunCache h) (pf_RunCache K h)"

definition cancel_cache where [op_defs]:
  "cancel_cache K h = perform (CallCancelCache h) (pf_CancelCache K h)"

definition cache_GetInformer where [op_defs]:
  "cache_GetInformer K h gvk = perform (CallGetInformer h gvk) (pf_GetInformer K h gvk)"

definition informer_AddEventHandler where [op_defs]:
  "informer_AddEventHandler K i key =
     perform (CallAddEventHandler i key) (pf_AddEventHandler K i key)"

definition informer_HasSynced where [op_defs]:
  "informer_HasSynced K i = perform (CallHasSynced i) (pf_HasSynced K i)"

definition cache_Get where [op_defs]:
  "cache_Get K h gvk key = perform (CallCacheGet h gvk key) (pf_CacheGet K h gvk key)"

definition send_event where [op_defs]:
  "send_event K key = perform (CallSendEvent key) (pf_SendEvent K key)"

definition queue_Get where [op_defs]:
  "queue_Get K = perform CallQueueGet (pf_QueueGet K)"

definition queue_Add where [op_defs]:
  "queue_Add K key = perform (CallQueueAdd key) (pf_QueueAdd K key)"

definition queue_AddRateLimited where [op_defs]:
  "queue_AddRateLimited K key =
     perform (CallQueueAddRateLimited key) (pf_QueueAddRateLimited K key)"

definition queue_Done where [op_defs]:
  "queue_Done K key = perform (CallQueueDone key) (pf_QueueDone K key)"

definition queue_Forget where [op_defs]:
  "queue_Forget K key = perform (CallQueueForget key) (pf_QueueForget K key)"

text \<open>\<open>time.Sleep\<close>, in nanoseconds; the outside goes on meanwhile.\<close>

definition time_Sleep where [op_defs]:
  "time_Sleep K d = perform (CallSleep d) (pf_Sleep K d)"

section \<open>The result of a reconciliation\<close>

text \<open>\<open>ctrl.Result\<close>, what \<open>Reconcile\<close> returns with it, and
  \<open>client.IgnoreNotFound\<close>.\<close>

record ctrl_Result =
  cr_Requeue :: bool
  cr_RequeueAfter :: int

abbreviation zero_Result :: ctrl_Result where
  "zero_Result \<equiv> \<lparr>cr_Requeue = False, cr_RequeueAfter = 0\<rparr>"

abbreviation requeue_Result :: ctrl_Result where
  "requeue_Result \<equiv> \<lparr>cr_Requeue = True, cr_RequeueAfter = 0\<rparr>"

type_synonym reconcile_result = "(ctrl_Result \<times> go_error option) outcome"

definition IgnoreNotFound :: "go_error \<Rightarrow> go_error option" where
  "IgnoreNotFound err = (if IsNotFound err then None else Some err)"

section \<open>What the code relies on\<close>

text \<open>Documented behaviour of \<open>meta.SetStatusCondition\<close> and
  \<open>meta.RemoveStatusCondition\<close>: the condition of that type becomes the new one, or
  disappears; conditions of the other types stay.\<close>

definition FindStatusCondition :: "Condition list \<Rightarrow> string \<Rightarrow> Condition option" where
  "FindStatusCondition cs ty = find (\<lambda>c. cond_Type c = ty) cs"

definition condition_laws :: "Lib \<Rightarrow> bool" where
  "condition_laws L \<longleftrightarrow>
     (\<forall>cs c ty. FindStatusCondition (lib_SetStatusCondition L cs c) ty =
        (if ty = cond_Type c then Some c else FindStatusCondition cs ty)) \<and>
     (\<forall>cs ty ty'. FindStatusCondition (lib_RemoveStatusCondition L cs ty) ty' =
        (if ty' = ty then None else FindStatusCondition cs ty'))"

text \<open>Documented behaviour of \<open>NestedString\<close> on one field: found and a string, absent, or
  an error when the value has another type.\<close>

definition nested_laws :: "Lib \<Rightarrow> bool" where
  "nested_laws L \<longleftrightarrow>
     (\<forall>m f. case map_of m f of
        None \<Rightarrow> lib_NestedString L m [f] = ('''', False, None)
      | Some v \<Rightarrow>
          (case v of
             JString s \<Rightarrow> lib_NestedString L m [f] = (s, True, None)
           | _ \<Rightarrow> \<exists>e. lib_NestedString L m [f] = ('''', False, Some e)))"

section \<open>Reasoning about the trace\<close>

lemma run_perform:
  "run_state (perform c f) s =
     (fst (f (world s)), s\<lparr>world := snd (f (world s)), trace := trace s @ [c]\<rparr>)"
  by (simp add: perform_def split: prod.splits)

lemma wp_perform [wp_rules]:
  "wp (perform c f) Q s \<longleftrightarrow>
     Q (fst (f (world s))) (s\<lparr>world := snd (f (world s)), trace := trace s @ [c]\<rparr>)"
  by (simp add: wp_def run_perform)

lemma run_read_caches [simp]: "run_state read_caches s = (cachesMap s, s)"
  by (simp add: read_caches_def)

lemma run_write_caches [simp]: "run_state (write_caches m) s = ((), s\<lparr>cachesMap := m\<rparr>)"
  by (simp add: write_caches_def)

lemma wp_read_caches [wp_rules]: "wp read_caches Q s \<longleftrightarrow> Q (cachesMap s) s"
  by (simp add: wp_def)

lemma wp_write_caches [wp_rules]: "wp (write_caches m) Q s \<longleftrightarrow> Q () (s\<lparr>cachesMap := m\<rparr>)"
  by (simp add: wp_def)

text \<open>The calls of one kind among those made so far.\<close>

definition calls_of :: "(call \<Rightarrow> bool) \<Rightarrow> 'w sys \<Rightarrow> call list" where
  "calls_of P s = filter P (trace s)"

text \<open>\<open>emits P m\<close>: from any state, \<open>m\<close> only appends to the trace, and only calls
  that satisfy \<open>P\<close>.\<close>

definition emits :: "(call \<Rightarrow> bool) \<Rightarrow> ('w sys, 'a) state \<Rightarrow> bool" where
  "emits P m \<longleftrightarrow> (\<forall>s. \<exists>d. trace (exec m s) = trace s @ d \<and> list_all P d)"

lemma emitsD: "emits P m \<Longrightarrow> \<exists>d. trace (exec m s) = trace s @ d \<and> list_all P d"
  by (simp add: emits_def)

lemma emits_runE:
  assumes "emits P m" and "run_state m s = (a, t)"
  obtains d where "trace t = trace s @ d" and "list_all P d"
  using emitsD [OF assms(1), of s] assms(2) by auto

lemma emits_mono: "emits P m \<Longrightarrow> (\<And>c. P c \<Longrightarrow> Q c) \<Longrightarrow> emits Q m"
  unfolding emits_def by (metis (mono_tags, lifting) list.pred_mono_strong)

lemma emits_return [emits_intros]: "emits P (result a)"
  by (simp add: emits_def)

lemma emits_bind [emits_intros]:
  assumes "emits P m" and "\<And>a. emits P (k a)"
  shows "emits P (State_Monad.bind m k)"
  unfolding emits_def
proof
  fix s
  obtain a t where run: "run_state m s = (a, t)" by (cases "run_state m s")
  from assms(1) run obtain d where d: "trace t = trace s @ d" "list_all P d"
    by (rule emits_runE)
  from emitsD [OF assms(2)] obtain e where "trace (exec (k a) t) = trace t @ e" "list_all P e"
    by blast
  with run d show "\<exists>d. trace (exec (State_Monad.bind m k) s) = trace s @ d \<and> list_all P d"
    by (intro exI [of _ "d @ e"]) simp
qed

lemma emits_perform [emits_intros]: "P c \<Longrightarrow> emits P (perform c f)"
  by (simp add: emits_def run_perform)

lemma emits_read_caches [emits_intros]: "emits P read_caches"
  by (simp add: emits_def)

lemma emits_write_caches [emits_intros]: "emits P (write_caches m)"
  by (simp add: emits_def)

lemma emits_if [emits_intros]:
  "(b \<Longrightarrow> emits P m) \<Longrightarrow> (\<not> b \<Longrightarrow> emits P n) \<Longrightarrow> emits P (if b then m else n)"
  by simp

lemma emits_case_sum [emits_intros]:
  "(\<And>e. emits P (m e)) \<Longrightarrow> (\<And>a. emits P (n a))
     \<Longrightarrow> emits P (case r of Inl e \<Rightarrow> m e | Inr a \<Rightarrow> n a)"
  by (cases r) simp_all

lemma emits_case_option [emits_intros]:
  "emits P m \<Longrightarrow> (\<And>a. emits P (n a)) \<Longrightarrow> emits P (case r of None \<Rightarrow> m | Some a \<Rightarrow> n a)"
  by (cases r) simp_all

lemma emits_case_prod [emits_intros]:
  "(\<And>a b. emits P (m a b)) \<Longrightarrow> emits P (case r of (a, b) \<Rightarrow> m a b)"
  by (cases r) simp

lemma emits_case_list [emits_intros]:
  "emits P m \<Longrightarrow> (\<And>a as. emits P (n a as)) \<Longrightarrow> emits P (case r of [] \<Rightarrow> m | a # as \<Rightarrow> n a as)"
  by (cases r) simp_all

lemma emits_case_outcome [emits_intros]:
  "(\<And>a. emits P (m a)) \<Longrightarrow> (\<And>x. emits P (n x))
     \<Longrightarrow> emits P (case r of Returned a \<Rightarrow> m a | Panicked x \<Rightarrow> n x)"
  by (cases r) simp_all

lemma emits_let [emits_intros]: "(\<And>x. emits P (m x)) \<Longrightarrow> emits P (let x = v in m x)"
  by simp

text \<open>The same between two given states.\<close>

definition grew :: "(call \<Rightarrow> bool) \<Rightarrow> 'w sys \<Rightarrow> 'w sys \<Rightarrow> bool" where
  "grew P s t \<longleftrightarrow> (\<exists>d. trace t = trace s @ d \<and> list_all P d)"

lemma grew_refl [simp]: "grew P s s"
  by (simp add: grew_def)

lemma grew_trans: "grew P s t \<Longrightarrow> grew P t u \<Longrightarrow> grew P s u"
  by (auto simp: grew_def)

lemma grew_step: "P c \<Longrightarrow> grew P s (s\<lparr>world := w, trace := trace s @ [c]\<rparr>)"
  by (simp add: grew_def)

lemma grew_mono: "grew P s t \<Longrightarrow> (\<And>c. P c \<Longrightarrow> Q c) \<Longrightarrow> grew Q s t"
  unfolding grew_def by (metis (mono_tags, lifting) list.pred_mono_strong)

lemma emits_grew: "emits P m \<Longrightarrow> run_state m s = (a, t) \<Longrightarrow> grew P s t"
  by (auto simp: grew_def elim: emits_runE)

lemma wp_grew: "emits P m \<Longrightarrow> wp m (\<lambda>_ t. grew P s t) s"
  by (auto intro: wp_runI emits_grew)

lemma calls_of_append:
  assumes "trace t = trace s @ d" and "list_all (\<lambda>c. \<not> P c) d"
  shows "calls_of P t = calls_of P s"
  using assms by (auto simp: calls_of_def filter_empty_conv list_all_iff)

lemma emits_keeps_calls_of: "emits (\<lambda>c. \<not> P c) m \<Longrightarrow> keeps (calls_of P) m"
  unfolding keeps_def by (metis calls_of_append emitsD)

lemma keeps_perform_cachesMap [keeps_intros]: "keeps cachesMap (perform c f)"
  by (simp add: keeps_def run_perform)

lemma keeps_perform_calls_of [keeps_intros]: "\<not> P c \<Longrightarrow> keeps (calls_of P) (perform c f)"
  by (simp add: keeps_def run_perform calls_of_def)

lemma keeps_read_caches [keeps_intros]: "keeps f read_caches"
  by (simp add: keeps_def)

text \<open>The rules above for the named operations.\<close>

lemma emits_ops [emits_intros]:
  "P (CallGetPipeline key) \<Longrightarrow> emits P (client_GetPipeline K key)"
  "P (CallGetCluster key) \<Longrightarrow> emits P (client_GetCluster K key)"
  "P (CallGetSecret key) \<Longrightarrow> emits P (client_GetSecret K key)"
  "P (CallListPipelines idx str) \<Longrightarrow> emits P (client_ListPipelines K idx str)"
  "P (CallPatch owner p) \<Longrightarrow> emits P (patcher_Patch K owner p)"
  "P (CallStatusPatch owner base p) \<Longrightarrow> emits P (client_StatusPatch K owner base p)"
  "P (CallStatusUpdate p) \<Longrightarrow> emits P (client_StatusUpdate K p)"
  "P (CallEvent key ty reason msg) \<Longrightarrow> emits P (recorder_Eventf K key ty reason msg)"
  "P (CallAnnotatedEvent key ann ty reason msg) \<Longrightarrow> emits P (recorder_AnnotatedEventf K key ann ty reason msg)"
  "P (CallKubeconfig key) \<Longrightarrow> emits P (capi_FromSecret K key)"
  "P (CallNewCache cfg) \<Longrightarrow> emits P (cache_New K cfg)"
  "P (CallRunCache h) \<Longrightarrow> emits P (run_cache K h)"
  "P (CallCancelCache h) \<Longrightarrow> emits P (cancel_cache K h)"
  "P (CallGetInformer h gvk) \<Longrightarrow> emits P (cache_GetInformer K h gvk)"
  "P (CallAddEventHandler i key) \<Longrightarrow> emits P (informer_AddEventHandler K i key)"
  "P (CallHasSynced i) \<Longrightarrow> emits P (informer_HasSynced K i)"
  "P (CallCacheGet h gvk key) \<Longrightarrow> emits P (cache_Get K h gvk key)"
  "P (CallSendEvent key) \<Longrightarrow> emits P (send_event K key)"
  "P CallQueueGet \<Longrightarrow> emits P (queue_Get K)"
  "P (CallQueueAdd ck) \<Longrightarrow> emits P (queue_Add K ck)"
  "P (CallQueueAddRateLimited ck) \<Longrightarrow> emits P (queue_AddRateLimited K ck)"
  "P (CallQueueDone ck) \<Longrightarrow> emits P (queue_Done K ck)"
  "P (CallQueueForget ck) \<Longrightarrow> emits P (queue_Forget K ck)"
  "P (CallSleep d) \<Longrightarrow> emits P (time_Sleep K d)"
  by (simp_all add: op_defs emits_perform)

lemma keeps_ops_cachesMap [keeps_intros]:
  "keeps cachesMap (client_GetPipeline K key)"
  "keeps cachesMap (client_GetCluster K key)"
  "keeps cachesMap (client_GetSecret K key)"
  "keeps cachesMap (client_ListPipelines K idx str)"
  "keeps cachesMap (patcher_Patch K owner p)"
  "keeps cachesMap (client_StatusPatch K owner base p)"
  "keeps cachesMap (client_StatusUpdate K p)"
  "keeps cachesMap (recorder_Eventf K key ty reason msg)"
  "keeps cachesMap (recorder_AnnotatedEventf K key ann ty reason msg)"
  "keeps cachesMap (capi_FromSecret K key)"
  "keeps cachesMap (cache_New K cfg)"
  "keeps cachesMap (run_cache K h)"
  "keeps cachesMap (cancel_cache K h)"
  "keeps cachesMap (cache_GetInformer K h gvk)"
  "keeps cachesMap (informer_AddEventHandler K i key)"
  "keeps cachesMap (informer_HasSynced K i)"
  "keeps cachesMap (cache_Get K h gvk key)"
  "keeps cachesMap (send_event K key)"
  "keeps cachesMap (queue_Get K)"
  "keeps cachesMap (queue_Add K ck)"
  "keeps cachesMap (queue_AddRateLimited K ck)"
  "keeps cachesMap (queue_Done K ck)"
  "keeps cachesMap (queue_Forget K ck)"
  "keeps cachesMap (time_Sleep K d)"
  by (simp_all add: op_defs keeps_perform_cachesMap)

end
