(* ===== verification/Memory_Platform.thy ===== *)
theory Memory_Platform
  imports Platform
begin

text \<open>
  A concrete instance of the parameters of \<open>Platform\<close>: the API server as lists of
  objects in memory, target caches as numbered handles over the same objects, a queue as a
  list, and the helpers of apimachinery on the inputs the examples use. It satisfies the laws
  the theorems assume, so it shows that they can hold; the examples of the other theories run
  on it.
\<close>

record store =
  mem_Pipelines :: "Pipeline list"
  mem_Clusters :: "GitopsCluster list"
  mem_Secrets :: "(ObjectKey \<times> Secret) list"
  mem_Apps :: "(ObjectKey \<times> json_object) list"
  mem_Fresh :: nat
  mem_Queue :: "queue_item list"

definition not_found :: "string \<Rightarrow> go_error" where
  "not_found what = ApiError True (what @ '' not found'')"

fun mem_find :: "('a \<Rightarrow> bool) \<Rightarrow> string \<Rightarrow> 'a list \<Rightarrow> go_error + 'a" where
  "mem_find P what [] = Inl (not_found what)"
| "mem_find P what (x # xs) = (if P x then Inr x else mem_find P what xs)"

definition mem_get :: "ObjectKey \<Rightarrow> string \<Rightarrow> (ObjectKey \<times> 'a) list \<Rightarrow> go_error + 'a" where
  "mem_get key what kvs =
     (case map_of kvs key of None \<Rightarrow> Inl (not_found what) | Some v \<Rightarrow> Inr v)"

definition mem_replace :: "Pipeline \<Rightarrow> Pipeline list \<Rightarrow> Pipeline list" where
  "mem_replace p ps = map (\<lambda>q. if Pipeline_key q = Pipeline_key p then p else q) ps"

definition mem_write :: "Pipeline \<Rightarrow> store \<Rightarrow> (go_error + unit) \<times> store" where
  "mem_write p w = (Inr (), w\<lparr>mem_Pipelines := mem_replace p (mem_Pipelines w)\<rparr>)"

definition mem_new :: "store \<Rightarrow> nat \<times> store" where
  "mem_new w = (mem_Fresh w, w\<lparr>mem_Fresh := Suc (mem_Fresh w)\<rparr>)"

definition mem_platform :: "store Platform" where
  "mem_platform =
     \<lparr>pf_GetPipeline = (\<lambda>key w. (mem_find (\<lambda>p. Pipeline_key p = key) ''pipeline'' (mem_Pipelines w), w)),
      pf_GetCluster = (\<lambda>key w. (mem_find (\<lambda>c. ok_Namespace key = gc_Namespace c \<and> ok_Name key = gc_Name c)
                                  ''cluster'' (mem_Clusters w), w)),
      pf_GetSecret = (\<lambda>key w. (mem_get key ''secret'' (mem_Secrets w), w)),
      pf_ListPipelines = (\<lambda>idx key w. (Inr (mem_Pipelines w), w)),
      pf_Patch = (\<lambda>owner. mem_write),
      pf_StatusPatch = (\<lambda>owner base. mem_write),
      pf_StatusUpdate = mem_write,
      pf_Event = (\<lambda>key ty reason msg w. ((), w)),
      pf_AnnotatedEvent = (\<lambda>key ann ty reason msg w. ((), w)),
      pf_Kubeconfig = (\<lambda>key w. (Inr ''kubeconfig'', w)),
      pf_NewCache = (\<lambda>cfg w. apfst Inr (mem_new w)),
      pf_RunCache = (\<lambda>h. mem_new),
      pf_CancelCache = (\<lambda>h w. ((), w)),
      pf_GetInformer = (\<lambda>h gvk w. (Inr h, w)),
      pf_AddEventHandler = (\<lambda>i key w. (Inr (), w)),
      pf_HasSynced = (\<lambda>i w. (True, w)),
      pf_CacheGet = (\<lambda>h gvk key w. (mem_get key ''application'' (mem_Apps w), w)),
      pf_SendEvent = (\<lambda>key w. ((), w)),
      pf_QueueGet = (\<lambda>w. case mem_Queue w of [] \<Rightarrow> (None, w) | i # is \<Rightarrow> (Some i, w\<lparr>mem_Queue := is\<rparr>)),
      pf_QueueAdd = (\<lambda>i w. ((), w\<lparr>mem_Queue := mem_Queue w @ [i]\<rparr>)),
      pf_QueueAddRateLimited = (\<lambda>i w. ((), w\<lparr>mem_Queue := mem_Queue w @ [i]\<rparr>)),
      pf_QueueDone = (\<lambda>i w. ((), w)),
      pf_QueueForget = (\<lambda>i w. ((), w)),
      pf_Sleep = (\<lambda>d w. ((), w))\<rparr>"

lemma mem_platform_simps [simp]:
  "pf_GetPipeline mem_platform key w = (mem_find (\<lambda>p. Pipeline_key p = key) ''pipeline'' (mem_Pipelines w), w)"
  "pf_GetCluster mem_platform key w =
     (mem_find (\<lambda>c. ok_Namespace key = gc_Namespace c \<and> ok_Name key = gc_Name c) ''cluster'' (mem_Clusters w), w)"
  "pf_GetSecret mem_platform key w = (mem_get key ''secret'' (mem_Secrets w), w)"
  "pf_ListPipelines mem_platform idx str w = (Inr (mem_Pipelines w), w)"
  "pf_Patch mem_platform owner p w = mem_write p w"
  "pf_StatusPatch mem_platform owner base p w = mem_write p w"
  "pf_StatusUpdate mem_platform p w = mem_write p w"
  "pf_Event mem_platform key ty reason msg w = ((), w)"
  "pf_AnnotatedEvent mem_platform key ann ty reason msg w = ((), w)"
  "pf_Kubeconfig mem_platform key w = (Inr ''kubeconfig'', w)"
  "pf_NewCache mem_platform cfg w = apfst Inr (mem_new w)"
  "pf_RunCache mem_platform h w = mem_new w"
  "pf_CancelCache mem_platform h w = ((), w)"
  "pf_GetInformer mem_platform h gvk w = (Inr h, w)"
  "pf_AddEventHandler mem_platform i key w = (Inr (), w)"
  "pf_HasSynced mem_platform i w = (True, w)"
  "pf_CacheGet mem_platform h gvk key w = (mem_get key ''application'' (mem_Apps w), w)"
  "pf_SendEvent mem_platform key w = ((), w)"
  "pf_QueueAdd mem_platform item w = ((), w\<lparr>mem_Queue := mem_Queue w @ [item]\<rparr>)"
  "pf_QueueAddRateLimited mem_platform item w = ((), w\<lparr>mem_Queue := mem_Queue w @ [item]\<rparr>)"
  "pf_QueueDone mem_platform item w = ((), w)"
  "pf_QueueForget mem_platform item w = ((), w)"
  "pf_Sleep mem_platform d w = ((), w)"
  by (simp_all add: mem_platform_def)

lemma mem_QueueGet [simp]:
  "pf_QueueGet mem_platform w =
     (case mem_Queue w of [] \<Rightarrow> (None, w) | i # is \<Rightarrow> (Some i, w\<lparr>mem_Queue := is\<rparr>))"
  by (simp add: mem_platform_def)

section \<open>Helpers\<close>

fun mem_SetStatusCondition :: "Condition list \<Rightarrow> Condition \<Rightarrow> Condition list" where
  "mem_SetStatusCondition [] c = [c]"
| "mem_SetStatusCondition (d # cs) c =
     (if cond_Type d = cond_Type c then c # cs else d # mem_SetStatusCondition cs c)"

definition mem_RemoveStatusCondition :: "Condition list \<Rightarrow> string \<Rightarrow> Condition list" where
  "mem_RemoveStatusCondition cs ty = filter (\<lambda>c. cond_Type c \<noteq> ty) cs"

fun mem_field :: "json_object \<Rightarrow> string list \<Rightarrow> json option" where
  "mem_field m [] = Some (JMap m)"
| "mem_field m (f # fs) =
     (case map_of m f of
        None \<Rightarrow> None
      | Some v \<Rightarrow> if fs = [] then Some v else (case v of JMap m' \<Rightarrow> mem_field m' fs | _ \<Rightarrow> None))"

definition mem_NestedString :: "json_object \<Rightarrow> string list \<Rightarrow> string nested" where
  "mem_NestedString m fs =
     (case mem_field m fs of
        None \<Rightarrow> ('''', False, None)
      | Some (JString s) \<Rightarrow> (s, True, None)
      | Some _ \<Rightarrow> ('''', False, Some (PlainError ''accessor error'')))"

definition mem_NestedSlice :: "json_object \<Rightarrow> string list \<Rightarrow> json list nested" where
  "mem_NestedSlice m fs =
     (case mem_field m fs of
        None \<Rightarrow> ([], False, None)
      | Some (JSlice vs) \<Rightarrow> (vs, True, None)
      | Some _ \<Rightarrow> ([], False, Some (PlainError ''accessor error'')))"

definition mem_ParseGroupVersion :: "string \<Rightarrow> go_error + string \<times> string" where
  "mem_ParseGroupVersion gv =
     (case SplitOn (CHR ''/'') gv of
        [v] \<Rightarrow> Inr ('''', v)
      | [g, v] \<Rightarrow> Inr (g, v)
      | _ \<Rightarrow> Inl (PlainError ''unexpected GroupVersion string''))"

definition mem_lib :: Lib where
  "mem_lib =
     \<lparr>lib_SetStatusCondition = mem_SetStatusCondition,
      lib_RemoveStatusCondition = mem_RemoveStatusCondition,
      lib_ParseGroupVersion = mem_ParseGroupVersion,
      lib_NestedSlice = mem_NestedSlice,
      lib_NestedString = mem_NestedString,
      lib_ObjectKeyString = (\<lambda>k. ok_Namespace k @ ''/'' @ ok_Name k),
      lib_GVKString = (\<lambda>g. gvk_Group g @ ''/'' @ gvk_Version g @ '', Kind='' @ gvk_Kind g),
      lib_GVKForObject = Inr,
      lib_RESTConfigFromKubeConfig = Inr\<rparr>"

lemma mem_lib_simps [simp]:
  "lib_SetStatusCondition mem_lib = mem_SetStatusCondition"
  "lib_RemoveStatusCondition mem_lib = mem_RemoveStatusCondition"
  "lib_ParseGroupVersion mem_lib = mem_ParseGroupVersion"
  "lib_NestedSlice mem_lib = mem_NestedSlice"
  "lib_NestedString mem_lib = mem_NestedString"
  "lib_GVKForObject mem_lib = Inr"
  "lib_RESTConfigFromKubeConfig mem_lib = Inr"
  by (simp_all add: mem_lib_def)

lemmas mem_defs = mem_write_def mem_replace_def mem_new_def mem_get_def mem_NestedString_def mem_NestedSlice_def mem_ParseGroupVersion_def mem_RemoveStatusCondition_def

lemma find_SetStatusCondition:
  "FindStatusCondition (mem_SetStatusCondition cs c) ty =
     (if ty = cond_Type c then Some c else FindStatusCondition cs ty)"
  by (induction cs) (auto simp: FindStatusCondition_def)

lemma find_RemoveStatusCondition:
  "FindStatusCondition (mem_RemoveStatusCondition cs ty) ty' =
     (if ty' = ty then None else FindStatusCondition cs ty')"
  unfolding mem_RemoveStatusCondition_def by (induction cs) (auto simp: FindStatusCondition_def)

lemma mem_condition_laws: "condition_laws mem_lib"
  by (simp add: condition_laws_def mem_lib_def find_SetStatusCondition find_RemoveStatusCondition)

lemma mem_nested_laws: "nested_laws mem_lib"
  by (auto simp: nested_laws_def mem_lib_def mem_NestedString_def split: option.split json.split)

section \<open>Sample objects\<close>

text \<open>A pipeline with a local environment \<open>dev\<close> and an environment \<open>prod\<close>, whose
  application runs revision \<open>v2\<close> in \<open>dev\<close> and \<open>v1\<close> in \<open>prod\<close>.\<close>

definition sample_app :: "string \<Rightarrow> json_object" where
  "sample_app v =
     [(''status'', JMap
        [(''conditions'', JSlice [JMap [(''type'', JString ''Ready''), (''status'', JString ''True'')]]),
         (''lastAppliedRevision'', JString v)])]"

definition sample_promotion :: Promotion where
  "sample_promotion =
     \<lparr>pr_Manual = False,
      pr_Strategy = \<lparr>st_PullRequest = None, st_Notification = Some (), st_SecretRef = None\<rparr>\<rparr>"

definition sample_env :: "string \<Rightarrow> Environment" where
  "sample_env n = \<lparr>env_Name = n, env_Targets = [\<lparr>tgt_Namespace = n, tgt_ClusterRef = None\<rparr>],
                   env_Promotion = None\<rparr>"

definition sample_pipeline :: Pipeline where
  "sample_pipeline =
     \<lparr>p_Name = ''app'', p_Namespace = ''default'', p_Generation = 3, p_DeletionTimestamp = None,
      p_Spec = \<lparr>spec_Environments = [sample_env ''dev'', sample_env ''prod''],
                spec_AppRef = \<lparr>lar_APIVersion = ''helm/v2'', lar_Kind = ''HelmRelease'', lar_Name = ''app''\<rparr>,
                spec_Promotion = Some sample_promotion\<rparr>,
      p_Status = \<lparr>ps_ObservedGeneration = 0, ps_Conditions = [], ps_Environments = None\<rparr>\<rparr>"

abbreviation sample_key :: ObjectKey where
  "sample_key \<equiv> \<lparr>ok_Namespace = ''default'', ok_Name = ''app''\<rparr>"

definition sample_store :: store where
  "sample_store =
     \<lparr>mem_Pipelines = [sample_pipeline], mem_Clusters = [], mem_Secrets = [],
      mem_Apps = [(\<lparr>ok_Namespace = ''dev'', ok_Name = ''app''\<rparr>, sample_app ''v2''),
                  (\<lparr>ok_Namespace = ''prod'', ok_Name = ''app''\<rparr>, sample_app ''v1'')],
      mem_Fresh = 0, mem_Queue = []\<rparr>"

definition sample_sys :: "store sys" where
  "sample_sys = \<lparr>world = sample_store, trace = [], cachesMap = Map.empty\<rparr>"

lemma sample_sys_simps [simp]:
  "world sample_sys = sample_store" "trace sample_sys = []" "cachesMap sample_sys = Map.empty"
  by (simp_all add: sample_sys_def)

lemma sample_store_simps [simp]:
  "mem_Pipelines sample_store = [sample_pipeline]" "mem_Clusters sample_store = []"
  "mem_Fresh sample_store = 0" "mem_Queue sample_store = []"
  "mem_get \<lparr>ok_Namespace = ''dev'', ok_Name = ''app''\<rparr> what (mem_Apps sample_store) = Inr (sample_app ''v2'')"
  "mem_get \<lparr>ok_Namespace = ''prod'', ok_Name = ''app''\<rparr> what (mem_Apps sample_store) = Inr (sample_app ''v1'')"
  by (simp_all add: sample_store_def mem_get_def)

lemma sample_pipeline_simps [simp]:
  "Pipeline_key sample_pipeline = sample_key" "p_Name sample_pipeline = ''app''"
  "p_Namespace sample_pipeline = ''default''" "DeletionTimestamp_IsZero sample_pipeline"
  "p_Generation sample_pipeline = 3"
  "spec_Environments (p_Spec sample_pipeline) = [sample_env ''dev'', sample_env ''prod'']"
  "spec_AppRef (p_Spec sample_pipeline) =
     \<lparr>lar_APIVersion = ''helm/v2'', lar_Kind = ''HelmRelease'', lar_Name = ''app''\<rparr>"
  "spec_Promotion (p_Spec sample_pipeline) = Some sample_promotion"
  by (simp_all add: sample_pipeline_def Pipeline_key_def DeletionTimestamp_IsZero_def)

lemma sample_env_simps [simp]:
  "env_Name (sample_env n) = n" "env_Promotion (sample_env n) = None"
  "env_Targets (sample_env n) = [\<lparr>tgt_Namespace = n, tgt_ClusterRef = None\<rparr>]"
  by (simp_all add: sample_env_def)

lemmas sample_defs = sample_promotion_def sample_app_def

end
