(* ===== verification/Sign_Verifier.thy ===== *)
theory Sign_Verifier
  imports Memory_Platform
begin

text \<open>
  \<open>server/sign_verifier.go\<close>: the check of the \<open>X-Signature\<close> header of a webhook
  request. The message authentication codes of the crypto packages are a parameter
  (\<open>sv_hmac\<close>), as is the quoting of strings in messages; the hexadecimal form they are
  compared in is defined here. The characterisation \<open>validateSignature_iff\<close> says which
  header values are accepted.
\<close>

datatype hash_alg = SHA224 | SHA256 | SHA384 | SHA512

text \<open>Parameters of the webhook server: the HMAC of a key and a payload, \<open>%q\<close> and
  \<open>%#v\<close> of \<open>fmt\<close> on strings.\<close>

record SignLib =
  sv_hmac :: "hash_alg \<Rightarrow> string \<Rightarrow> string \<Rightarrow> string"
  sv_Quote :: "string \<Rightarrow> string"

section \<open>Hexadecimal\<close>

definition hex_digit :: "nat \<Rightarrow> char" where
  "hex_digit n = (if n < 10 then char_of (48 + n) else char_of (87 + n))"

fun hex_of :: "string \<Rightarrow> string" where
  "hex_of [] = []"
| "hex_of (c # cs) = hex_digit (of_char c div 16) # hex_digit (of_char c mod 16) # hex_of cs"

lemma of_char_hex_digit: "n < 16 \<Longrightarrow> of_char (hex_digit n) = (if n < 10 then 48 + n else 87 + n)"
  by (auto simp: hex_digit_def of_char_of)

lemma hex_digit_inj:
  assumes "m < 16" and "n < 16" and "hex_digit m = hex_digit n"
  shows "m = n"
proof -
  have "of_char (hex_digit m) = (of_char (hex_digit n) :: nat)" using assms(3) by simp
  with assms(1,2) show ?thesis by (auto simp: of_char_hex_digit split: if_splits)
qed

lemma of_char_less: "of_char c < (256 :: nat)"
  by (metis of_char_of of_nat_of_char mod_less_divisor nat_of_char_less_256)

lemma hex_of_inj: "hex_of s = hex_of t \<Longrightarrow> s = t"
proof (induction s arbitrary: t)
  case Nil
  then show ?case by (cases t) simp_all
next
  case (Cons c cs)
  then obtain d ds where t: "t = d # ds" by (cases t) simp_all
  have "(of_char c :: nat) div 16 < 16" "(of_char d :: nat) div 16 < 16"
    using of_char_less [of c] of_char_less [of d] by (simp_all add: less_mult_imp_div_less)
  then have "(of_char c :: nat) div 16 = of_char d div 16" "(of_char c :: nat) mod 16 = of_char d mod 16"
    using Cons.prems t by (auto intro!: hex_digit_inj)
  then have "(of_char c :: nat) = of_char d" by (metis div_mult_mod_eq)
  then show ?case using Cons t by (simp add: of_char_eq_iff)
qed

lemma hex_of_no_equals: "CHR ''='' \<notin> set (hex_of s)"
proof -
  have "hex_digit n \<noteq> CHR ''=''" if "n < 16" for n
  proof
    assume "hex_digit n = CHR ''=''"
    then have "of_char (hex_digit n) = (of_char (CHR ''='') :: nat)" by simp
    with that show False by (simp add: of_char_hex_digit split: if_splits)
  qed
  then have "hex_digit (of_char c div 16) \<noteq> CHR ''=''" "hex_digit (of_char c mod 16) \<noteq> CHR ''=''" for c
    using of_char_less [of c] by (auto simp: less_mult_imp_div_less)
  then show ?thesis by (induction s) (auto simp: eq_commute [of "CHR ''=''"])
qed

section \<open>The check\<close>

fun alg_name :: "hash_alg \<Rightarrow> string" where
  "alg_name SHA224 = ''sha224''"
| "alg_name SHA256 = ''sha256''"
| "alg_name SHA384 = ''sha384''"
| "alg_name SHA512 = ''sha512''"

text \<open>The \<open>switch\<close> over the header's algorithm.\<close>

definition alg_of :: "string \<Rightarrow> hash_alg option" where
  "alg_of s =
     (if s = ''sha224'' then Some SHA224
      else if s = ''sha256'' then Some SHA256
      else if s = ''sha384'' then Some SHA384
      else if s = ''sha512'' then Some SHA512
      else None)"

text \<open>Writing to a MAC never fails, so that branch of the source is unreachable and left out.\<close>

definition validateSignature :: "SignLib \<Rightarrow> string \<Rightarrow> string \<Rightarrow> string \<Rightarrow> go_error option" where
  "validateSignature H sig payload key =
     (case SplitOn (CHR ''='') sig of
        [alg, hex] \<Rightarrow>
          (case alg_of alg of
             None \<Rightarrow> Some (PlainError (''unsupported signature algorithm '' @ sv_Quote H alg))
           | Some a \<Rightarrow>
               let sum = hex_of (sv_hmac H a key payload)
               in if sum \<noteq> hex
                  then Some (PlainError (''HMACs don'' @ [CHR 39] @ ''t match: ''
                               @ sv_Quote H sum @ '' != '' @ sv_Quote H hex))
                  else None)
      | _ \<Rightarrow> Some (PlainError ''invalid signature value''))"

text \<open>The header's values, in order; an absent header has none.\<close>

type_synonym http_Header = "string \<Rightarrow> string list"

definition SignatureHeader :: string where
  "SignatureHeader = ''X-Signature''"

definition verifyXSignature ::
  "SignLib \<Rightarrow> 'w Platform \<Rightarrow> Pipeline \<Rightarrow> http_Header \<Rightarrow> string \<Rightarrow> ('w sys, go_error option) state"
where
  "verifyXSignature H K p header body =
     (case Option.bind (spec_Promotion (p_Spec p)) (\<lambda>pr. st_SecretRef (pr_Strategy pr)) of
        None \<Rightarrow> result None
      | Some secretName \<Rightarrow>
          (case header SignatureHeader of
             [] \<Rightarrow> result (Some (PlainError ''no X-Signature header provided''))
           | sig # _ \<Rightarrow>
               do { g \<leftarrow> client_GetSecret K \<lparr>ok_Namespace = p_Namespace p, ok_Name = secretName\<rparr>;
                    case g of
                      Inl err \<Rightarrow> result (Some (Wrapped
                        (''failed fetching Secret '' @ p_Namespace p @ ''/'' @ secretName) err))
                    | Inr s \<Rightarrow>
                        (let key = (case sec_Data s ''hmac-key'' of None \<Rightarrow> '''' | Some k \<Rightarrow> k)
                         in if key = '''' then
                              result (Some (PlainError (''no '' @ [CHR 39] @ ''hmac-key'' @ [CHR 39]
                                @ '' field present in '' @ p_Namespace p @ ''/'' @ secretName
                                @ '' Spec.AppRef.SecretRef'')))
                            else
                              (case validateSignature H sig body key of
                                 Some err \<Rightarrow> result (Some (PlainError
                                   (''failed verifying X-Signature header: '' @ err_Error err)))
                               | None \<Rightarrow> result None)) }))"

section \<open>What is accepted\<close>

lemma alg_of_iff: "alg_of s = Some a \<longleftrightarrow> s = alg_name a"
  by (cases a) (auto simp: alg_of_def)

lemma alg_name_no_equals: "CHR ''='' \<notin> set (alg_name a)"
  by (cases a) simp_all

lemma SplitOn_two:
  "SplitOn c s = [a, b] \<longleftrightarrow> s = a @ c # b \<and> c \<notin> set a \<and> c \<notin> set b"
proof
  assume split: "SplitOn c s = [a, b]"
  have "s = JoinWith c (SplitOn c s)" by simp
  with split show "s = a @ c # b \<and> c \<notin> set a \<and> c \<notin> set b"
    using SplitOn_words_no_sep [of _ c s] by simp
next
  assume "s = a @ c # b \<and> c \<notin> set a \<and> c \<notin> set b"
  then show "SplitOn c s = [a, b]" by (simp add: SplitOn_append SplitOn_no_sep)
qed

lemma validateSignature_iff:
  "validateSignature H sig payload key = None \<longleftrightarrow>
     (\<exists>a. sig = alg_name a @ ''='' @ hex_of (sv_hmac H a key payload))"
proof
  assume "validateSignature H sig payload key = None"
  then obtain alg hex a where "SplitOn (CHR ''='') sig = [alg, hex]" "alg_of alg = Some a"
    "hex = hex_of (sv_hmac H a key payload)"
    by (auto simp: validateSignature_def Let_def split: list.splits option.splits if_splits)
  then show "\<exists>a. sig = alg_name a @ ''='' @ hex_of (sv_hmac H a key payload)"
    by (auto simp: alg_of_iff SplitOn_two)
next
  assume "\<exists>a. sig = alg_name a @ ''='' @ hex_of (sv_hmac H a key payload)"
  then obtain a where "SplitOn (CHR ''='') sig = [alg_name a, hex_of (sv_hmac H a key payload)]"
    by (auto simp: SplitOn_two alg_name_no_equals hex_of_no_equals)
  then show "validateSignature H sig payload key = None"
    by (simp add: validateSignature_def alg_of_iff [THEN iffD2, OF refl])
qed

lemma validateSignature_signed [simp]:
  "validateSignature H (alg_name a @ CHR ''='' # hex_of (sv_hmac H a key payload)) payload key = None"
  using validateSignature_iff [of H _ payload key] by auto

lemma validateSignature_accepted:
  "validateSignature H sig payload key = None \<Longrightarrow>
     \<exists>a. sig = alg_name a @ CHR ''='' # hex_of (sv_hmac H a key payload)"
  using validateSignature_iff [of H sig payload key] by auto

text \<open>A request is authentic for a pipeline when no secret is configured, or when its first
  signature is the code of the body under the non-empty key stored in that secret.\<close>

definition authentic :: "SignLib \<Rightarrow> 'w Platform \<Rightarrow> Pipeline \<Rightarrow> http_Header \<Rightarrow> string \<Rightarrow> 'w \<Rightarrow> bool" where
  "authentic H K p header body w \<longleftrightarrow>
     (\<forall>pr secretName. spec_Promotion (p_Spec p) = Some pr \<longrightarrow> st_SecretRef (pr_Strategy pr) = Some secretName \<longrightarrow>
        (\<exists>sig rest s key a. header SignatureHeader = sig # rest \<and>
           fst (pf_GetSecret K \<lparr>ok_Namespace = p_Namespace p, ok_Name = secretName\<rparr> w) = Inr s \<and>
           sec_Data s ''hmac-key'' = Some key \<and> key \<noteq> '''' \<and>
           sig = alg_name a @ ''='' @ hex_of (sv_hmac H a key body)))"

lemma verifyXSignature_iff:
  "value_of (verifyXSignature H K p header body) s = None \<longleftrightarrow> authentic H K p header body (world s)"
proof (cases "Option.bind (spec_Promotion (p_Spec p)) (\<lambda>pr. st_SecretRef (pr_Strategy pr))")
  case None
  then have "authentic H K p header body (world s)"
    by (auto simp: authentic_def bind_eq_None_conv)
  with None show ?thesis by (simp add: verifyXSignature_def)
next
  case (Some secretName)
  then obtain pr where pr: "spec_Promotion (p_Spec p) = Some pr" "st_SecretRef (pr_Strategy pr) = Some secretName"
    by (auto simp: bind_eq_Some_conv)
  show ?thesis
    using pr
    by (auto simp: verifyXSignature_def authentic_def op_defs run_perform Let_def
        split: list.split sum.split option.split dest: validateSignature_accepted)
qed

lemma verifyXSignature_quiet [emits_intros]: "emits quiet (verifyXSignature H K p header body)"
  unfolding verifyXSignature_def Let_def by (intro emits_intros; simp)

section \<open>Properties\<close>

text \<open>C29. \<open>validateSignature\<close> accepts a header value exactly when it is one of the four
  algorithm names, an equals sign, and the lower-case hexadecimal form of that algorithm's HMAC
  of the payload under the key; anything else is an error.\<close>

theorem validateSignature_exact:
  "validateSignature H sig payload key = None \<longleftrightarrow>
     (\<exists>a. sig = alg_name a @ ''='' @ hex_of (sv_hmac H a key payload))"
  by (rule validateSignature_iff)

text \<open>Two payloads are accepted under one header value and key only if an HMAC of one of the
  supported algorithms maps them to the same code: the hexadecimal comparison loses
  nothing.\<close>

theorem validateSignature_binds_payload:
  assumes "validateSignature H sig payload key = None" and "validateSignature H sig payload' key = None"
  shows "\<exists>a. HasPrefix sig (alg_name a @ ''='') \<and> sv_hmac H a key payload = sv_hmac H a key payload'"
proof -
  obtain a where a: "sig = alg_name a @ CHR ''='' # hex_of (sv_hmac H a key payload)"
    using validateSignature_accepted [OF assms(1)] by blast
  obtain b where b: "sig = alg_name b @ CHR ''='' # hex_of (sv_hmac H b key payload')"
    using validateSignature_accepted [OF assms(2)] by blast
  have "[alg_name a, hex_of (sv_hmac H a key payload)] = [alg_name b, hex_of (sv_hmac H b key payload')]"
    using a b SplitOn_two alg_name_no_equals hex_of_no_equals by metis
  moreover from this have "a = b"
    using alg_of_iff [of "alg_name a" a] alg_of_iff [of "alg_name b" b] by simp
  moreover have "sig = (alg_name a @ ''='') @ hex_of (sv_hmac H a key payload)" using a by simp
  ultimately show ?thesis
    by (metis HasPrefix_append hex_of_inj list.inject)
qed

text \<open>A stand-in for the HMAC that appends the key to the payload.\<close>

definition sample_sign :: SignLib where
  "sample_sign = \<lparr>sv_hmac = (\<lambda>a key payload. payload @ key), sv_Quote = (\<lambda>s. s)\<rparr>"

theorem validateSignature_binds_payload_witness:
  "validateSignature sample_sign ''sha256=616b'' ''a'' ''k'' = None \<and>
   (\<exists>a. HasPrefix ''sha256=616b'' (alg_name a @ ''=''))"
proof -
  have ok: "validateSignature sample_sign ''sha256=616b'' ''a'' ''k'' = None"
    by code_simp
  from validateSignature_binds_payload [OF ok ok] ok show ?thesis by blast
qed

end
