(* ===== verification/Strategy_Registry.thy ===== *)
theory Strategy_Registry
  imports Memory_Platform
begin

text \<open>
  \<open>server/strategy\<close>: the \<open>Strategy\<close> interface as a record of its two methods, the
  registry and its first-match lookup, and the notification strategy. What a caller may rely
  on when it calls a registered strategy is the locale \<open>promotion_strategy\<close>: a strategy
  neither starts another promotion nor writes to a Pipeline nor touches the target caches.
  Client lemmas are proved once in the locale; it is interpreted on the notification strategy
  here and on the pull-request strategy in its own theory.
\<close>

section \<open>The interface and the registry\<close>

record 'w strategy =
  s_Handles :: "Promotion \<Rightarrow> bool"
  s_Promote :: "Promotion \<Rightarrow> StrategyPromotion \<Rightarrow> ('w sys, (go_error + PromotionResult) outcome) state"

type_synonym 'w StrategyRegistry = "'w strategy list"

definition Registry_Register :: "'w StrategyRegistry \<Rightarrow> 'w strategy \<Rightarrow> 'w StrategyRegistry" where
  "Registry_Register r s = r @ [s]"

fun Registry_Get :: "'w StrategyRegistry \<Rightarrow> Promotion \<Rightarrow> go_error + 'w strategy" where
  "Registry_Get [] p = Inl (PlainError ''no known promotion strategy requested'')"
| "Registry_Get (s # r) p = (if s_Handles s p then Inr s else Registry_Get r p)"

text \<open>A call of \<open>Promote\<close> through the interface leaves a mark in the trace.\<close>

definition strat_Promote ::
  "'w strategy \<Rightarrow> Promotion \<Rightarrow> StrategyPromotion \<Rightarrow> ('w sys, (go_error + PromotionResult) outcome) state"
where
  "strat_Promote st spec prom =
     do { _ \<leftarrow> perform (CallPromote spec prom) (\<lambda>w. ((), w));
          s_Promote st spec prom }"

section \<open>The contract of a strategy\<close>

locale promotion_strategy =
  fixes st :: "'w strategy"
  assumes promote_quiet: "emits quiet (s_Promote st spec prom)"
    and promote_caches: "keeps cachesMap (s_Promote st spec prom)"
begin

lemma promote_calls:
  "calls_of is_promote (exec (strat_Promote st spec prom) s) =
     calls_of is_promote s @ [CallPromote spec prom]"
proof -
  let ?s' = "exec (perform (CallPromote spec prom) (\<lambda>w. ((), w))) s"
  have "keeps (calls_of is_promote) (s_Promote st spec prom)"
    by (rule emits_keeps_calls_of, rule emits_mono [OF promote_quiet]) simp
  then have "calls_of is_promote (exec (s_Promote st spec prom) ?s') = calls_of is_promote ?s'"
    by (rule keepsD)
  then show ?thesis
    by (simp add: strat_Promote_def run_perform calls_of_def)
qed

lemma promote_no_write: "emits (\<lambda>c. \<not> is_write c) (strat_Promote st spec prom)"
  unfolding strat_Promote_def
  by (intro emits_intros emits_mono [OF promote_quiet]) simp_all

lemma promote_trace:
  "\<exists>d. trace (exec (strat_Promote st spec prom) s) = trace s @ CallPromote spec prom # d
       \<and> list_all quiet d"
proof -
  let ?s' = "exec (perform (CallPromote spec prom) (\<lambda>w. ((), w))) s"
  obtain d where "trace (exec (s_Promote st spec prom) ?s') = trace ?s' @ d" "list_all quiet d"
    using emitsD [OF promote_quiet] by blast
  then show ?thesis
    by (intro exI [of _ d]) (simp add: strat_Promote_def run_perform)
qed

lemma promote_keeps_caches: "keeps cachesMap (strat_Promote st spec prom)"
  unfolding strat_Promote_def by (intro keeps_intros promote_caches)

end

text \<open>A strategy that always comes back.\<close>

locale total_strategy = promotion_strategy +
  assumes promote_returns: "\<exists>x. value_of (s_Promote st spec prom) s = Returned x"
begin

lemma strat_returns: "\<exists>x. value_of (strat_Promote st spec prom) s = Returned x"
  using promote_returns by (simp add: strat_Promote_def run_perform)

end

section \<open>Registry lemmas\<close>

text \<open>A panic with message \<open>m\<close> can come out of a strategy of the registry.\<close>

definition may_panic :: "'w StrategyRegistry \<Rightarrow> string \<Rightarrow> bool" where
  "may_panic reg m \<longleftrightarrow> (\<exists>st \<in> set reg. \<exists>spec prom s. value_of (strat_Promote st spec prom) s = Panicked m)"

lemma total_strategies_no_panic: "list_all total_strategy reg \<Longrightarrow> \<not> may_panic reg m"
  unfolding may_panic_def list_all_iff by (metis outcome.distinct(1) total_strategy.strat_returns)

lemma Registry_Get_first:
  "Registry_Get r p = Inr s \<longleftrightarrow>
     (\<exists>i < length r. s_Handles (r ! i) p \<and> s = r ! i \<and> (\<forall>j < i. \<not> s_Handles (r ! j) p))"
proof -
  have "Registry_Get r p = Inr s \<longleftrightarrow> find (\<lambda>s. s_Handles s p) r = Some s"
    by (induction r) auto
  then show ?thesis
    by (auto simp: find_Some_iff)
qed

lemma Registry_Get_set: "Registry_Get r p = Inr s \<Longrightarrow> s \<in> set r \<and> s_Handles s p"
  by (induction r) (auto split: if_splits)

lemma registered_panics_only:
  assumes "Registry_Get reg p = Inr st"
  shows "panics_only (may_panic reg) (value_of (strat_Promote st spec prom) s)"
  unfolding panics_only_iff may_panic_def using Registry_Get_set [OF assms] by blast

lemma registered_wp:
  "Registry_Get reg p = Inr st \<Longrightarrow>
     wp (strat_Promote st spec prom) (\<lambda>x _. panics_only (may_panic reg) x) s"
  by (simp add: wp_exec registered_panics_only)

lemma Registry_Get_Register:
  "Registry_Get (Registry_Register r s) p =
     (case Registry_Get r p of
        Inr t \<Rightarrow> Inr t
      | Inl e \<Rightarrow> if s_Handles s p then Inr s else Inl e)"
  unfolding Registry_Register_def by (induction r) (auto split: sum.splits)

section \<open>The notification strategy\<close>

definition PromoteReason :: string where
  "PromoteReason = ''Promote''"

definition Notification_Handles :: "Promotion \<Rightarrow> bool" where
  "Notification_Handles p \<longleftrightarrow> st_Notification (pr_Strategy p) \<noteq> None"

definition Notification_Promote ::
  "'w Platform \<Rightarrow> Promotion \<Rightarrow> StrategyPromotion \<Rightarrow> ('w sys, (go_error + PromotionResult) outcome) state"
where
  "Notification_Promote K promSpec promotion =
     do { r \<leftarrow> client_GetPipeline K
                 \<lparr>ok_Namespace = sp_PipelineNamespace promotion, ok_Name = sp_PipelineName promotion\<rparr>;
          case r of
            Inl err \<Rightarrow> result (Returned (Inl (Wrapped
              (''failed getting pipeline='' @ sp_PipelineNamespace promotion @ ''/''
                 @ sp_PipelineName promotion) err)))
          | Inr p \<Rightarrow>
              do { _ \<leftarrow> recorder_AnnotatedEventf K (Pipeline_key p)
                        [(''environment'', env_Name (sp_Environment promotion)),
                         (''version'', sp_Version promotion)]
                        ''Normal'' PromoteReason
                        (''Promote pipeline '' @ sp_PipelineNamespace promotion @ ''/''
                           @ sp_PipelineName promotion @ '' to ''
                           @ env_Name (sp_Environment promotion)
                           @ '' with version '' @ sp_Version promotion);
                   result (Returned (Inr \<lparr>res_Location = ''''\<rparr>)) } }"

definition Notification :: "'w Platform \<Rightarrow> 'w strategy" where
  "Notification K = \<lparr>s_Handles = Notification_Handles, s_Promote = Notification_Promote K\<rparr>"

interpretation notification: total_strategy "Notification K"
proof unfold_locales
  show "emits quiet (s_Promote (Notification K) spec prom)" for spec prom
    by (simp add: Notification_def Notification_Promote_def) (intro emits_intros; simp)
  show "keeps cachesMap (s_Promote (Notification K) spec prom)" for spec prom
    by (simp add: Notification_def Notification_Promote_def) (intro keeps_intros)
  show "\<exists>x. value_of (s_Promote (Notification K) spec prom) s = Returned x" for spec prom s
    by (auto simp: Notification_def Notification_Promote_def op_defs run_perform split: sum.split)
qed

end
