(* ===== verification/Retry_Exponential.thy ===== *)
theory Retry_Exponential
  imports PC_Prelude Complex_Main
begin

text \<open>
  \<open>pkg/retry\<close>: a function is called until it succeeds, its error is handled, or the
  attempts are used up, with growing waits in between. Delays are \<open>float64\<close> in the
  source and rationals here, without the rounding of floating point; the conversion to a
  \<open>time.Duration\<close> cuts the fraction off and multiplies in 64 bits. The contract of
  a retried operation (what one call and one wait do to a count of the calls) is the locale
  \<open>retried\<close>, in which the number of attempts is established once.
\<close>

record 's ExponentialOptions =
  eo_retries :: int
  eo_delayBaseSeconds :: rat
  eo_maxDelaySeconds :: rat
  eo_fn :: "('s, go_error option outcome) state option"
  eo_errorHandlerFn :: "(go_error \<Rightarrow> ('s, bool) state) option"

type_synonym 's ExponentialWith = "'s ExponentialOptions \<Rightarrow> 's ExponentialOptions"

definition WithRetries :: "int \<Rightarrow> 's ExponentialWith" where
  "WithRetries retries opt = opt\<lparr>eo_retries := retries\<rparr>"

definition WithDelayBase :: "rat \<Rightarrow> 's ExponentialWith" where
  "WithDelayBase delaySeconds opt = opt\<lparr>eo_delayBaseSeconds := delaySeconds\<rparr>"

definition WithMaxDelay :: "rat \<Rightarrow> 's ExponentialWith" where
  "WithMaxDelay maxSeconds opt = opt\<lparr>eo_maxDelaySeconds := maxSeconds\<rparr>"

definition WithErrorHandler :: "(go_error \<Rightarrow> ('s, bool) state) \<Rightarrow> 's ExponentialWith" where
  "WithErrorHandler errorHandlerFn opt = opt\<lparr>eo_errorHandlerFn := Some errorHandlerFn\<rparr>"

definition WithFn :: "('s, go_error option outcome) state \<Rightarrow> 's ExponentialWith" where
  "WithFn fn opt = opt\<lparr>eo_fn := Some fn\<rparr>"

definition default_ExponentialOptions :: "'s ExponentialOptions" where
  "default_ExponentialOptions =
     \<lparr>eo_retries = 3, eo_delayBaseSeconds = 2, eo_maxDelaySeconds = 30,
      eo_fn = None, eo_errorHandlerFn = None\<rparr>"

text \<open>\<open>time.Second * time.Duration(wait)\<close>.\<close>

definition truncate_float :: "rat \<Rightarrow> int" where
  "truncate_float x = (if 0 \<le> x then \<lfloor>x\<rfloor> else \<lceil>x\<rceil>)"

definition sleep_duration :: "rat \<Rightarrow> int" where
  "sleep_duration wait = signed_take_bit 63 (1000000000 * truncate_float wait)"

definition wait_seconds :: "'s ExponentialOptions \<Rightarrow> nat \<Rightarrow> rat" where
  "wait_seconds opts try =
     (let wait = eo_delayBaseSeconds opts ^ try
      in if wait > eo_maxDelaySeconds opts then eo_maxDelaySeconds opts else wait)"

text \<open>The loop, entered with the number of attempts made so far. \<open>sleep\<close> is
  \<open>time.Sleep\<close>.\<close>

function exponential_loop ::
  "(int \<Rightarrow> ('s, unit) state) \<Rightarrow> 's ExponentialOptions \<Rightarrow> ('s, go_error option outcome) state \<Rightarrow> nat
     \<Rightarrow> ('s, go_error option outcome) state"
where
  "exponential_loop sleep opts fn try =
     do { err \<leftarrow> fn;
          case err of
            Panicked msg \<Rightarrow> result (Panicked msg)
          | Returned None \<Rightarrow> result (Returned None)
          | Returned (Some e) \<Rightarrow>
              do { handled \<leftarrow> (case eo_errorHandlerFn opts of None \<Rightarrow> result False | Some h \<Rightarrow> h e);
                   if handled then result (Returned None)
                   else if int (Suc try) \<ge> eo_retries opts then result (Returned (Some e))
                   else
                     do { _ \<leftarrow> sleep (sleep_duration (wait_seconds opts (Suc try)));
                          exponential_loop sleep opts fn (Suc try) } } }"
  by pat_completeness auto
termination
  by (relation "measure (\<lambda>(_, opts, _, try). nat (eo_retries opts - int try))") auto

declare exponential_loop.simps [simp del]

definition Exponential ::
  "(int \<Rightarrow> ('s, unit) state) \<Rightarrow> 's ExponentialWith list \<Rightarrow> ('s, go_error option outcome) state"
where
  "Exponential sleep withOpts =
     (let opts = foldl (\<lambda>o' f. f o') default_ExponentialOptions withOpts
      in case eo_fn opts of
           None \<Rightarrow> result (Returned (Some (PlainError ''fn is not defined, nothing to retry'')))
         | Some fn \<Rightarrow> exponential_loop sleep opts fn 0)"

section \<open>How often the function is called\<close>

text \<open>\<open>calls\<close> counts the calls of the function, \<open>sleeps\<close> lists the waits.\<close>

locale retried =
  fixes calls :: "'s \<Rightarrow> nat"
    and sleeps :: "'s \<Rightarrow> int list"
    and sleep :: "int \<Rightarrow> ('s, unit) state"
    and fn :: "('s, go_error option outcome) state"
    and opts :: "'s ExponentialOptions"
  assumes fn_calls: "calls (exec fn s) = Suc (calls s)"
    and fn_sleeps: "sleeps (exec fn s) = sleeps s"
    and handler_frame: "eo_errorHandlerFn opts = Some h \<Longrightarrow>
        calls (exec (h e) s) = calls s \<and> sleeps (exec (h e) s) = sleeps s"
    and sleep_calls: "calls (exec (sleep d) s) = calls s"
    and sleep_sleeps: "sleeps (exec (sleep d) s) = sleeps s @ [d]"
begin

abbreviation waits :: "nat \<Rightarrow> nat \<Rightarrow> int list" where
  "waits i j \<equiv> map (\<lambda>n. sleep_duration (wait_seconds opts n)) [i..<j]"

text \<open>One round of the loop: it ends, or sleeps and goes on.\<close>

lemma loop_round:
  obtains (stop) x t where "run_state (exponential_loop sleep opts fn k) s = (x, t)"
      "calls t = Suc (calls s)" "sleeps t = sleeps s" "\<And>e. x = Returned (Some e) \<Longrightarrow> eo_retries opts \<le> int (Suc k)"
  | (again) t where "run_state (exponential_loop sleep opts fn k) s
        = run_state (exponential_loop sleep opts fn (Suc k)) t"
      "calls t = Suc (calls s)" "sleeps t = sleeps s @ [sleep_duration (wait_seconds opts (Suc k))]"
      "int (Suc k) < eo_retries opts"
proof -
  obtain err s1 where fn: "run_state fn s = (err, s1)" by fastforce
  have s1: "calls s1 = Suc (calls s)" "sleeps s1 = sleeps s"
    using fn_calls [of s] fn_sleeps [of s] fn by simp_all
  show thesis
  proof (cases "\<exists>e. err = Returned (Some e)")
    case False
    with fn have "run_state (exponential_loop sleep opts fn k) s = (err, s1)"
      by (subst exponential_loop.simps) (auto split: outcome.split option.split)
    from stop [OF this] s1 False show thesis by simp
  next
    case True
    then obtain e where Some: "err = Returned (Some e)" by blast
    obtain handled s2 where h:
      "run_state (case eo_errorHandlerFn opts of None \<Rightarrow> result False | Some h \<Rightarrow> h e) s1 = (handled, s2)"
      by fastforce
    have s2: "calls s2 = calls s1" "sleeps s2 = sleeps s1"
      using handler_frame [of _ e s1] h by (auto split: option.splits)
    obtain s3 where s3: "run_state (sleep (sleep_duration (wait_seconds opts (Suc k)))) s2 = ((), s3)"
      by (metis old.unit.exhaust surj_pair)
    then have s3': "calls s3 = calls s2"
      "sleeps s3 = sleeps s2 @ [sleep_duration (wait_seconds opts (Suc k))]"
      using sleep_calls sleep_sleeps by (metis snd_conv)+
    show thesis
    proof (cases "handled \<or> int (Suc k) \<ge> eo_retries opts")
      case True
      then have "run_state (exponential_loop sleep opts fn k) s = (Returned (if handled then None else Some e), s2)"
        using fn Some h by (subst exponential_loop.simps) auto
      from stop [OF this] True s1 s2 show thesis by (auto split: if_splits)
    next
      case False
      then have "run_state (exponential_loop sleep opts fn k) s
          = run_state (exponential_loop sleep opts fn (Suc k)) s3"
        using fn Some h s3 by (subst exponential_loop.simps) auto
      from again [OF this] False s1 s2 s3' show thesis by auto
    qed
  qed
qed

text \<open>From attempt \<open>k\<close> on, up to \<open>limit\<close> attempts are made in total; an error is only
  returned after all of them, and the waits in between are those of the options.\<close>

definition limit :: nat where
  "limit = nat (max 1 (eo_retries opts))"

lemma loop_attempts:
  assumes "k < limit"
  shows "\<exists>n. k < n \<and> n \<le> limit \<and>
    calls (exec (exponential_loop sleep opts fn k) s) = calls s + (n - k) \<and>
    sleeps (exec (exponential_loop sleep opts fn k) s) = sleeps s @ waits (Suc k) n \<and>
    (\<forall>e. value_of (exponential_loop sleep opts fn k) s = Returned (Some e) \<longrightarrow> n = limit)"
  using assms
proof (induction "limit - k" arbitrary: k s)
  case 0
  then show ?case by simp
next
  case (Suc m)
  show ?case
  proof (cases rule: loop_round [of k s])
    case (stop x t)
    with Suc.prems show ?thesis
      by (intro exI [of _ "Suc k"]) (auto simp: limit_def max_def split: if_splits)
  next
    case (again t)
    then have "Suc k < limit" "m = limit - Suc k"
      using Suc.hyps(2) by (auto simp: limit_def)
    from Suc.hyps(1) [OF this(2,1), of t] obtain n where n: "Suc k < n" "n \<le> limit"
      "calls (exec (exponential_loop sleep opts fn (Suc k)) t) = calls t + (n - Suc k)"
      "sleeps (exec (exponential_loop sleep opts fn (Suc k)) t) = sleeps t @ waits (Suc (Suc k)) n"
      "\<forall>e. value_of (exponential_loop sleep opts fn (Suc k)) t = Returned (Some e) \<longrightarrow> n = limit"
      by blast
    then have "waits (Suc k) n = sleep_duration (wait_seconds opts (Suc k)) # waits (Suc (Suc k)) n"
      by (simp add: upt_conv_Cons)
    with n again show ?thesis by (intro exI [of _ n]) auto
  qed
qed

text \<open>A function that keeps failing, with errors nobody handles, is called as often as allowed,
  and the last error comes back.\<close>

lemma loop_gives_up:
  assumes "\<And>s. \<exists>e. value_of fn s = Returned (Some e)"
    and "\<And>h e s. eo_errorHandlerFn opts = Some h \<Longrightarrow> \<not> value_of (h e) s"
  shows "\<exists>e. value_of (exponential_loop sleep opts fn k) s = Returned (Some e)"
proof (induction "nat (eo_retries opts - int k)" arbitrary: k s rule: less_induct)
  case less
  obtain e s1 where fn: "run_state fn s = (Returned (Some e), s1)"
    using assms(1) [of s] by (metis prod.collapse)
  obtain s2 where h:
    "run_state (case eo_errorHandlerFn opts of None \<Rightarrow> result False | Some h \<Rightarrow> h e) s1 = (False, s2)"
    using assms(2) [of _ e s1] by (cases "eo_errorHandlerFn opts") (auto, metis prod.collapse)
  obtain s3 where s3: "run_state (sleep (sleep_duration (wait_seconds opts (Suc k)))) s2 = ((), s3)"
    by (metis old.unit.exhaust surj_pair)
  show ?case
  proof (cases "int (Suc k) \<ge> eo_retries opts")
    case True
    with fn h show ?thesis by (subst exponential_loop.simps) simp
  next
    case False
    then have "\<exists>e. value_of (exponential_loop sleep opts fn (Suc k)) s3 = Returned (Some e)" by (intro less) simp
    with False fn h s3 show ?thesis by (subst exponential_loop.simps) simp
  qed
qed

end

section \<open>What the retried function keeps and what success means\<close>

lemma exponential_loop_preserves:
  assumes "preserves I fn" and "\<And>d. preserves I (sleep d)"
    and "\<And>h e. eo_errorHandlerFn opts = Some h \<Longrightarrow> preserves I (h e)"
  shows "preserves I (exponential_loop sleep opts fn k)"
proof (induction "nat (eo_retries opts - int k)" arbitrary: k rule: less_induct)
  case less
  have rest: "preserves I (exponential_loop sleep opts fn (Suc k))" if "\<not> eo_retries opts \<le> int (Suc k)"
    using that by (intro less) simp
  have handler: "preserves I (case eo_errorHandlerFn opts of None \<Rightarrow> result False | Some h \<Rightarrow> h e)" for e
    using assms(3) by (auto split: option.split intro: preserves_return)
  show ?case
    by (subst exponential_loop.simps)
       (use rest in \<open>auto intro!: preserves_intros assms(1,2) handler split: option.split outcome.split\<close>)
qed

text \<open>Unless an error is handled, success is the success of the last call, and a panic is its panic.\<close>

lemma exponential_loop_last:
  assumes "run_state (exponential_loop sleep opts fn k) s = (x, t)" and "x = Returned None \<or> (\<exists>m. x = Panicked m)"
    and "\<And>h e s. eo_errorHandlerFn opts = Some h \<Longrightarrow> \<not> value_of (h e) s"
  shows "\<exists>s'. run_state fn s' = (x, t)"
  using assms(1)
proof (induction "nat (eo_retries opts - int k)" arbitrary: k s rule: less_induct)
  case less
  obtain err s1 where fn: "run_state fn s = (err, s1)" by fastforce
  show ?case
  proof (cases "\<exists>e. err = Returned (Some e)")
    case False
    with fn less.prems show ?thesis
      by (subst (asm) exponential_loop.simps) (auto split: outcome.splits option.splits)
  next
    case True
    then obtain e where Some: "err = Returned (Some e)" by blast
    obtain s2 where h:
      "run_state (case eo_errorHandlerFn opts of None \<Rightarrow> result False | Some h \<Rightarrow> h e) s1 = (False, s2)"
      using assms(3) [of _ e s1] by (cases "eo_errorHandlerFn opts") (auto, metis prod.collapse)
    obtain s3 where s3: "run_state (sleep (sleep_duration (wait_seconds opts (Suc k)))) s2 = ((), s3)"
      by (metis old.unit.exhaust surj_pair)
    have more: "\<not> int (Suc k) \<ge> eo_retries opts"
      using less.prems fn Some h assms(2) by (subst (asm) exponential_loop.simps) auto
    then have "run_state (exponential_loop sleep opts fn (Suc k)) s3 = (x, t)"
      using less.prems fn Some h s3 by (subst (asm) exponential_loop.simps) simp
    with more show ?thesis by (intro less.hyps) auto
  qed
qed

section \<open>Bounds on the waits\<close>

lemma wait_seconds_bounds:
  assumes "0 \<le> eo_delayBaseSeconds opts" and "0 \<le> eo_maxDelaySeconds opts"
  shows "0 \<le> wait_seconds opts k \<and> wait_seconds opts k \<le> eo_maxDelaySeconds opts"
  using assms by (simp add: wait_seconds_def Let_def)

lemma power_63: "(2::int) ^ 63 = 9223372036854775808"
  by simp

lemma sleep_duration_exact:
  assumes "0 \<le> w" and "w \<le> 9223372036"
  shows "sleep_duration w = 1000000000 * \<lfloor>w\<rfloor>"
proof -
  have "0 \<le> \<lfloor>w\<rfloor>" "\<lfloor>w\<rfloor> \<le> 9223372036"
    using assms by (simp_all add: floor_le_iff)
  then have "signed_take_bit 63 (1000000000 * \<lfloor>w\<rfloor>) = 1000000000 * \<lfloor>w\<rfloor>"
    using power_63 by (intro signed_take_bit_int_eq_self) linarith+
  with assms show ?thesis
    by (simp add: sleep_duration_def truncate_float_def)
qed

section \<open>Properties\<close>


text \<open>A function that counts its calls and fails: three attempts, waits of two and four
  seconds.\<close>

definition failing_fn :: "(nat \<times> int list, go_error option outcome) state" where
  "failing_fn = State (\<lambda>(n, ds). (Returned (Some (PlainError ''no'')), (Suc n, ds)))"

definition log_sleep :: "int \<Rightarrow> (nat \<times> int list, unit) state" where
  "log_sleep d = State (\<lambda>(n, ds). ((), (n, ds @ [d])))"

lemma failing_retried: "retried fst snd log_sleep failing_fn (WithFn failing_fn default_ExponentialOptions)"
  by unfold_locales
     (auto simp: failing_fn_def log_sleep_def WithFn_def default_ExponentialOptions_def)


end
