(* ===== verification/Webhook_Handlers.thy ===== *)
theory Webhook_Handlers
  imports Sign_Verifier Strategy_Registry Retry_Exponential
begin

text \<open>
  \<open>server/promotion_handler.go\<close> and \<open>server/approval_handler.go\<close>: the two webhook
  handlers. A handler is a program from a request to a response; the response writer's calls
  are collected in the response record. A promotion is retried with \<open>Exponential\<close>; the
  variable \<open>res\<close> its closure assigns is a second component of the state there. JSON
  decoding of the event is a parameter. The guarantees are in \<open>Webhook_Guarantees\<close>.
\<close>

section \<open>Requests and responses\<close>

record http_Request =
  rq_Method :: string
  rq_Path :: string
  rq_Header :: http_Header
  rq_Body :: "go_error + string"
  rq_RemoteAddr :: string

record http_Response =
  rs_Status :: nat
  rs_Header :: "(string \<times> string) list"
  rs_Body :: string

text \<open>\<open>events.Event\<close> and \<open>corev1.ObjectReference\<close>, the fields read here.\<close>

record ObjectReference =
  or_APIVersion :: string
  or_Kind :: string
  or_Name :: string
  or_Namespace :: string

record Event =
  ev_Metadata :: "string \<rightharpoonup> string"
  ev_InvolvedObject :: ObjectReference

record WebhookLib =
  wl_Sign :: SignLib
  wl_UnmarshalEvent :: "string \<Rightarrow> go_error + Event"
  wl_FormatTime :: "int \<Rightarrow> string"

abbreviation respond :: "nat \<Rightarrow> string \<Rightarrow> http_Response outcome" where
  "respond status body \<equiv> Returned \<lparr>rs_Status = status, rs_Header = [], rs_Body = body\<rparr>"

abbreviation StatusCreated :: nat where "StatusCreated \<equiv> 201"
abbreviation StatusNoContent :: nat where "StatusNoContent \<equiv> 204"
abbreviation StatusBadRequest :: nat where "StatusBadRequest \<equiv> 400"
abbreviation StatusUnauthorized :: nat where "StatusUnauthorized \<equiv> 401"
abbreviation StatusNotFound :: nat where "StatusNotFound \<equiv> 404"
abbreviation StatusMethodNotAllowed :: nat where "StatusMethodNotAllowed \<equiv> 405"
abbreviation StatusUnprocessableEntity :: nat where "StatusUnprocessableEntity \<equiv> 422"
abbreviation StatusTooManyRequests :: nat where "StatusTooManyRequests \<equiv> 429"
abbreviation StatusInternalServerError :: nat where "StatusInternalServerError \<equiv> 500"

definition http_NotFound :: "http_Response outcome" where
  "http_NotFound = respond StatusNotFound (''404 page not found'' @ [CHR 10])"

definition promotion_failed :: "http_Response outcome" where
  "promotion_failed = respond StatusInternalServerError
     (''error promoting application, please consult the promotion server'' @ [CHR 39] @ ''s logs'')"

text \<open>The pattern \<open>([^/]+)/...\<close> of \<open>n\<close> groups is not anchored: its leftmost match is
  the first run of \<open>n\<close> non-empty segments of the path, whole segments since the groups
  are greedy.\<close>

fun find_segments :: "nat \<Rightarrow> string list \<Rightarrow> string list option" where
  "find_segments n [] = None"
| "find_segments n (w # ws) =
     (if n \<le> length (w # ws) \<and> list_all (\<lambda>v. v \<noteq> []) (take n (w # ws)) then Some (take n (w # ws))
      else find_segments n ws)"

definition path_match :: "nat \<Rightarrow> string \<Rightarrow> string list option" where
  "path_match n path = find_segments n (SplitOn (CHR ''/'') path)"

text \<open>\<open>template.HTMLEscape\<close>.\<close>

definition escape_char :: "char \<Rightarrow> string" where
  "escape_char c =
     (if c = CHR 0x00 then [CHR 239, CHR 191, CHR 189]
      else if c = CHR 34 then ''&#34;''
      else if c = CHR 39 then ''&#39;''
      else if c = CHR ''&'' then ''&amp;''
      else if c = CHR ''<'' then ''&lt;''
      else if c = CHR ''>'' then ''&gt;''
      else [c])"

definition HTMLEscape :: "string \<Rightarrow> string" where
  "HTMLEscape s = concat (map escape_char s)"

section \<open>Looking up environments\<close>

definition namespaceInTargets :: "Target list \<Rightarrow> string \<Rightarrow> bool" where
  "namespaceInTargets targets namespace = list_ex (\<lambda>t. tgt_Namespace t = namespace) targets"

text \<open>The loop: an error, or the source environment with the one after it, or nothing found.\<close>

fun lookupNext_loop :: "string \<Rightarrow> Environment list \<Rightarrow> go_error + (Environment \<times> Environment) option" where
  "lookupNext_loop env [] = Inr None"
| "lookupNext_loop env (pEnv # rest) =
     (if env_Name pEnv = env then
        (case rest of
           [] \<Rightarrow> Inl (PlainError (''cannot promote beyond last environment '' @ env_Name pEnv))
         | next # _ \<Rightarrow> Inr (Some (pEnv, next)))
      else lookupNext_loop env rest)"

definition lookupNextEnvironment :: "Pipeline \<Rightarrow> string \<Rightarrow> ObjectReference \<Rightarrow> go_error + Environment" where
  "lookupNextEnvironment pipeline env appRef =
     (case lookupNext_loop env (spec_Environments (p_Spec pipeline)) of
        Inl err \<Rightarrow> Inl err
      | Inr None \<Rightarrow> Inl (PlainError (''app '' @ p_Namespace pipeline @ ''/'' @ p_Name pipeline
                      @ '' has no environment '' @ env @ '' defined''))
      | Inr (Some (sourceEnv, promEnv)) \<Rightarrow>
          if env_Targets promEnv = [] then
            Inl (PlainError (''environment '' @ env_Name promEnv @ '' has no targets''))
          else if lar_APIVersion (spec_AppRef (p_Spec pipeline)) \<noteq> or_APIVersion appRef \<or>
                  lar_Kind (spec_AppRef (p_Spec pipeline)) \<noteq> or_Kind appRef \<or>
                  lar_Name (spec_AppRef (p_Spec pipeline)) \<noteq> or_Name appRef \<or>
                  \<not> namespaceInTargets (env_Targets sourceEnv) (or_Namespace appRef) then
            Inl (PlainError ''involved object does not match Pipeline definition'')
          else Inr promEnv)"

fun lookupEnvironment_loop :: "string \<Rightarrow> Environment list \<Rightarrow> Environment option" where
  "lookupEnvironment_loop env [] = None"
| "lookupEnvironment_loop env (e # es) =
     (if env_Name e = env then Some e else lookupEnvironment_loop env es)"

definition lookupEnvironment :: "Pipeline \<Rightarrow> string \<Rightarrow> go_error + Environment" where
  "lookupEnvironment pipeline env =
     (case lookupEnvironment_loop env (spec_Environments (p_Spec pipeline)) of
        Some e \<Rightarrow> Inr e
      | None \<Rightarrow> Inl (PlainError (''app '' @ p_Namespace pipeline @ ''/'' @ p_Name pipeline
                      @ '' has no environment '' @ env @ '' defined'')))"

section \<open>Promoting with retries\<close>

record RetryOpts =
  ro_Delay :: int
  ro_MaxDelay :: int
  ro_Threshold :: int

text \<open>The state of the retried closure: the process and the variable \<open>res\<close>.\<close>

type_synonym 'w closure_state = "'w sys \<times> PromotionResult option"

definition assign_res :: "PromotionResult option \<Rightarrow> ('w closure_state, unit) state" where
  "assign_res res = State (\<lambda>(s, _). ((), (s, res)))"

definition promote_once ::
  "'w strategy \<Rightarrow> Promotion \<Rightarrow> StrategyPromotion \<Rightarrow> ('w closure_state, go_error option outcome) state"
where
  "promote_once strat promotionSpec prom =
     do { x \<leftarrow> lift_sys (strat_Promote strat promotionSpec prom);
          case x of
            Panicked msg \<Rightarrow> result (Panicked msg)
          | Returned (Inl err) \<Rightarrow> do { _ \<leftarrow> assign_res None; result (Returned (Some err)) }
          | Returned (Inr r) \<Rightarrow> do { _ \<leftarrow> assign_res (Some r); result (Returned None) } }"

definition promote_fn ::
  "'w StrategyRegistry \<Rightarrow> Promotion \<Rightarrow> StrategyPromotion \<Rightarrow> ('w closure_state, go_error option outcome) state"
where
  "promote_fn reg promotionSpec prom =
     (case Registry_Get reg promotionSpec of
        Inl err \<Rightarrow> result (Returned (Some (Wrapped ''error getting strategy from registry'' err)))
      | Inr strat \<Rightarrow> promote_once strat promotionSpec prom)"

definition promote_opts ::
  "RetryOpts \<Rightarrow> ('w closure_state, go_error option outcome) state \<Rightarrow> 'w closure_state ExponentialWith list"
where
  "promote_opts retry fn =
     [WithRetries (ro_Threshold retry), WithDelayBase (of_int (ro_Delay retry)),
      WithMaxDelay (of_int (ro_MaxDelay retry)), WithErrorHandler (\<lambda>err. result False), WithFn fn]"

record 'w DefaultPromotionHandler =
  ph_stratReg :: "'w StrategyRegistry"
  ph_retry :: RetryOpts

definition PromotionHandler_promote ::
  "'w DefaultPromotionHandler \<Rightarrow> 'w Platform \<Rightarrow> Promotion option \<Rightarrow> StrategyPromotion
     \<Rightarrow> ('w sys, (PromotionResult option \<times> go_error option) outcome) state"
where
  "PromotionHandler_promote h K promotionSpec prom =
     (case promotionSpec of
        None \<Rightarrow> result (Returned (None, Some (PlainError ''no promotion configured in Pipeline resource'')))
      | Some spec \<Rightarrow>
          State (\<lambda>s.
            case run_state
                   (Exponential (\<lambda>d. lift_sys (time_Sleep K d))
                      (promote_opts (ph_retry h) (promote_fn (ph_stratReg h) spec prom)))
                   (s, None) of
              (Panicked msg, (s', res)) \<Rightarrow> (Panicked msg, s')
            | (Returned err, (s', res)) \<Rightarrow> (Returned (res, err), s')))"

section \<open>The promotion handler\<close>

definition handler_setWaitingApproval ::
  "'w Platform \<Rightarrow> Pipeline \<Rightarrow> string \<Rightarrow> string \<Rightarrow> ('w sys, go_error + unit) state"
where
  "handler_setWaitingApproval K pipeline env revision =
     do { g \<leftarrow> client_GetPipeline K (Pipeline_key pipeline);
          case g of
            Inl err \<Rightarrow> result (Inl err)
          | Inr pipeline' \<Rightarrow>
              client_StatusUpdate K
                (pipeline'\<lparr>p_Status := SetWaitingApproval (p_Status pipeline') env revision\<rparr>) }"

text \<open>Lines 141--146 of \<open>promotion_handler.go\<close>, the same in the approval handler; a nil
  \<open>res\<close> would be dereferenced.\<close>

definition respond_result :: "PromotionResult option \<Rightarrow> http_Response outcome" where
  "respond_result res =
     (case res of
        None \<Rightarrow> Panicked nil_dereference
      | Some r \<Rightarrow>
          if res_Location r \<noteq> '''' then
            Returned \<lparr>rs_Status = StatusCreated, rs_Header = [(''Location'', res_Location r)], rs_Body = ''''\<rparr>
          else respond StatusNoContent '''')"

text \<open>Lines 110--146: the environment to promote to is known.\<close>

definition promotion_to ::
  "'w DefaultPromotionHandler \<Rightarrow> 'w Platform \<Rightarrow> Pipeline \<Rightarrow> Environment \<Rightarrow> StrategyPromotion
     \<Rightarrow> ('w sys, http_Response outcome) state"
where
  "promotion_to h K pipeline promEnv promotion =
     (case GetPromotion (p_Spec pipeline) (env_Name promEnv) of
        None \<Rightarrow> result promotion_failed
      | Some promSpec \<Rightarrow>
          if pr_Manual promSpec then
            do { x \<leftarrow> handler_setWaitingApproval K pipeline (env_Name promEnv) (sp_Version promotion);
                 case x of
                   Inl err \<Rightarrow> result promotion_failed
                 | Inr _ \<Rightarrow> result (respond StatusNoContent '''') }
          else
            do { x \<leftarrow> PromotionHandler_promote h K (Some promSpec) promotion;
                 case x of
                   Panicked msg \<Rightarrow> result (Panicked msg)
                 | Returned (res, Some err) \<Rightarrow> result promotion_failed
                 | Returned (res, None) \<Rightarrow> result (respond_result res) })"

text \<open>Lines 88--146: the request is authenticated.\<close>

definition promotion_event ::
  "'w DefaultPromotionHandler \<Rightarrow> WebhookLib \<Rightarrow> 'w Platform \<Rightarrow> Pipeline \<Rightarrow> ObjectKey \<Rightarrow> string \<Rightarrow> string
     \<Rightarrow> ('w sys, http_Response outcome) state"
where
  "promotion_event h W K pipeline key env body =
     (case wl_UnmarshalEvent W body of
        Inl err \<Rightarrow> result (respond StatusBadRequest '''')
      | Inr ev \<Rightarrow>
          (let version = (case ev_Metadata ev ''revision'' of None \<Rightarrow> '''' | Some v \<Rightarrow> v)
           in if version = '''' then
                result (respond StatusUnprocessableEntity
                  (''event has no '' @ [CHR 39] @ ''revision'' @ [CHR 39] @ '' in the metadata field.''))
              else
                (case lookupNextEnvironment pipeline env (ev_InvolvedObject ev) of
                   Inl err \<Rightarrow> result (respond StatusUnprocessableEntity (HTMLEscape (err_Error err)))
                 | Inr promEnv \<Rightarrow>
                     promotion_to h K pipeline promEnv
                       \<lparr>sp_PipelineNamespace = ok_Namespace key, sp_PipelineName = ok_Name key,
                        sp_Environment = promEnv, sp_Version = version\<rparr>)))"

definition PromotionHandler_ServeHTTP ::
  "'w DefaultPromotionHandler \<Rightarrow> WebhookLib \<Rightarrow> 'w Platform \<Rightarrow> http_Request
     \<Rightarrow> ('w sys, http_Response outcome) state"
where
  "PromotionHandler_ServeHTTP h W K r =
     (if rq_Method r \<noteq> ''POST'' then result (respond StatusMethodNotAllowed '''')
      else
        (case path_match 3 (rq_Path r) of
           None \<Rightarrow> result http_NotFound
         | Some pathMatches \<Rightarrow>
             (let key = \<lparr>ok_Namespace = pathMatches ! 0, ok_Name = pathMatches ! 1\<rparr>;
                  env = pathMatches ! 2
              in case rq_Body r of
                   Inl err \<Rightarrow> result (respond StatusBadRequest '''')
                 | Inr body \<Rightarrow>
                     do { g \<leftarrow> client_GetPipeline K key;
                          case g of
                            Inl err \<Rightarrow>
                              result (respond (if IsNotFound err then StatusNotFound
                                               else StatusInternalServerError) '''')
                          | Inr pipeline \<Rightarrow>
                              do { v \<leftarrow> verifyXSignature (wl_Sign W) K pipeline (rq_Header r) body;
                                   case v of
                                     Some err \<Rightarrow> result (respond StatusUnauthorized '''')
                                   | None \<Rightarrow> promotion_event h W K pipeline key env body } })))"

section \<open>The approval handler\<close>

record 'w DefaultApprovalHandler =
  ah_stratReg :: "'w StrategyRegistry"

definition ApprovalHandler_promote ::
  "'w DefaultApprovalHandler \<Rightarrow> Promotion option \<Rightarrow> StrategyPromotion
     \<Rightarrow> ('w sys, (PromotionResult option \<times> go_error option) outcome) state"
where
  "ApprovalHandler_promote h promotionSpec prom =
     (case promotionSpec of
        None \<Rightarrow> result (Returned (None, Some (PlainError ''no promotion configured in Pipeline resource'')))
      | Some spec \<Rightarrow>
          (case Registry_Get (ah_stratReg h) spec of
             Inl err \<Rightarrow> result (Returned (None, Some (Wrapped ''error getting strategy from registry'' err)))
           | Inr strat \<Rightarrow>
               do { x \<leftarrow> strat_Promote strat spec prom;
                    case x of
                      Panicked msg \<Rightarrow> result (Panicked msg)
                    | Returned (Inl err) \<Rightarrow> result (Returned (None, Some err))
                    | Returned (Inr r) \<Rightarrow> result (Returned (Some r, None)) }))"

definition resetWaitingApproval ::
  "'w Platform \<Rightarrow> Pipeline \<Rightarrow> string \<Rightarrow> ('w sys, go_error + unit) state"
where
  "resetWaitingApproval K pipeline env =
     do { g \<leftarrow> client_GetPipeline K (Pipeline_key pipeline);
          case g of
            Inl err \<Rightarrow> result (Inl err)
          | Inr pipeline' \<Rightarrow>
              client_StatusUpdate K
                (pipeline'\<lparr>p_Status := ResetWaitingApproval (p_Status pipeline') env\<rparr>) }"

text \<open>Lines 70--121: the request is authenticated.\<close>

definition approve ::
  "'w DefaultApprovalHandler \<Rightarrow> 'w Platform \<Rightarrow> Pipeline \<Rightarrow> ObjectKey \<Rightarrow> string \<Rightarrow> string
     \<Rightarrow> ('w sys, http_Response outcome) state"
where
  "approve h K pipeline key env revision =
     (if wa_Revision (GetWaitingApproval (p_Status pipeline) env) \<noteq> revision then
        result (respond StatusUnprocessableEntity ''failed approving promotion'')
      else
        (case lookupEnvironment pipeline env of
           Inl err \<Rightarrow> result (respond StatusUnprocessableEntity (err_Error err))
         | Inr promEnv \<Rightarrow>
             (case GetPromotion (p_Spec pipeline) (env_Name promEnv) of
                None \<Rightarrow> result promotion_failed
              | Some promSpec \<Rightarrow>
                  do { x \<leftarrow> ApprovalHandler_promote h (Some promSpec)
                             \<lparr>sp_PipelineNamespace = ok_Namespace key, sp_PipelineName = ok_Name key,
                              sp_Environment = promEnv,
                              sp_Version = wa_Revision (GetWaitingApproval (p_Status pipeline) env)\<rparr>;
                       case x of
                         Panicked msg \<Rightarrow> result (Panicked msg)
                       | Returned (res, Some err) \<Rightarrow> result promotion_failed
                       | Returned (res, None) \<Rightarrow>
                           do { y \<leftarrow> resetWaitingApproval K pipeline env;
                                case y of
                                  Inl err \<Rightarrow> result promotion_failed
                                | Inr _ \<Rightarrow> result (respond_result res) } })))"

definition ApprovalHandler_ServeHTTP ::
  "'w DefaultApprovalHandler \<Rightarrow> WebhookLib \<Rightarrow> 'w Platform \<Rightarrow> http_Request
     \<Rightarrow> ('w sys, http_Response outcome) state"
where
  "ApprovalHandler_ServeHTTP h W K r =
     (if rq_Method r \<noteq> ''POST'' then result (respond StatusMethodNotAllowed '''')
      else
        (case path_match 4 (rq_Path r) of
           None \<Rightarrow> result http_NotFound
         | Some pathMatches \<Rightarrow>
             (let key = \<lparr>ok_Namespace = pathMatches ! 0, ok_Name = pathMatches ! 1\<rparr>;
                  env = pathMatches ! 2; revision = pathMatches ! 3
              in do { g \<leftarrow> client_GetPipeline K key;
                      case g of
                        Inl err \<Rightarrow>
                          result (respond (if IsNotFound err then StatusNotFound
                                           else StatusInternalServerError) '''')
                      | Inr pipeline \<Rightarrow>
                          do { v \<leftarrow> verifyXSignature (wl_Sign W) K pipeline (rq_Header r) '''';
                               case v of
                                 Some err \<Rightarrow> result (respond StatusUnauthorized '''')
                               | None \<Rightarrow> approve h K pipeline key env revision } })))"

end
