(* ===== verification/Webhook_Guarantees.thy ===== *)
theory Webhook_Guarantees
  imports Webhook_Handlers
begin

text \<open>
  What the webhook handlers of \<open>Webhook_Handlers\<close> guarantee: every promotion and every
  write is justified by an authentic request for exactly that, promotions per request are
  bounded by the retry threshold, success is reported only after the effect, and a
  handler panics only if a registered strategy does. A strategy under the contract \<open>promotion_strategy\<close> is a retried
  operation (\<open>sublocale\<close>), so the number of promotions per request follows from the
  lemmas of \<open>retried\<close>.
\<close>

section \<open>The retried promotion\<close>

lemma run_assign_res [simp]: "run_state (assign_res x) \<sigma> = ((), (fst \<sigma>, x))"
  by (cases \<sigma>) (simp add: assign_res_def)

lemma run_promote_once:
  "run_state (promote_once st spec prom) \<sigma> =
     (case run_state (strat_Promote st spec prom) (fst \<sigma>) of
        (Panicked m, s) \<Rightarrow> (Panicked m, (s, snd \<sigma>))
      | (Returned (Inl err), s) \<Rightarrow> (Returned (Some err), (s, None))
      | (Returned (Inr r), s) \<Rightarrow> (Returned None, (s, Some r)))"
  by (simp add: promote_once_def split: prod.split sum.split outcome.split)

lemma promote_once_success:
  assumes "run_state (promote_once st spec prom) \<sigma> = (Returned None, (t, res))"
  shows "\<exists>r s. run_state (strat_Promote st spec prom) s = (Returned (Inr r), t) \<and> res = Some r"
proof -
  obtain x s where "run_state (strat_Promote st spec prom) (fst \<sigma>) = (x, s)" by fastforce
  with assms show ?thesis by (auto simp: run_promote_once split: outcome.splits sum.splits)
qed

lemma promote_once_panic:
  assumes "run_state (promote_once st spec prom) \<sigma> = (Panicked m, \<tau>)"
  shows "\<exists>s. value_of (strat_Promote st spec prom) s = Panicked m"
proof -
  obtain x s where "run_state (strat_Promote st spec prom) (fst \<sigma>) = (x, s)" by fastforce
  with assms show ?thesis
    by (intro exI [of _ "fst \<sigma>"]) (auto simp: run_promote_once split: outcome.splits sum.splits)
qed

lemma exec_promote_once [simp]:
  "fst (exec (promote_once st spec prom) \<sigma>) = exec (strat_Promote st spec prom) (fst \<sigma>)"
  by (simp add: run_promote_once split: prod.split sum.split outcome.split)

text \<open>The promotions and the waits among the calls so far.\<close>

definition sleeps_of :: "'w sys \<Rightarrow> int list" where
  "sleeps_of s = List.map_filter (\<lambda>c. case c of CallSleep d \<Rightarrow> Some d | _ \<Rightarrow> None) (trace s)"

abbreviation promotions :: "'w closure_state \<Rightarrow> nat" where
  "promotions \<sigma> \<equiv> length (calls_of is_promote (fst \<sigma>))"

abbreviation waited :: "'w closure_state \<Rightarrow> int list" where
  "waited \<sigma> \<equiv> sleeps_of (fst \<sigma>)"

lemma map_filter_append [simp]:
  "List.map_filter f (xs @ ys) = List.map_filter f xs @ List.map_filter f ys"
  by (induction xs) (auto simp: List.map_filter_def)

lemma no_sleep_map_filter:
  "list_all quiet d \<Longrightarrow> List.map_filter (\<lambda>c. case c of CallSleep t \<Rightarrow> Some t | _ \<Rightarrow> None) d = []"
  by (induction d) (auto simp: List.map_filter_def split: call.split)

definition promote_options ::
  "RetryOpts \<Rightarrow> ('w closure_state, go_error option outcome) state \<Rightarrow> 'w closure_state ExponentialOptions"
where
  "promote_options retry fn = foldl (\<lambda>o' f. f o') default_ExponentialOptions (promote_opts retry fn)"

lemma promote_options_simps [simp]:
  "eo_retries (promote_options retry fn) = ro_Threshold retry"
  "eo_errorHandlerFn (promote_options retry fn) = Some (\<lambda>err. result False)"
  "eo_fn (promote_options retry fn) = Some fn"
  by (simp_all add: promote_options_def promote_opts_def WithRetries_def WithDelayBase_def
      WithMaxDelay_def WithErrorHandler_def WithFn_def)

lemma Exponential_promote:
  "Exponential sleep (promote_opts retry fn) = exponential_loop sleep (promote_options retry fn) fn 0"
  by (simp add: Exponential_def promote_options_simps(3) [unfolded promote_options_def] promote_options_def)

text \<open>A strategy under contract is an operation that can be retried: each attempt is one
  promotion.\<close>

sublocale promotion_strategy \<subseteq> retrying: retried promotions waited "\<lambda>d. lift_sys (time_Sleep K d)"
    "promote_once st spec prom" "promote_options retry (promote_once st spec prom)"
  for K :: "'w Platform" and spec prom retry
proof unfold_locales
  fix \<sigma> d e h
  show "promotions (exec (promote_once st spec prom) \<sigma>) = Suc (promotions \<sigma>)"
    by (simp add: promote_calls)
  obtain ds where "trace (exec (strat_Promote st spec prom) (fst \<sigma>)) = trace (fst \<sigma>) @ CallPromote spec prom # ds"
    "list_all quiet ds"
    using promote_trace by blast
  then show "waited (exec (promote_once st spec prom) \<sigma>) = waited \<sigma>"
    by (simp add: sleeps_of_def no_sleep_map_filter)
  show "promotions (exec (lift_sys (time_Sleep K d)) \<sigma>) = promotions \<sigma>"
    by (simp add: op_defs run_perform calls_of_def)
  show "waited (exec (lift_sys (time_Sleep K d)) \<sigma>) = waited \<sigma> @ [d]"
    by (simp add: op_defs run_perform sleeps_of_def)
qed auto

context promotion_strategy
begin

lemma retried_promotion:
  fixes K :: "'w Platform"
  shows "retried promotions waited (\<lambda>d. lift_sys (time_Sleep K d)) (promote_once st spec prom)
     (promote_options retry (promote_once st spec prom))"
  by (rule retrying.retried_axioms)

end

text \<open>\<open>promotes_within n P m\<close>: \<open>m\<close> only appends calls satisfying \<open>P\<close> to the trace,
  at most \<open>n\<close> of them promotions.\<close>

definition promotes_within :: "nat \<Rightarrow> (call \<Rightarrow> bool) \<Rightarrow> 'w sys \<Rightarrow> 'w sys \<Rightarrow> bool" where
  "promotes_within n P s t \<longleftrightarrow>
     (\<exists>d. trace t = trace s @ d \<and> list_all P d \<and> length (filter is_promote d) \<le> n)"

lemma promotes_within_after:
  assumes "grew (\<lambda>c. P c \<and> \<not> is_promote c) s s'" and "promotes_within n P s' t"
  shows "promotes_within n P s t"
proof -
  obtain d where d: "trace s' = trace s @ d" "list_all (\<lambda>c. P c \<and> \<not> is_promote c) d"
    using assms(1) by (auto simp: grew_def)
  obtain e where e: "trace t = trace s' @ e" "list_all P e" "length (filter is_promote e) \<le> n"
    using assms(2) by (auto simp: promotes_within_def)
  from d(2) have "filter is_promote d = []" by (auto simp: list_all_iff filter_empty_conv)
  with d e show ?thesis
    unfolding promotes_within_def by (intro exI [of _ "d @ e"]) (auto simp: list_all_iff)
qed

lemma promotes_within_none:
  assumes "grew (\<lambda>c. P c \<and> \<not> is_promote c) s t"
  shows "promotes_within n P s t"
  by (rule promotes_within_after [OF assms]) (simp add: promotes_within_def)

lemma promotes_within_mono:
  "promotes_within n P s t \<Longrightarrow> (\<And>c. P c \<Longrightarrow> Q c) \<Longrightarrow> promotes_within n Q s t"
  unfolding promotes_within_def by (metis (mono_tags, lifting) list.pred_mono_strong)

text \<open>The calls of a retried promotion: this promotion, waits, and quiet calls.\<close>

definition promotes_this :: "Promotion \<Rightarrow> StrategyPromotion \<Rightarrow> call \<Rightarrow> bool" where
  "promotes_this spec prom c \<longleftrightarrow> \<not> is_write c \<and> (is_promote c \<longrightarrow> c = CallPromote spec prom)"

lemma strat_Promote_this:
  assumes "promotion_strategy st"
  shows "emits (promotes_this spec prom) (strat_Promote st spec prom)"
  unfolding strat_Promote_def
  by (intro emits_intros emits_mono [OF promotion_strategy.promote_quiet [OF assms]])
     (auto simp: promotes_this_def)

lemma promote_loop_this:
  assumes "promotion_strategy st"
  shows "grew (promotes_this spec prom) (fst \<sigma>)
    (fst (exec (exponential_loop (\<lambda>d. lift_sys (time_Sleep K d)) (promote_options retry fn)
       (promote_once st spec prom) k) \<sigma>))"
proof (rule preservesD [where I = "\<lambda>\<tau>. grew (promotes_this spec prom) (fst \<sigma>) (fst \<tau>)"])
  show "preserves (\<lambda>\<tau>. grew (promotes_this spec prom) (fst \<sigma>) (fst \<tau>))
      (exponential_loop (\<lambda>d. lift_sys (time_Sleep K d)) (promote_options retry fn) (promote_once st spec prom) k)"
  proof (rule exponential_loop_preserves)
    show "preserves (\<lambda>\<tau>. grew (promotes_this spec prom) (fst \<sigma>) (fst \<tau>)) (promote_once st spec prom)"
      unfolding preserves_def
      by (auto intro: grew_trans emits_grew [OF strat_Promote_this [OF assms] surjective_pairing])
    show "preserves (\<lambda>\<tau>. grew (promotes_this spec prom) (fst \<sigma>) (fst \<tau>)) (lift_sys (time_Sleep K d))" for d
      unfolding preserves_def
      by (auto simp: op_defs run_perform promotes_this_def elim!: grew_trans intro!: grew_step)
  qed (auto intro: preserves_return)
qed simp

lemma promote_found:
  assumes "promotion_strategy st" and "Registry_Get (ph_stratReg h) spec = Inr st"
  shows "run_state (PromotionHandler_promote h K (Some spec) prom) s =
    (case run_state (exponential_loop (\<lambda>d. lift_sys (time_Sleep K d))
        (promote_options (ph_retry h) (promote_once st spec prom)) (promote_once st spec prom) 0) (s, None) of
       (Panicked msg, (s', res)) \<Rightarrow> (Panicked msg, s')
     | (Returned err, (s', res)) \<Rightarrow> (Returned (res, err), s'))"
  using assms by (simp add: PromotionHandler_promote_def promote_fn_def Exponential_promote)

abbreviation attempts_allowed :: "'w DefaultPromotionHandler \<Rightarrow> nat" where
  "attempts_allowed h \<equiv> nat (max 1 (ro_Threshold (ph_retry h)))"

lemma promote_found_within:
  assumes st: "promotion_strategy st" and "Registry_Get (ph_stratReg h) spec = Inr st"
    and run: "run_state (PromotionHandler_promote h K (Some spec) prom) s = (x, t)"
  shows "promotes_within (attempts_allowed h) (promotes_this spec prom) s t"
    and "x = Returned (res, None) \<Longrightarrow> res \<noteq> None"
    and "panics_only (may_panic (ph_stratReg h)) x"
proof -
  let ?loop = "exponential_loop (\<lambda>d. lift_sys (time_Sleep K d))
      (promote_options (ph_retry h) (promote_once st spec prom)) (promote_once st spec prom) 0"
  obtain y res' where loop: "run_state ?loop (s, None) = (y, (t, res'))"
    and x: "x = (case y of Panicked m \<Rightarrow> Panicked m | Returned err \<Rightarrow> Returned (res', err))"
    using run unfolding promote_found [OF assms(1,2)] by (auto split: prod.splits outcome.splits)
  have last: "\<exists>\<sigma>. run_state (promote_once st spec prom) \<sigma> = (y, (t, res'))"
    if "y = Returned None \<or> (\<exists>m. y = Panicked m)"
    by (rule exponential_loop_last [OF loop that]) auto
  note retried = promotion_strategy.retried_promotion [OF st]
  have "0 < retried.limit (promote_options (ph_retry h) (promote_once st spec prom))"
    by (simp add: retried.limit_def [OF retried])
  from retried.loop_attempts [OF retried this, of K "(s, None)"]
  have "length (calls_of is_promote t) \<le> length (calls_of is_promote s) + attempts_allowed h"
    using loop by (auto simp: retried.limit_def [OF retried])
  moreover have "grew (promotes_this spec prom) s t"
    using promote_loop_this [OF st, of spec prom "(s, None)"] loop by (metis fst_conv snd_conv)
  ultimately show "promotes_within (attempts_allowed h) (promotes_this spec prom) s t"
    by (auto simp: grew_def promotes_within_def calls_of_def)
  show "res \<noteq> None" if "x = Returned (res, None)"
    using last that by (auto simp: x split: outcome.splits dest: promote_once_success)
  show "panics_only (may_panic (ph_stratReg h)) x"
  proof (cases x)
    case (Panicked m)
    then have "\<exists>s. value_of (strat_Promote st spec prom) s = Panicked m"
      using last by (auto simp: x split: outcome.splits dest: promote_once_panic)
    with registered_panics_only [OF assms(2)] Panicked show ?thesis
      by (metis panics_only.simps(2))
  qed simp
qed

lemma promote_found_progress:
  assumes st: "promotion_strategy st" and "Registry_Get (ph_stratReg h) spec = Inr st"
    and run: "run_state (PromotionHandler_promote h K (Some spec) prom) s = (x, t)"
  shows "length (calls_of is_promote s) < length (calls_of is_promote t)"
proof -
  note retried = promotion_strategy.retried_promotion [OF st]
  have "0 < retried.limit (promote_options (ph_retry h) (promote_once st spec prom))"
    by (simp add: retried.limit_def [OF retried])
  from retried.loop_attempts [OF retried this, of K "(s, None)"] run show ?thesis
    unfolding promote_found [OF assms(1,2)] by (auto split: prod.splits outcome.splits)
qed

lemma promote_unknown:
  assumes "Registry_Get (ph_stratReg h) spec = Inl e"
    and run: "run_state (PromotionHandler_promote h K (Some spec) prom) s = (x, t)"
  shows "grew (\<lambda>c. promotes_this spec prom c \<and> \<not> is_promote c) s t"
    and "\<exists>res err. x = Returned (res, Some err)"
proof -
  let ?fn = "result (Returned (Some (Wrapped ''error getting strategy from registry'' e)))"
  let ?loop = "exponential_loop (\<lambda>d. lift_sys (time_Sleep K d)) (promote_options (ph_retry h) ?fn) ?fn 0"
  let ?I = "\<lambda>\<tau>. grew (\<lambda>c. promotes_this spec prom c \<and> \<not> is_promote c) s (fst \<tau>)"
  obtain y res' where loop: "run_state ?loop (s, None) = (y, (t, res'))"
    and x: "x = (case y of Panicked m \<Rightarrow> Panicked m | Returned err \<Rightarrow> Returned (res', err))"
    using run assms(1)
    by (auto simp: PromotionHandler_promote_def promote_fn_def Exponential_promote
        split: prod.splits outcome.splits)
  have "preserves ?I ?loop"
  proof (rule exponential_loop_preserves)
    show "preserves ?I (lift_sys (time_Sleep K d))" for d
      unfolding preserves_def
      by (auto simp: op_defs run_perform promotes_this_def elim!: grew_trans intro!: grew_step)
  qed (auto intro: preserves_return)
  from preservesD [OF this, of "(s, None)"] loop
  show "grew (\<lambda>c. promotes_this spec prom c \<and> \<not> is_promote c) s t" by simp
  have "\<not> (y = Returned None \<or> (\<exists>m. y = Panicked m))"
  proof
    assume y: "y = Returned None \<or> (\<exists>m. y = Panicked m)"
    have "\<exists>\<sigma>. run_state ?fn \<sigma> = (y, (t, res'))" by (rule exponential_loop_last [OF loop y]) auto
    with y show False by auto
  qed
  then show "\<exists>res err. x = Returned (res, Some err)"
    by (cases y) (auto simp: x)
qed

section \<open>What the promotion handler does\<close>

text \<open>The environment a promotion goes to, and the event that asks for it.\<close>

definition next_env :: "Pipeline \<Rightarrow> string \<Rightarrow> Environment \<Rightarrow> Environment \<Rightarrow> bool" where
  "next_env p env src dst \<longleftrightarrow>
     (\<exists>before after. spec_Environments (p_Spec p) = before @ src # dst # after \<and>
        env_Name src = env \<and> (\<forall>e \<in> set before. env_Name e \<noteq> env))"

definition involves :: "Pipeline \<Rightarrow> Environment \<Rightarrow> ObjectReference \<Rightarrow> bool" where
  "involves p src obj \<longleftrightarrow>
     \<lparr>lar_APIVersion = or_APIVersion obj, lar_Kind = or_Kind obj, lar_Name = or_Name obj\<rparr> = spec_AppRef (p_Spec p) \<and>
     (\<exists>t \<in> set (env_Targets src). tgt_Namespace t = or_Namespace obj)"

lemma lookupNext_loop_iff:
  "lookupNext_loop env envs = Inr (Some (src, dst)) \<longleftrightarrow>
     (\<exists>before after. envs = before @ src # dst # after \<and> env_Name src = env \<and>
        (\<forall>e \<in> set before. env_Name e \<noteq> env))"
proof (induction envs)
  case (Cons e envs)
  show ?case
  proof (cases "env_Name e = env")
    case True
    then show ?thesis by (auto split: list.split simp: Cons_eq_append_conv)
  next
    case False
    then have "(\<exists>before after. e # envs = before @ src # dst # after \<and> env_Name src = env \<and>
          (\<forall>e \<in> set before. env_Name e \<noteq> env)) \<longleftrightarrow>
        (\<exists>before after. envs = before @ src # dst # after \<and> env_Name src = env \<and>
          (\<forall>e \<in> set before. env_Name e \<noteq> env))"
    proof (intro iffI; elim exE conjE)
      fix before after
      assume "envs = before @ src # dst # after" "env_Name src = env" "\<forall>e \<in> set before. env_Name e \<noteq> env"
      with False show "\<exists>before after. e # envs = before @ src # dst # after \<and> env_Name src = env \<and>
          (\<forall>e \<in> set before. env_Name e \<noteq> env)"
        by (intro exI [of _ "e # before"] exI [of _ after]) simp
    qed (auto simp: Cons_eq_append_conv)
    with False Cons.IH show ?thesis by simp
  qed
qed simp

lemma lookupNextEnvironment_iff:
  "lookupNextEnvironment p env obj = Inr dst \<longleftrightarrow>
     (\<exists>src. next_env p env src dst \<and> involves p src obj \<and> env_Targets dst \<noteq> [])"
proof -
  have app: "lar = \<lparr>lar_APIVersion = a, lar_Kind = k, lar_Name = n\<rparr> \<longleftrightarrow>
      lar_APIVersion lar = a \<and> lar_Kind lar = k \<and> lar_Name lar = n" for lar :: LocalAppReference and a k n
    by (cases lar) simp
  have "lookupNextEnvironment p env obj = Inr dst \<longleftrightarrow>
      (\<exists>src. lookupNext_loop env (spec_Environments (p_Spec p)) = Inr (Some (src, dst)) \<and>
         involves p src obj \<and> env_Targets dst \<noteq> [])"
    unfolding lookupNextEnvironment_def involves_def namespaceInTargets_def eq_commute [of _ "spec_AppRef _"] app
    by (auto simp: list_ex_iff split: sum.splits option.splits if_splits)
  then show ?thesis by (simp add: lookupNext_loop_iff next_env_def)
qed

text \<open>The promotion that an event in the request body asks for, and the call it may lead to: the
  promotion itself, or, if it is manual, a note that it waits for approval.\<close>

definition asks_for ::
  "WebhookLib \<Rightarrow> Pipeline \<Rightarrow> ObjectKey \<Rightarrow> string \<Rightarrow> string \<Rightarrow> Promotion \<Rightarrow> StrategyPromotion \<Rightarrow> bool"
where
  "asks_for W p key env body spec prom \<longleftrightarrow>
     (\<exists>ev src dst version.
        wl_UnmarshalEvent W body = Inr ev \<and>
        ev_Metadata ev ''revision'' = Some version \<and> version \<noteq> '''' \<and>
        next_env p env src dst \<and> involves p src (ev_InvolvedObject ev) \<and> env_Targets dst \<noteq> [] \<and>
        GetPromotion (p_Spec p) (env_Name dst) = Some spec \<and>
        prom = \<lparr>sp_PipelineNamespace = ok_Namespace key, sp_PipelineName = ok_Name key,
                sp_Environment = dst, sp_Version = version\<rparr>)"

fun carries_out :: "Promotion \<Rightarrow> StrategyPromotion \<Rightarrow> call \<Rightarrow> bool" where
  "carries_out spec prom (CallPromote spec' prom') \<longleftrightarrow> \<not> pr_Manual spec \<and> spec' = spec \<and> prom' = prom"
| "carries_out spec prom (CallStatusUpdate p) \<longleftrightarrow> pr_Manual spec \<and>
     (\<exists>q. p = q\<lparr>p_Status := SetWaitingApproval (p_Status q) (env_Name (sp_Environment prom)) (sp_Version prom)\<rparr>)"
| "carries_out spec prom (CallPatch _ _) \<longleftrightarrow> False"
| "carries_out spec prom (CallStatusPatch _ _ _) \<longleftrightarrow> False"
| "carries_out spec prom _ \<longleftrightarrow> True"

fun succeeded :: "http_Response outcome \<Rightarrow> bool" where
  "succeeded (Returned r) \<longleftrightarrow> rs_Status r \<in> {StatusCreated, StatusNoContent}"
| "succeeded (Panicked _) \<longleftrightarrow> False"

text \<open>The result of a handler: it panics only as a strategy of the registry may; it promotes at most \<open>n\<close> times; its calls
  satisfy \<open>P\<close>; and if it reports success, it promoted or wrote.\<close>

definition handled_well ::
  "'w DefaultPromotionHandler \<Rightarrow> (call \<Rightarrow> bool) \<Rightarrow> 'w sys \<Rightarrow> http_Response outcome \<Rightarrow> 'w sys \<Rightarrow> bool"
where
  "handled_well h P s x t \<longleftrightarrow>
     panics_only (may_panic (ph_stratReg h)) x \<and> promotes_within (attempts_allowed h) P s t \<and>
     (succeeded x \<longrightarrow> calls_of (\<lambda>c. is_promote c \<or> is_write c) t \<noteq> calls_of (\<lambda>c. is_promote c \<or> is_write c) s)"

lemma promotes_this_carries_out: "\<not> pr_Manual spec \<Longrightarrow> promotes_this spec prom c \<Longrightarrow> carries_out spec prom c"
  by (cases c) (auto simp: promotes_this_def)

lemma succeeded_failed [simp]:
  "\<not> succeeded promotion_failed" "\<not> succeeded http_NotFound" "returns promotion_failed" "returns http_NotFound"
  "panics_only P promotion_failed" "panics_only P http_NotFound"
  by (simp_all add: promotion_failed_def http_NotFound_def)

lemma respond_result_Some [simp]: "returns (respond_result (Some x))" "panics_only P (respond_result (Some x))"
  by (simp_all add: respond_result_def)

lemma calls_of_grows:
  assumes "grew P s t" and "length (calls_of is_promote s) < length (calls_of is_promote t)"
  shows "calls_of (\<lambda>c. is_promote c \<or> is_write c) t \<noteq> calls_of (\<lambda>c. is_promote c \<or> is_write c) s"
proof -
  obtain d where d: "trace t = trace s @ d" using assms(1) by (auto simp: grew_def)
  with assms(2) have "filter is_promote d \<noteq> []" by (auto simp: calls_of_def)
  then have "filter (\<lambda>c. is_promote c \<or> is_write c) d \<noteq> []" by (auto simp: filter_empty_conv)
  with d show ?thesis by (simp add: calls_of_def)
qed

lemma promotes_within_grew: "promotes_within n P s t \<Longrightarrow> grew P s t"
  by (auto simp: promotes_within_def grew_def)

lemma automatic_promotion_handled:
  assumes reg: "list_all promotion_strategy (ph_stratReg h)" and auto: "\<not> pr_Manual spec"
    and run: "run_state (PromotionHandler_promote h K (Some spec) prom) s = (x, t)"
  shows "handled_well h (carries_out spec prom) s
    (case x of Panicked m \<Rightarrow> Panicked m | Returned (res, Some e) \<Rightarrow> promotion_failed
     | Returned (res, None) \<Rightarrow> respond_result res) t"
proof (cases "Registry_Get (ph_stratReg h) spec")
  case (Inl e)
  have "grew (\<lambda>c. carries_out spec prom c \<and> \<not> is_promote c) s t"
    by (rule grew_mono [OF promote_unknown(1) [OF Inl run]]) (simp add: promotes_this_carries_out [OF auto])
  moreover obtain res e' where "x = Returned (res, Some e')" using promote_unknown(2) [OF Inl run] by blast
  ultimately show ?thesis
    by (simp add: handled_well_def promotes_within_none)
next
  case (Inr st)
  then have st: "promotion_strategy st" using reg Registry_Get_set by (fastforce simp: list_all_iff)
  have within: "promotes_within (attempts_allowed h) (carries_out spec prom) s t"
    by (rule promotes_within_mono [OF promote_found_within(1) [OF st Inr run]])
       (simp add: promotes_this_carries_out [OF auto])
  have "calls_of (\<lambda>c. is_promote c \<or> is_write c) t \<noteq> calls_of (\<lambda>c. is_promote c \<or> is_write c) s"
    by (rule calls_of_grows [OF promotes_within_grew [OF within] promote_found_progress [OF st Inr run]])
  moreover have "panics_only (may_panic (ph_stratReg h))
      (case x of Panicked m \<Rightarrow> Panicked m | Returned (res, Some e) \<Rightarrow> promotion_failed
       | Returned (res, None) \<Rightarrow> respond_result res)"
    using promote_found_within(2,3) [OF st Inr run] by (auto split: option.split outcome.split)
  ultimately show ?thesis
    using within by (simp add: handled_well_def)
qed

lemma manual_promotion_handled:
  assumes "pr_Manual spec" and "env_Name (sp_Environment prom) = env"
  shows "wp (handler_setWaitingApproval K p env (sp_Version prom))
    (\<lambda>x t. handled_well h (carries_out spec prom) s
       (case x of Inl e \<Rightarrow> promotion_failed | Inr _ \<Rightarrow> respond StatusNoContent '''') t) s"
  using assms
  by (auto simp: handler_setWaitingApproval_def wp_rules op_defs handled_well_def calls_of_def
      promotes_within_def split: sum.split intro: exI)

lemma promotion_to_handled:
  assumes "list_all promotion_strategy (ph_stratReg h)" and "sp_Environment prom = dst"
    and "GetPromotion (p_Spec p) (env_Name dst) = Some spec"
  shows "wp (promotion_to h K p dst prom) (handled_well h (carries_out spec prom) s) s"
proof (cases "pr_Manual spec")
  case True
  have "wp (handler_setWaitingApproval K p (env_Name dst) (sp_Version prom))
     (\<lambda>x. wp (case x of Inl err \<Rightarrow> result promotion_failed | Inr _ \<Rightarrow> result (respond StatusNoContent ''''))
        (handled_well h (carries_out spec prom) s)) s"
    by (rule wp_mono [OF manual_promotion_handled [OF True]])
       (use assms(2) in \<open>auto simp: wp_rules split: sum.splits\<close>)
  with assms(3) True show ?thesis by (simp add: promotion_to_def wp_rules)
next
  case False
  have "wp (PromotionHandler_promote h K (Some spec) prom)
     (\<lambda>x. wp (case x of Panicked m \<Rightarrow> result (Panicked m) | Returned (res, Some err) \<Rightarrow> result promotion_failed
              | Returned (res, None) \<Rightarrow> result (respond_result res))
        (handled_well h (carries_out spec prom) s)) s"
    by (rule wp_runI)
       (use automatic_promotion_handled [OF assms(1) False] in
         \<open>fastforce simp: wp_rules split: option.split outcome.split\<close>)
  with assms(3) False show ?thesis by (simp add: promotion_to_def wp_rules)
qed

text \<open>The request as a whole: what the calls of the handler are justified by.\<close>

definition justified ::
  "WebhookLib \<Rightarrow> 'w Platform \<Rightarrow> http_Request \<Rightarrow> 'w \<Rightarrow> call \<Rightarrow> bool"
where
  "justified W K r w c \<longleftrightarrow> \<not> is_promote c \<and> \<not> is_write c \<or>
     (\<exists>key env body p w' spec prom.
        rq_Method r = ''POST'' \<and>
        path_match 3 (rq_Path r) = Some [ok_Namespace key, ok_Name key, env] \<and>
        rq_Body r = Inr body \<and>
        pf_GetPipeline K key w = (Inr p, w') \<and>
        authentic (wl_Sign W) K p (rq_Header r) body w' \<and>
        asks_for W p key env body spec prom \<and> carries_out spec prom c)"

lemma handled_early:
  "grew quiet s t \<Longrightarrow> \<not> succeeded (Returned r) \<Longrightarrow> handled_well h (justified W K req w) s (Returned r) t"
  unfolding handled_well_def
  by (auto intro!: promotes_within_none elim!: grew_mono simp: justified_def)

lemma path_match_length: "path_match n path = Some ms \<Longrightarrow> length ms = n \<and> (\<forall>m \<in> set ms. m \<noteq> [])"
proof -
  have "find_segments n ws = Some ms \<Longrightarrow> length ms = n \<and> (\<forall>m \<in> set ms. m \<noteq> [])" for ws
    by (induction ws) (auto simp: list_all_iff split: if_splits)
  then show "path_match n path = Some ms \<Longrightarrow> length ms = n \<and> (\<forall>m \<in> set ms. m \<noteq> [])"
    by (simp add: path_match_def)
qed

lemma three_elements: "length ms = 3 \<Longrightarrow> \<exists>a b c. ms = [a, b, c]"
  by (auto simp: numeral_3_eq_3 length_Suc_conv)

lemma promotion_event_handled:
  assumes "list_all promotion_strategy (ph_stratReg h)"
    and just: "\<And>spec prom c. asks_for W p key env body spec prom \<Longrightarrow> carries_out spec prom c \<Longrightarrow>
      justified W K req w c"
  shows "wp (promotion_event h W K p key env body)
    (handled_well h (justified W K req w) s) s"
proof (cases "wl_UnmarshalEvent W body")
  case (Inl err)
  then show ?thesis by (simp add: promotion_event_def wp_rules handled_early)
next
  case (Inr ev)
  define version where "version = (case ev_Metadata ev ''revision'' of None \<Rightarrow> '''' | Some v \<Rightarrow> v)"
  show ?thesis
  proof (cases "version = '''' \<or> (\<exists>err. lookupNextEnvironment p env (ev_InvolvedObject ev) = Inl err)")
    case True
    then show ?thesis
      by (auto simp: promotion_event_def Inr wp_rules handled_early Let_def version_def [symmetric])
  next
    case False
    then obtain dst where dst: "lookupNextEnvironment p env (ev_InvolvedObject ev) = Inr dst"
      by (cases "lookupNextEnvironment p env (ev_InvolvedObject ev)") auto
    let ?prom = "\<lparr>sp_PipelineNamespace = ok_Namespace key, sp_PipelineName = ok_Name key,
        sp_Environment = dst, sp_Version = version\<rparr>"
    have run: "promotion_event h W K p key env body = promotion_to h K p dst ?prom"
      using False Inr dst by (simp add: promotion_event_def version_def [symmetric])
    show ?thesis
    proof (cases "GetPromotion (p_Spec p) (env_Name dst)")
      case None
      then show ?thesis
        by (simp add: run promotion_to_def wp_rules promotion_failed_def handled_early)
    next
      case (Some spec)
      have "asks_for W p key env body spec ?prom"
        using Inr dst False Some unfolding asks_for_def lookupNextEnvironment_iff
        by (auto simp: version_def split: option.splits)
      then have "justified W K req w c" if "carries_out spec ?prom c" for c
        using just that by blast
      then show ?thesis
        unfolding run
        by (intro wp_mono [OF promotion_to_handled [OF assms(1) _ Some]])
           (auto simp: handled_well_def elim: promotes_within_mono)
    qed
  qed
qed

lemma handled_well_after:
  assumes "grew quiet s s'" and "handled_well h (justified W K req w) s' x t"
  shows "handled_well h (justified W K req w) s x t"
proof -
  have "calls_of (\<lambda>c. is_promote c \<or> is_write c) s' = calls_of (\<lambda>c. is_promote c \<or> is_write c) s"
    using assms(1) by (auto simp: grew_def calls_of_def filter_empty_conv list_all_iff)
  moreover have "grew (\<lambda>c. justified W K req w c \<and> \<not> is_promote c) s s'"
    by (rule grew_mono [OF assms(1)]) (simp add: justified_def)
  ultimately show ?thesis
    using assms(2) by (auto simp: handled_well_def intro: promotes_within_after)
qed

lemma PromotionHandler_handled:
  assumes "list_all promotion_strategy (ph_stratReg h)"
  shows "wp (PromotionHandler_ServeHTTP h W K r)
    (handled_well h (justified W K r (world s)) s) s"
proof (cases "rq_Method r = ''POST'' \<and> (\<exists>ms body. path_match 3 (rq_Path r) = Some ms \<and> rq_Body r = Inr body)")
  case False
  then show ?thesis
    by (auto simp: PromotionHandler_ServeHTTP_def wp_rules handled_early http_NotFound_def Let_def
        split: option.split sum.split)
next
  case True
  then obtain ms body where "rq_Method r = ''POST''" "path_match 3 (rq_Path r) = Some ms" "rq_Body r = Inr body"
    by blast
  moreover from this obtain ns name env where "ms = [ns, name, env]"
    using three_elements path_match_length by blast
  ultimately have req: "rq_Method r = ''POST''" "path_match 3 (rq_Path r) = Some [ns, name, env]"
    "rq_Body r = Inr body" by simp_all
  let ?key = "\<lparr>ok_Namespace = ns, ok_Name = name\<rparr>"
  obtain g w1 where get: "pf_GetPipeline K ?key (world s) = (g, w1)" by fastforce
  let ?s1 = "s\<lparr>world := w1, trace := trace s @ [CallGetPipeline ?key]\<rparr>"
  have s1: "grew quiet s ?s1" by (rule grew_step) simp
  have start: "wp (PromotionHandler_ServeHTTP h W K r) Q s \<longleftrightarrow>
      wp (case g of
            Inl err \<Rightarrow> result (respond (if IsNotFound err then StatusNotFound else StatusInternalServerError) '''')
          | Inr p \<Rightarrow> do { v \<leftarrow> verifyXSignature (wl_Sign W) K p (rq_Header r) body;
                        case v of Some err \<Rightarrow> result (respond StatusUnauthorized '''')
                        | None \<Rightarrow> promotion_event h W K p ?key env body }) Q ?s1" for Q
    using req get by (cases g) (simp_all add: PromotionHandler_ServeHTTP_def wp_rules op_defs)
  show ?thesis
  proof (cases g)
    case (Inl err)
    then show ?thesis by (simp add: start wp_rules handled_early [OF s1])
  next
    case (Inr p)
    obtain v s2 where ver: "run_state (verifyXSignature (wl_Sign W) K p (rq_Header r) body) ?s1 = (v, s2)"
      by fastforce
    have s2: "grew quiet s s2"
      by (rule grew_trans [OF s1 emits_grew [OF verifyXSignature_quiet ver]])
    show ?thesis
    proof (cases v)
      case (Some err)
      then show ?thesis by (simp add: start Inr wp_rules wp_def [of "verifyXSignature _ _ _ _ _"] ver handled_early [OF s2])
    next
      case None
      then have auth: "authentic (wl_Sign W) K p (rq_Header r) body w1"
        using verifyXSignature_iff [of "wl_Sign W" K p "rq_Header r" body ?s1] ver by simp
      have "justified W K r (world s) c"
        if "asks_for W p ?key env body spec prom" "carries_out spec prom c" for spec prom c
        unfolding justified_def using req get Inr auth that by (intro disjI2 exI conjI) auto
      then have "wp (promotion_event h W K p ?key env body)
          (handled_well h (justified W K r (world s)) s) s2"
        by (intro wp_mono [OF promotion_event_handled [OF assms]]) (auto intro: handled_well_after [OF s2])
      then show ?thesis
        by (simp add: start Inr wp_rules wp_def [of "verifyXSignature _ _ _ _ _"] ver None)
    qed
  qed
qed

section \<open>What the approval handler does\<close>

text \<open>The promotions and writes so far.\<close>

abbreviation effects :: "'w sys \<Rightarrow> call list" where
  "effects \<equiv> calls_of (\<lambda>c. is_promote c \<or> is_write c)"

lemma effects_quiet: "grew quiet s t \<Longrightarrow> effects t = effects s"
  by (auto simp: grew_def calls_of_def filter_empty_conv list_all_iff)

lemma effects_Promote:
  assumes "promotion_strategy st"
  shows "effects (exec (strat_Promote st spec prom) s) = effects s @ [CallPromote spec prom]"
proof -
  obtain d where "trace (exec (strat_Promote st spec prom) s) = trace s @ CallPromote spec prom # d"
    "list_all quiet d"
    using promotion_strategy.promote_trace [OF assms] by blast
  then show ?thesis by (auto simp: calls_of_def filter_empty_conv list_all_iff)
qed

lemma effects_reset:
  "wp (resetWaitingApproval K p env)
     (\<lambda>x t. (effects t = effects s \<and> (\<exists>e. x = Inl e)) \<or>
        (\<exists>q. effects t = effects s @
           [CallStatusUpdate (q\<lparr>p_Status := ResetWaitingApproval (p_Status q) env\<rparr>)])) s"
  by (auto simp: resetWaitingApproval_def wp_rules op_defs calls_of_def split: sum.split)

lemma lookupEnvironment_found:
  "lookupEnvironment p env = Inr e \<Longrightarrow> e \<in> set (spec_Environments (p_Spec p)) \<and> env_Name e = env"
proof -
  have "lookupEnvironment_loop env envs = Some e \<Longrightarrow> e \<in> set envs \<and> env_Name e = env" for envs
    by (induction envs) (auto split: if_splits)
  then show "lookupEnvironment p env = Inr e \<Longrightarrow> e \<in> set (spec_Environments (p_Spec p)) \<and> env_Name e = env"
    by (auto simp: lookupEnvironment_def split: option.splits)
qed

text \<open>A promotion waits for approval: the revision asked for is the one the status holds for the
  environment, and the environment has a promotion.\<close>

definition awaits ::
  "Pipeline \<Rightarrow> ObjectKey \<Rightarrow> string \<Rightarrow> string \<Rightarrow> Promotion \<Rightarrow> StrategyPromotion \<Rightarrow> bool"
where
  "awaits p key env revision spec prom \<longleftrightarrow>
     wa_Revision (GetWaitingApproval (p_Status p) env) = revision \<and>
     (\<exists>e. lookupEnvironment p env = Inr e \<and> GetPromotion (p_Spec p) (env_Name e) = Some spec \<and>
        prom = \<lparr>sp_PipelineNamespace = ok_Namespace key, sp_PipelineName = ok_Name key,
                sp_Environment = e, sp_Version = revision\<rparr>)"

definition approved_well ::
  "'w StrategyRegistry \<Rightarrow> (Promotion \<Rightarrow> StrategyPromotion \<Rightarrow> bool) \<Rightarrow> string \<Rightarrow> 'w sys \<Rightarrow> http_Response outcome \<Rightarrow> 'w sys \<Rightarrow> bool"
where
  "approved_well reg A env s x t \<longleftrightarrow> panics_only (may_panic reg) x \<and>
     (effects t = effects s \<and> \<not> succeeded x \<or>
      (\<exists>spec prom. A spec prom \<and>
         (effects t = effects s @ [CallPromote spec prom] \<and> \<not> succeeded x \<or>
          (\<exists>q. effects t = effects s @ [CallPromote spec prom,
             CallStatusUpdate (q\<lparr>p_Status := ResetWaitingApproval (p_Status q) env\<rparr>)]))))"

lemma approved_well_early:
  "effects t = effects s \<Longrightarrow> \<not> succeeded (Returned r) \<Longrightarrow> approved_well reg A env s (Returned r) t"
  by (simp add: approved_well_def)

lemma approve_well:
  assumes "list_all promotion_strategy (ah_stratReg h)"
  shows "wp (approve h K p key env revision) (approved_well (ah_stratReg h) (awaits p key env revision) env s) s"
proof (cases "wa_Revision (GetWaitingApproval (p_Status p) env) = revision \<and>
    (\<exists>e spec st. lookupEnvironment p env = Inr e \<and> GetPromotion (p_Spec p) (env_Name e) = Some spec \<and>
       Registry_Get (ah_stratReg h) spec = Inr st)")
  case False
  then show ?thesis
    by (auto simp: approve_def ApprovalHandler_promote_def wp_rules approved_well_def promotion_failed_def
        split: sum.split option.split)
next
  case True
  then obtain e spec st where e: "wa_Revision (GetWaitingApproval (p_Status p) env) = revision"
    "lookupEnvironment p env = Inr e" "GetPromotion (p_Spec p) (env_Name e) = Some spec"
    "Registry_Get (ah_stratReg h) spec = Inr st"
    by blast
  then have st: "promotion_strategy st" using assms Registry_Get_set by (fastforce simp: list_all_iff)
  let ?prom = "\<lparr>sp_PipelineNamespace = ok_Namespace key, sp_PipelineName = ok_Name key,
      sp_Environment = e, sp_Version = revision\<rparr>"
  have A: "awaits p key env revision spec ?prom" using e by (simp add: awaits_def)
  obtain x s1 where run: "run_state (strat_Promote st spec ?prom) s = (x, s1)" by fastforce
  have s1: "effects s1 = effects s @ [CallPromote spec ?prom]"
    using effects_Promote [OF st, of spec ?prom s] run by simp
  show ?thesis
  proof (cases "\<exists>r. x = Returned (Inr r)")
    case False
    have "panics_only (may_panic (ah_stratReg h)) x"
      using registered_panics_only [OF e(4), of spec ?prom s] run by simp
    with False e run s1 A show ?thesis
      by (auto simp: approve_def ApprovalHandler_promote_def wp_rules wp_def [of "strat_Promote _ _ _"]
          approved_well_def split: outcome.split sum.split)
  next
    case True
    then obtain r where r: "x = Returned (Inr r)" by blast
    have "wp (resetWaitingApproval K p env)
       (\<lambda>y. wp (case y of Inl err \<Rightarrow> result promotion_failed | Inr _ \<Rightarrow> result (respond_result (Some r)))
          (approved_well (ah_stratReg h) (awaits p key env revision) env s)) s1"
      by (rule wp_mono [OF effects_reset])
         (use A s1 in \<open>auto simp: wp_rules approved_well_def split: sum.splits\<close>)
    with e run r show ?thesis
      by (simp add: approve_def ApprovalHandler_promote_def wp_rules wp_def [of "strat_Promote _ _ _"])
  qed
qed

text \<open>The request as a whole.\<close>

definition approval_request ::
  "WebhookLib \<Rightarrow> 'w Platform \<Rightarrow> http_Request \<Rightarrow> 'w \<Rightarrow> string \<Rightarrow> Promotion \<Rightarrow> StrategyPromotion \<Rightarrow> bool"
where
  "approval_request W K r w env spec prom \<longleftrightarrow>
     (\<exists>key revision p w'.
        rq_Method r = ''POST'' \<and> revision \<noteq> '''' \<and>
        path_match 4 (rq_Path r) = Some [ok_Namespace key, ok_Name key, env, revision] \<and>
        pf_GetPipeline K key w = (Inr p, w') \<and>
        authentic (wl_Sign W) K p (rq_Header r) '''' w' \<and>
        awaits p key env revision spec prom)"

lemma approved_well_mono:
  assumes "approved_well reg A env s x t" and "\<And>spec prom. A spec prom \<Longrightarrow> B spec prom"
  shows "approved_well reg B env s x t"
proof -
  have "effects t = effects s \<and> \<not> succeeded x \<or>
      (\<exists>spec prom. B spec prom \<and>
         (effects t = effects s @ [CallPromote spec prom] \<and> \<not> succeeded x \<or>
          (\<exists>q. effects t = effects s @ [CallPromote spec prom,
             CallStatusUpdate (q\<lparr>p_Status := ResetWaitingApproval (p_Status q) env\<rparr>)])))"
    using assms(1) unfolding approved_well_def by (elim conjE disjE exE) (blast dest: assms(2))+
  with assms(1) show ?thesis by (simp add: approved_well_def)
qed

lemma approved_well_after:
  "effects s' = effects s \<Longrightarrow> approved_well reg A env s' x t \<Longrightarrow> approved_well reg A env s x t"
  by (simp add: approved_well_def)

lemma four_elements: "length ms = 4 \<Longrightarrow> \<exists>a b c d. ms = [a, b, c, d]"
  by (auto simp: eval_nat_numeral length_Suc_conv)

lemma ApprovalHandler_approved:
  assumes "list_all promotion_strategy (ah_stratReg h)"
  shows "wp (ApprovalHandler_ServeHTTP h W K r)
    (\<lambda>x t. \<exists>env. approved_well (ah_stratReg h) (approval_request W K r (world s) env) env s x t) s"
proof (cases "rq_Method r = ''POST'' \<and> path_match 4 (rq_Path r) \<noteq> None")
  case False
  then show ?thesis
    by (auto simp: ApprovalHandler_ServeHTTP_def wp_rules approved_well_def http_NotFound_def split: option.split)
next
  case True
  then obtain ms where ms: "rq_Method r = ''POST''" "path_match 4 (rq_Path r) = Some ms" by blast
  then obtain ns name env revision where "ms = [ns, name, env, revision]"
    using four_elements path_match_length by blast
  with ms path_match_length [OF ms(2)] have req: "rq_Method r = ''POST''" "revision \<noteq> ''''"
    "path_match 4 (rq_Path r) = Some [ns, name, env, revision]" by simp_all
  let ?key = "\<lparr>ok_Namespace = ns, ok_Name = name\<rparr>"
  let ?Q = "approved_well (ah_stratReg h) (approval_request W K r (world s) env) env s"
  obtain g w1 where get: "pf_GetPipeline K ?key (world s) = (g, w1)" by fastforce
  let ?s1 = "s\<lparr>world := w1, trace := trace s @ [CallGetPipeline ?key]\<rparr>"
  have s1: "effects ?s1 = effects s" by (simp add: calls_of_def)
  have start: "wp (ApprovalHandler_ServeHTTP h W K r) Q s \<longleftrightarrow>
      wp (case g of
            Inl err \<Rightarrow> result (respond (if IsNotFound err then StatusNotFound else StatusInternalServerError) '''')
          | Inr p \<Rightarrow> do { v \<leftarrow> verifyXSignature (wl_Sign W) K p (rq_Header r) '''';
                        case v of Some err \<Rightarrow> result (respond StatusUnauthorized '''')
                        | None \<Rightarrow> approve h K p ?key env revision }) Q ?s1" for Q
    using req get by (cases g) (simp_all add: ApprovalHandler_ServeHTTP_def wp_rules op_defs)
  have "wp (ApprovalHandler_ServeHTTP h W K r) ?Q s"
  proof (cases g)
    case (Inl err)
    then show ?thesis by (simp add: start wp_rules approved_well_def calls_of_def)
  next
    case (Inr p)
    obtain v s2 where ver: "run_state (verifyXSignature (wl_Sign W) K p (rq_Header r) '''') ?s1 = (v, s2)"
      by fastforce
    have s2: "effects s2 = effects s"
      using effects_quiet [OF emits_grew [OF verifyXSignature_quiet ver]] s1 by simp
    show ?thesis
    proof (cases v)
      case (Some err)
      with s2 show ?thesis
        by (simp add: start Inr wp_rules wp_def [of "verifyXSignature _ _ _ _ _"] ver approved_well_def)
    next
      case None
      then have "authentic (wl_Sign W) K p (rq_Header r) '''' w1"
        using verifyXSignature_iff [of "wl_Sign W" K p "rq_Header r" "''''" ?s1] ver by simp
      then have "approval_request W K r (world s) env spec prom"
        if "awaits p ?key env revision spec prom" for spec prom
        unfolding approval_request_def using req get Inr that
        by (intro exI [of _ ?key] exI [of _ revision] exI [of _ p] exI [of _ w1]) simp
      then have "wp (approve h K p ?key env revision) ?Q s2"
        by (intro wp_mono [OF approve_well [OF assms]])
           (auto intro: approved_well_after [OF s2] approved_well_mono)
      then show ?thesis
        by (simp add: start Inr wp_rules wp_def [of "verifyXSignature _ _ _ _ _"] ver None)
    qed
  qed
  then show ?thesis by (rule wp_mono) blast
qed

section \<open>Paths and responses\<close>

lemma path_match_canonical:
  assumes "\<forall>w \<in> set ws. w \<noteq> [] \<and> CHR ''/'' \<notin> set w" and "ws \<noteq> []"
  shows "path_match (length ws) (CHR ''/'' # JoinWith (CHR ''/'') ws) = Some ws"
proof -
  have "SplitOn (CHR ''/'') (CHR ''/'' # JoinWith (CHR ''/'') ws) = [] # ws"
    using assms by (simp add: SplitOn_JoinWith)
  moreover from assms obtain v vs where "ws = v # vs" by (cases ws) auto
  ultimately show ?thesis
    using assms(1) by (auto simp: path_match_def list_all_iff)
qed

lemma HTMLEscape_safe: "set (HTMLEscape s) \<inter> {CHR ''<'', CHR ''>'', CHR 34, CHR 39, CHR 0x00} = {}"
  by (auto simp: HTMLEscape_def escape_char_def)

section \<open>Properties\<close>

text \<open>The request of the examples: the application in \<open>dev\<close> has reached \<open>v2\<close>.\<close>

definition sample_event :: Event where
  "sample_event =
     \<lparr>ev_Metadata = [''revision'' \<mapsto> ''v2''],
      ev_InvolvedObject = \<lparr>or_APIVersion = ''helm/v2'', or_Kind = ''HelmRelease'', or_Name = ''app'',
                           or_Namespace = ''dev''\<rparr>\<rparr>"

definition sample_webhook :: WebhookLib where
  "sample_webhook = \<lparr>wl_Sign = sample_sign, wl_UnmarshalEvent = (\<lambda>body. Inr sample_event),
                     wl_FormatTime = (\<lambda>t. '''')\<rparr>"

definition sample_request :: http_Request where
  "sample_request = \<lparr>rq_Method = ''POST'', rq_Path = ''/default/app/dev'', rq_Header = (\<lambda>_. []),
                     rq_Body = Inr ''event'', rq_RemoteAddr = ''10.0.0.1:4711''\<rparr>"

definition sample_handler :: "store DefaultPromotionHandler" where
  "sample_handler = \<lparr>ph_stratReg = [Notification mem_platform],
                     ph_retry = \<lparr>ro_Delay = 2, ro_MaxDelay = 20, ro_Threshold = 3\<rparr>\<rparr>"

text \<open>C4. A promotion request makes no call that promotes or writes unless it is justified: a
  POST whose path names a namespace, a pipeline and an environment; the pipeline exists; if its
  default promotion names a secret, the first \<open>X-Signature\<close> is the HMAC of the very body
  under the secret's non-empty key; the event in the body has a revision and involves the
  pipeline's application in a namespace that is a target of the named environment; and the call
  promotes that revision to the environment after it, which has targets, or, if that promotion
  is manual, writes a status in which only that environment waits for that revision. There are
  at most \<open>max 1 Threshold\<close> promotions, and the handler panics only if a registered strategy
  does.\<close>

theorem promotion_request_justified:
  assumes "list_all promotion_strategy (ph_stratReg h)"
  shows "\<exists>d. trace (exec (PromotionHandler_ServeHTTP h W K r) s) = trace s @ d \<and>
    panics_only (may_panic (ph_stratReg h)) (value_of (PromotionHandler_ServeHTTP h W K r) s) \<and>
    list_all (justified W K r (world s)) d \<and>
    int (length (filter is_promote d)) \<le> max 1 (ro_Threshold (ph_retry h))"
  using PromotionHandler_handled [OF assms, of W K r s]
  by (auto simp: wp_exec handled_well_def promotes_within_def)

lemma sample_handler_strategies: "list_all promotion_strategy (ph_stratReg sample_handler)"
  by (simp add: sample_handler_def notification.promotion_strategy_axioms)

abbreviation sample_promotion_run :: "http_Response outcome \<times> store sys" where
  "sample_promotion_run \<equiv>
     run_state (PromotionHandler_ServeHTTP sample_handler sample_webhook mem_platform sample_request) sample_sys"

lemmas sample_webhook_defs = PromotionHandler_ServeHTTP_def sample_request_def sample_webhook_def sample_handler_def
  sample_event_def path_match_def verifyXSignature_def promotion_event_def promotion_to_def
  lookupNextEnvironment_def namespaceInTargets_def GetPromotion_def PromotionHandler_promote_def
  promote_fn_def promote_opts_def Exponential_def exponential_loop.simps WithRetries_def WithDelayBase_def
  WithMaxDelay_def WithErrorHandler_def WithFn_def Notification_def Notification_Handles_def
  Notification_Promote_def promote_once_def strat_Promote_def respond_result_def sample_promotion_def
  op_defs run_perform Let_def

theorem promotion_request_justified_witness:
  "fst sample_promotion_run = respond StatusNoContent '''' \<and>
   (\<exists>d. trace (snd sample_promotion_run) = d \<and> list_all (justified sample_webhook mem_platform sample_request sample_store) d \<and>
      int (length (filter is_promote d)) \<le> 3)"
proof
  show "fst sample_promotion_run = respond StatusNoContent ''''"
    by (simp add: sample_webhook_defs)
  show "\<exists>d. trace (snd sample_promotion_run) = d \<and> list_all (justified sample_webhook mem_platform sample_request sample_store) d \<and>
      int (length (filter is_promote d)) \<le> 3"
    using promotion_request_justified [OF sample_handler_strategies, of sample_webhook mem_platform sample_request sample_sys]
    by (auto simp: sample_handler_def)
qed

end
