(* ===== verification/Webhook_Service.thy ===== *)
theory Webhook_Service
  imports Webhook_Guarantees
begin

text \<open>
  The other direction of the webhook guarantees: requests that deserve it are served. A justified
  promotion request leads to exactly one promotion when the strategy succeeds, a manual one to a
  note in the status, and an approval request to one promotion followed by one reset of that note.
  The path formats of both endpoints and the escaping of error messages are here, too.
\<close>

section \<open>A justified promotion is carried out\<close>

lemma ObjectKey_eta: "\<lparr>ok_Namespace = ok_Namespace key, ok_Name = ok_Name key\<rparr> = key"
  by simp

text \<open>The state after the pipeline is read and the signature checked.\<close>

abbreviation verified_state ::
  "WebhookLib \<Rightarrow> 'w Platform \<Rightarrow> Pipeline \<Rightarrow> http_Header \<Rightarrow> string \<Rightarrow> ObjectKey \<Rightarrow> 'w \<Rightarrow> 'w sys \<Rightarrow> 'w sys"
where
  "verified_state W K p hdr body key w s \<equiv>
     exec (verifyXSignature (wl_Sign W) K p hdr body) (s\<lparr>world := w, trace := trace s @ [CallGetPipeline key]\<rparr>)"

lemma effects_verified: "effects (verified_state W K p hdr body key w s) = effects s"
proof -
  let ?s1 = "s\<lparr>world := w, trace := trace s @ [CallGetPipeline key]\<rparr>"
  have "effects (verified_state W K p hdr body key w s) = effects ?s1"
    by (rule effects_quiet, rule emits_grew [OF verifyXSignature_quiet]) (rule prod.collapse [symmetric])
  then show ?thesis by (simp add: calls_of_def)
qed

lemma run_PromotionHandler_verified:
  assumes "rq_Method r = ''POST''" and "path_match 3 (rq_Path r) = Some [ok_Namespace key, ok_Name key, env]"
    and "rq_Body r = Inr body" and "pf_GetPipeline K key (world s) = (Inr p, w)"
    and "authentic (wl_Sign W) K p (rq_Header r) body w"
  shows "run_state (PromotionHandler_ServeHTTP h W K r) s =
    run_state (promotion_event h W K p key env body) (verified_state W K p (rq_Header r) body key w s)"
proof -
  let ?s1 = "s\<lparr>world := w, trace := trace s @ [CallGetPipeline key]\<rparr>"
  obtain v t where run: "run_state (verifyXSignature (wl_Sign W) K p (rq_Header r) body) ?s1 = (v, t)"
    by fastforce
  then have "v = None"
    using verifyXSignature_iff [of "wl_Sign W" K p "rq_Header r" body ?s1] assms(5) by simp
  with run assms(1-4) show ?thesis
    by (simp add: PromotionHandler_ServeHTTP_def op_defs run_perform Let_def ObjectKey_eta)
qed

lemma run_promotion_event_asked:
  assumes "asks_for W p key env body spec prom"
  shows "promotion_event h W K p key env body = promotion_to h K p (sp_Environment prom) prom"
    and "GetPromotion (p_Spec p) (env_Name (sp_Environment prom)) = Some spec"
proof -
  obtain ev src dst version where ev: "wl_UnmarshalEvent W body = Inr ev"
    "ev_Metadata ev ''revision'' = Some version" "version \<noteq> ''''"
    "next_env p env src dst" "involves p src (ev_InvolvedObject ev)" "env_Targets dst \<noteq> []"
    "GetPromotion (p_Spec p) (env_Name dst) = Some spec"
    "prom = \<lparr>sp_PipelineNamespace = ok_Namespace key, sp_PipelineName = ok_Name key,
             sp_Environment = dst, sp_Version = version\<rparr>"
    using assms unfolding asks_for_def by blast
  then have "lookupNextEnvironment p env (ev_InvolvedObject ev) = Inr dst"
    using lookupNextEnvironment_iff by blast
  with ev show "promotion_event h W K p key env body = promotion_to h K p (sp_Environment prom) prom"
    "GetPromotion (p_Spec p) (env_Name (sp_Environment prom)) = Some spec"
    by (simp_all add: promotion_event_def Let_def)
qed

lemma run_promote_first_success:
  assumes "Registry_Get (ph_stratReg h) spec = Inr st"
    and "run_state (strat_Promote st spec prom) s = (Returned (Inr res), t)"
  shows "run_state (PromotionHandler_promote h K (Some spec) prom) s = (Returned (Some res, None), t)"
  using assms
  by (simp add: PromotionHandler_promote_def promote_opts_def Exponential_def WithRetries_def WithDelayBase_def
      WithMaxDelay_def WithErrorHandler_def WithFn_def promote_fn_def exponential_loop.simps [of _ _ _ 0]
      run_promote_once Let_def)

text \<open>C5. A promotion that deserves it is made, once. If a POST names a pipeline that can be read,
  is authentic for it, and its event asks for an automatic promotion, then, provided the strategy
  chosen for that promotion succeeds, the handler calls it exactly once, with that promotion, writes
  nothing, and answers with the result: 201 and the location of the pull request, or 204.\<close>

theorem promotion_request_served:
  assumes "rq_Method r = ''POST''" and "path_match 3 (rq_Path r) = Some [ok_Namespace key, ok_Name key, env]"
    and "rq_Body r = Inr body" and "pf_GetPipeline K key (world s) = (Inr p, w)"
    and "authentic (wl_Sign W) K p (rq_Header r) body w"
    and "asks_for W p key env body spec prom" and "\<not> pr_Manual spec"
    and "Registry_Get (ph_stratReg h) spec = Inr st" and "promotion_strategy st"
    and "\<And>s'. value_of (strat_Promote st spec prom) s' = Returned (Inr res)"
  shows "value_of (PromotionHandler_ServeHTTP h W K r) s = respond_result (Some res) \<and>
    effects (exec (PromotionHandler_ServeHTTP h W K r) s) = effects s @ [CallPromote spec prom]"
proof -
  let ?s2 = "verified_state W K p (rq_Header r) body key w s"
  let ?t = "exec (strat_Promote st spec prom) ?s2"
  have "run_state (strat_Promote st spec prom) ?s2 = (Returned (Inr res), ?t)"
    using assms(10) by (metis prod.collapse)
  then have "run_state (promotion_event h W K p key env body) ?s2 = (respond_result (Some res), ?t)"
    unfolding run_promotion_event_asked(1) [OF assms(6)] promotion_to_def
    using run_promotion_event_asked(2) [OF assms(6)] assms(7)
    by (simp add: run_promote_first_success [OF assms(8)])
  moreover have "effects ?t = effects s @ [CallPromote spec prom]"
    by (simp only: effects_Promote [OF assms(9)] effects_verified)
  ultimately show ?thesis
    by (simp add: run_PromotionHandler_verified [OF assms(1-5)])
qed

text \<open>A manual promotion is held back. If the promotion asked for is manual, no strategy is
  called: provided the pipeline can be read again and its status written, the one write is of a
  status in which the next environment waits for exactly the revision of the event, and the answer
  is 204.\<close>

theorem manual_promotion_waits:
  assumes "rq_Method r = ''POST''" and "path_match 3 (rq_Path r) = Some [ok_Namespace key, ok_Name key, env]"
    and "rq_Body r = Inr body" and "pf_GetPipeline K key (world s) = (Inr p, w)"
    and "authentic (wl_Sign W) K p (rq_Header r) body w"
    and "asks_for W p key env body spec prom" and "pr_Manual spec"
    and "\<And>w. \<exists>q. fst (pf_GetPipeline K (Pipeline_key p) w) = Inr q"
    and "\<And>q w. fst (pf_StatusUpdate K q w) = Inr ()"
  shows "value_of (PromotionHandler_ServeHTTP h W K r) s = respond StatusNoContent '''' \<and>
    (\<exists>q. effects (exec (PromotionHandler_ServeHTTP h W K r) s) = effects s @ [CallStatusUpdate q] \<and>
       wa_Revision (GetWaitingApproval (p_Status q) (env_Name (sp_Environment prom))) = sp_Version prom)"
proof -
  let ?s2 = "verified_state W K p (rq_Header r) body key w s"
  obtain q where q: "fst (pf_GetPipeline K (Pipeline_key p) (world ?s2)) = Inr q" using assms(8) by blast
  let ?q = "q\<lparr>p_Status := SetWaitingApproval (p_Status q) (env_Name (sp_Environment prom)) (sp_Version prom)\<rparr>"
  have "promotion_event h W K p key env body = promotion_to h K p (sp_Environment prom) prom"
    by (rule run_promotion_event_asked(1) [OF assms(6)])
  then have "value_of (promotion_event h W K p key env body) ?s2 = respond StatusNoContent ''''"
    "effects (exec (promotion_event h W K p key env body) ?s2) = effects ?s2 @ [CallStatusUpdate ?q]"
    using run_promotion_event_asked(2) [OF assms(6)] assms(7,9) q
    by (simp_all add: promotion_to_def handler_setWaitingApproval_def op_defs run_perform calls_of_def)
  moreover have "wa_Revision (GetWaitingApproval (p_Status ?q) (env_Name (sp_Environment prom))) = sp_Version prom"
    by (simp add: SetWaitingApproval_def status_app.get_put)
  ultimately show ?thesis
    unfolding run_PromotionHandler_verified [OF assms(1-5)] effects_verified by blast
qed

section \<open>Approvals\<close>

lemma run_ApprovalHandler_verified:
  assumes "rq_Method r = ''POST''" and "path_match 4 (rq_Path r) = Some [ok_Namespace key, ok_Name key, env, revision]"
    and "pf_GetPipeline K key (world s) = (Inr p, w)"
    and "authentic (wl_Sign W) K p (rq_Header r) '''' w"
  shows "run_state (ApprovalHandler_ServeHTTP h W K r) s =
    run_state (approve h K p key env revision) (verified_state W K p (rq_Header r) '''' key w s)"
proof -
  let ?s1 = "s\<lparr>world := w, trace := trace s @ [CallGetPipeline key]\<rparr>"
  obtain v t where run: "run_state (verifyXSignature (wl_Sign W) K p (rq_Header r) '''') ?s1 = (v, t)"
    by fastforce
  then have "v = None"
    using verifyXSignature_iff [of "wl_Sign W" K p "rq_Header r" "''''" ?s1] assms(4) by simp
  with run assms(1-3) show ?thesis
    by (simp add: ApprovalHandler_ServeHTTP_def op_defs run_perform Let_def ObjectKey_eta)
qed

text \<open>C6. What an approval request may do: nothing, and then it reports failure; or, if it is an
  authentic POST for a revision that the pipeline's status says is waiting in the named environment,
  one promotion of exactly that revision to that environment, with that environment's promotion, and
  after it at most one write, of a status in which that environment waits for nothing any more.
  Success is reported only after both. The handler panics only if a registered strategy does.\<close>

theorem approval_request_effects:
  assumes "list_all promotion_strategy (ah_stratReg h)"
  shows "panics_only (may_panic (ah_stratReg h)) (value_of (ApprovalHandler_ServeHTTP h W K r) s) \<and>
    (effects (exec (ApprovalHandler_ServeHTTP h W K r) s) = effects s \<and>
       \<not> succeeded (value_of (ApprovalHandler_ServeHTTP h W K r) s) \<or>
     (\<exists>env spec prom. approval_request W K r (world s) env spec prom \<and>
        (effects (exec (ApprovalHandler_ServeHTTP h W K r) s) = effects s @ [CallPromote spec prom] \<and>
           \<not> succeeded (value_of (ApprovalHandler_ServeHTTP h W K r) s) \<or>
         (\<exists>q. effects (exec (ApprovalHandler_ServeHTTP h W K r) s) = effects s @ [CallPromote spec prom,
            CallStatusUpdate (q\<lparr>p_Status := ResetWaitingApproval (p_Status q) env\<rparr>)]))))"
proof -
  obtain env where "approved_well (ah_stratReg h) (approval_request W K r (world s) env) env s
      (value_of (ApprovalHandler_ServeHTTP h W K r) s) (exec (ApprovalHandler_ServeHTTP h W K r) s)"
    using ApprovalHandler_approved [OF assms, of W K r s] unfolding wp_exec by blast
  then show ?thesis unfolding approved_well_def by blast
qed

text \<open>An approval that is due is given: if the request is an authentic approval of what is
  waiting, the strategy succeeds, and the pipeline can be read again and written, then the handler
  promotes once, resets the note once, in this order, and answers with the result of the
  promotion.\<close>

theorem approval_request_served:
  assumes "approval_request W K r (world s) env spec prom"
    and "Registry_Get (ah_stratReg h) spec = Inr st" and "promotion_strategy st"
    and "\<And>s'. value_of (strat_Promote st spec prom) s' = Returned (Inr res)"
    and "\<And>key p w w'. pf_GetPipeline K key w = (Inr p, w') \<Longrightarrow> \<exists>q. \<forall>v. fst (pf_GetPipeline K (Pipeline_key p) v) = Inr q"
    and "\<And>q w. fst (pf_StatusUpdate K q w) = Inr ()"
  shows "value_of (ApprovalHandler_ServeHTTP h W K r) s = respond_result (Some res) \<and>
    (\<exists>q. effects (exec (ApprovalHandler_ServeHTTP h W K r) s) = effects s @ [CallPromote spec prom,
       CallStatusUpdate (q\<lparr>p_Status := ResetWaitingApproval (p_Status q) env\<rparr>)])"
proof -
  obtain key revision p w where req: "rq_Method r = ''POST''"
    "path_match 4 (rq_Path r) = Some [ok_Namespace key, ok_Name key, env, revision]"
    "pf_GetPipeline K key (world s) = (Inr p, w)" "authentic (wl_Sign W) K p (rq_Header r) '''' w"
    and "awaits p key env revision spec prom"
    using assms(1) unfolding approval_request_def by blast
  then obtain e where e: "wa_Revision (GetWaitingApproval (p_Status p) env) = revision"
    "lookupEnvironment p env = Inr e" "GetPromotion (p_Spec p) (env_Name e) = Some spec"
    "prom = \<lparr>sp_PipelineNamespace = ok_Namespace key, sp_PipelineName = ok_Name key,
             sp_Environment = e, sp_Version = revision\<rparr>"
    unfolding awaits_def by blast
  let ?s2 = "verified_state W K p (rq_Header r) '''' key w s"
  let ?t = "exec (strat_Promote st spec prom) ?s2"
  have promote: "run_state (strat_Promote st spec prom) ?s2 = (Returned (Inr res), ?t)"
    using assms(4) by (metis prod.collapse)
  obtain q where q: "fst (pf_GetPipeline K (Pipeline_key p) (world ?t)) = Inr q" using assms(5) [OF req(3)] by blast
  let ?u = "exec (resetWaitingApproval K p env) ?t"
  have reset: "run_state (resetWaitingApproval K p env) ?t = (Inr (), ?u)"
    "effects ?u = effects ?t @ [CallStatusUpdate (q\<lparr>p_Status := ResetWaitingApproval (p_Status q) env\<rparr>)]"
    using q assms(6) by (simp_all add: resetWaitingApproval_def op_defs run_perform calls_of_def)
  obtain t' where t': "?t = t'" "run_state (strat_Promote st spec prom) ?s2 = (Returned (Inr res), t')" using promote by blast
  obtain u' where u': "?u = u'" "run_state (resetWaitingApproval K p env) t' = (Inr (), u')"
    using reset(1) t'(1) by blast
  have "run_state (approve h K p key env revision) ?s2 = (respond_result (Some res), u')"
    using e t'(2) u'(2) assms(2) by (simp add: approve_def ApprovalHandler_promote_def)
  moreover have "effects ?t = effects s @ [CallPromote spec prom]"
    by (simp only: effects_Promote [OF assms(3)] effects_verified)
  ultimately show ?thesis
    using reset(2) u'(1) unfolding run_ApprovalHandler_verified [OF req] by auto
qed

section \<open>Sample requests\<close>

definition reliable_platform :: "Pipeline \<Rightarrow> store Platform" where
  "reliable_platform p = mem_platform\<lparr>pf_GetPipeline := (\<lambda>key w. (Inr p, w)), pf_StatusUpdate := (\<lambda>q w. (Inr (), w))\<rparr>"

lemma reliable_platform_simps [simp]:
  "pf_GetPipeline (reliable_platform p) key w = (Inr p, w)"
  "pf_StatusUpdate (reliable_platform p) q w = (Inr (), w)"
  "pf_AnnotatedEvent (reliable_platform p) = pf_AnnotatedEvent mem_platform"
  by (simp_all add: reliable_platform_def)

definition manual_pipeline :: Pipeline where
  "manual_pipeline = sample_pipeline\<lparr>p_Spec := (p_Spec sample_pipeline)\<lparr>spec_Promotion := Some
     (sample_promotion\<lparr>pr_Manual := True\<rparr>)\<rparr>\<rparr>"

definition waiting_pipeline :: Pipeline where
  "waiting_pipeline = sample_pipeline\<lparr>p_Status := SetWaitingApproval (p_Status sample_pipeline) ''prod'' ''v2''\<rparr>"

definition approval_webhook_request :: http_Request where
  "approval_webhook_request = sample_request\<lparr>rq_Path := ''/default/app/prod/v2''\<rparr>"

abbreviation sample_strategy_promotion :: StrategyPromotion where
  "sample_strategy_promotion \<equiv> \<lparr>sp_PipelineNamespace = ''default'', sp_PipelineName = ''app'',
     sp_Environment = sample_env ''prod'', sp_Version = ''v2''\<rparr>"

lemma sample_asks_for:
  assumes "p_Spec p = (p_Spec sample_pipeline)\<lparr>spec_Promotion := Some spec\<rparr>"
  shows "asks_for sample_webhook p sample_key ''dev'' body spec sample_strategy_promotion"
  using assms unfolding asks_for_def
  by (intro exI [of _ sample_event] exI [of _ "sample_env ''dev''"] exI [of _ "sample_env ''prod''"]
        exI [of _ "''v2''"])
     (simp add: sample_webhook_def sample_event_def next_env_def involves_def GetPromotion_def
        exI [of _ "[] :: Environment list"])

lemma sample_path: "path_match 3 (rq_Path sample_request) = Some [ok_Namespace sample_key, ok_Name sample_key, ''dev'']"
  by (simp add: sample_request_def path_match_def)

lemma notification_reliable: "value_of (strat_Promote (Notification (reliable_platform p)) spec prom) s = Returned (Inr \<lparr>res_Location = ''''\<rparr>)"
  by (simp add: strat_Promote_def Notification_def Notification_Promote_def op_defs run_perform)

abbreviation plain_handler :: "Pipeline \<Rightarrow> store DefaultPromotionHandler" where
  "plain_handler p \<equiv> sample_handler\<lparr>ph_stratReg := [Notification (reliable_platform p)]\<rparr>"



lemma no_secret_authentic:
  "st_SecretRef (pr_Strategy spec) = None \<Longrightarrow> spec_Promotion (p_Spec p) = Some spec \<Longrightarrow> authentic H K p hdr body w"
  by (simp add: authentic_def)

lemma sample_request_simps:
  "rq_Method sample_request = ''POST''" "rq_Body sample_request = Inr ''event''"
  by (simp_all add: sample_request_def)

theorem promotion_request_served_witness:
  "value_of (PromotionHandler_ServeHTTP (plain_handler sample_pipeline) sample_webhook (reliable_platform sample_pipeline)
     sample_request) sample_sys = respond StatusNoContent '''' \<and>
   effects (exec (PromotionHandler_ServeHTTP (plain_handler sample_pipeline) sample_webhook
     (reliable_platform sample_pipeline) sample_request) sample_sys) =
     effects sample_sys @ [CallPromote sample_promotion sample_strategy_promotion]"
proof -
  let ?K = "reliable_platform sample_pipeline"
  have asks: "asks_for sample_webhook sample_pipeline sample_key ''dev'' ''event'' sample_promotion sample_strategy_promotion"
    by (rule sample_asks_for) (simp add: sample_pipeline_def)
  have auth: "authentic (wl_Sign sample_webhook) ?K sample_pipeline (rq_Header sample_request) ''event'' (world sample_sys)"
    by (rule no_secret_authentic) (simp_all add: sample_promotion_def)
  have reg: "Registry_Get (ph_stratReg (plain_handler sample_pipeline)) sample_promotion = Inr (Notification ?K)"
    and auto: "\<not> pr_Manual sample_promotion"
    by (simp_all add: Notification_def Notification_Handles_def sample_promotion_def)
  show ?thesis
    using promotion_request_served [OF sample_request_simps(1) sample_path sample_request_simps(2)
        reliable_platform_simps(1) auth asks auto reg notification.promotion_strategy_axioms notification_reliable]
    by (simp add: respond_result_def)
qed

theorem manual_promotion_waits_witness:
  "value_of (PromotionHandler_ServeHTTP sample_handler sample_webhook (reliable_platform manual_pipeline) sample_request)
     sample_sys = respond StatusNoContent '''' \<and>
   (\<exists>q. effects (exec (PromotionHandler_ServeHTTP sample_handler sample_webhook (reliable_platform manual_pipeline)
       sample_request) sample_sys) = effects sample_sys @ [CallStatusUpdate q] \<and>
      wa_Revision (GetWaitingApproval (p_Status q) ''prod'') = ''v2'')"
proof -
  have "asks_for sample_webhook manual_pipeline sample_key ''dev'' ''event'' (sample_promotion\<lparr>pr_Manual := True\<rparr>)
      sample_strategy_promotion"
    by (rule sample_asks_for) (simp add: manual_pipeline_def)
  moreover have "authentic (wl_Sign sample_webhook) (reliable_platform manual_pipeline) manual_pipeline
      (rq_Header sample_request) ''event'' (world sample_sys)"
    by (rule no_secret_authentic) (simp_all add: manual_pipeline_def sample_promotion_def)
  ultimately show ?thesis
    using manual_promotion_waits [OF sample_request_simps(1) sample_path sample_request_simps(2)
        reliable_platform_simps(1), of sample_webhook manual_pipeline sample_sys "sample_promotion\<lparr>pr_Manual := True\<rparr>"
        sample_strategy_promotion sample_handler]
    by simp
qed

lemma sample_approval_request:
  "approval_request sample_webhook (reliable_platform waiting_pipeline) approval_webhook_request w ''prod''
     sample_promotion sample_strategy_promotion"
  unfolding approval_request_def
proof (intro exI conjI)
  show "path_match 4 (rq_Path approval_webhook_request) =
      Some [ok_Namespace sample_key, ok_Name sample_key, ''prod'', ''v2'']"
    by (simp add: approval_webhook_request_def path_match_def)
  show "authentic (wl_Sign sample_webhook) (reliable_platform waiting_pipeline) waiting_pipeline
      (rq_Header approval_webhook_request) '''' w"
    by (rule no_secret_authentic) (simp_all add: waiting_pipeline_def sample_promotion_def)
  show "awaits waiting_pipeline sample_key ''prod'' ''v2'' sample_promotion sample_strategy_promotion"
    by (simp add: awaits_def waiting_pipeline_def SetWaitingApproval_def status_app.get_put lookupEnvironment_def
        GetPromotion_def)
qed (simp_all add: approval_webhook_request_def sample_request_def)

abbreviation approval_handler :: "store DefaultApprovalHandler" where
  "approval_handler \<equiv> \<lparr>ah_stratReg = [Notification (reliable_platform waiting_pipeline)]\<rparr>"

abbreviation sample_approval_run :: "http_Response outcome \<times> store sys" where
  "sample_approval_run \<equiv> run_state (ApprovalHandler_ServeHTTP approval_handler sample_webhook
     (reliable_platform waiting_pipeline) approval_webhook_request) sample_sys"

theorem approval_request_served_witness:
  "fst sample_approval_run = respond StatusNoContent '''' \<and>
   (\<exists>q. effects (snd sample_approval_run) = effects sample_sys @
      [CallPromote sample_promotion sample_strategy_promotion,
       CallStatusUpdate (q\<lparr>p_Status := ResetWaitingApproval (p_Status q) ''prod''\<rparr>)])"
proof -
  have reg: "Registry_Get (ah_stratReg approval_handler) sample_promotion =
      Inr (Notification (reliable_platform waiting_pipeline))"
    by (simp add: Notification_def Notification_Handles_def sample_promotion_def)
  show ?thesis
    using approval_request_served [OF sample_approval_request reg notification.promotion_strategy_axioms
        notification_reliable, of sample_sys]
    by (simp add: respond_result_def)
qed

text \<open>The rejected approval of the witness: the same request when nothing waits.\<close>

theorem approval_request_effects_witness:
  "\<exists>resp. value_of (ApprovalHandler_ServeHTTP approval_handler sample_webhook (reliable_platform sample_pipeline)
      approval_webhook_request) sample_sys = Returned resp \<and> rs_Status resp = StatusUnprocessableEntity \<and>
    effects (exec (ApprovalHandler_ServeHTTP approval_handler sample_webhook (reliable_platform sample_pipeline)
      approval_webhook_request) sample_sys) = []"
proof -
  let ?m = "ApprovalHandler_ServeHTTP approval_handler sample_webhook (reliable_platform sample_pipeline)
      approval_webhook_request"
  have strategies: "list_all promotion_strategy (ah_stratReg approval_handler)"
    by (simp add: notification.promotion_strategy_axioms)
  have none: "\<not> awaits sample_pipeline key env revision spec prom" if "revision \<noteq> ''''" for key env revision spec prom
    using that by (simp add: awaits_def GetWaitingApproval_def sample_pipeline_def envs_lookup_def)
  then have "\<not> approval_request sample_webhook (reliable_platform sample_pipeline) approval_webhook_request w env spec prom"
    for w env spec prom by (auto simp: approval_request_def)
  with approval_request_effects [OF strategies, of sample_webhook "reliable_platform sample_pipeline"
      approval_webhook_request sample_sys]
  have "effects (exec ?m sample_sys) = []" by (auto simp: calls_of_def)
  moreover have "value_of ?m sample_sys = respond StatusUnprocessableEntity ''failed approving promotion''"
    by (simp add: ApprovalHandler_ServeHTTP_def approval_webhook_request_def sample_request_def path_match_def Let_def
        op_defs run_perform verifyXSignature_def sample_promotion_def approve_def GetWaitingApproval_def
        sample_pipeline_def envs_lookup_def)
  ultimately show ?thesis by simp
qed

section \<open>Paths and messages\<close>

text \<open>Namespace, name, environment and revision survive the way through the path: joining any
  non-empty segments without slashes behind a leading slash and matching the result gives the
  segments back, for the three segments of the promotion endpoint and the four of the approval
  endpoint alike.\<close>

theorem webhook_path_roundtrip:
  assumes "\<forall>w \<in> set ws. w \<noteq> [] \<and> CHR ''/'' \<notin> set w" and "ws \<noteq> []"
  shows "path_match (length ws) (CHR ''/'' # JoinWith (CHR ''/'') ws) = Some ws"
  by (rule path_match_canonical [OF assms])

theorem webhook_path_roundtrip_witness:
  "path_match 3 ''/default/app/dev'' = Some [''default'', ''app'', ''dev'']"
  using webhook_path_roundtrip [of "[''default'', ''app'', ''dev'']"] by (simp add: numeral_3_eq_3)

text \<open>\<open>lookupNextEnvironment\<close> finds an environment exactly when it is the one right after
  the first with the given name, has targets, and the object of the event is the pipeline's
  application in a namespace that is a target of the named environment.\<close>

theorem lookupNextEnvironment_exact:
  "lookupNextEnvironment p env obj = Inr dst \<longleftrightarrow>
     (\<exists>src. next_env p env src dst \<and> involves p src obj \<and> env_Targets dst \<noteq> [])"
  by (rule lookupNextEnvironment_iff)

text \<open>No markup in the body of a response.\<close>

fun markup_free :: "http_Response outcome \<Rightarrow> bool" where
  "markup_free (Returned r) \<longleftrightarrow> CHR ''<'' \<notin> set (rs_Body r) \<and> CHR ''>'' \<notin> set (rs_Body r)"
| "markup_free (Panicked _) \<longleftrightarrow> True"

lemma markup_free_responses [simp]:
  "markup_free promotion_failed" "markup_free http_NotFound" "markup_free (respond_result res)"
  by (simp_all add: promotion_failed_def http_NotFound_def respond_result_def split: option.split)

lemma promotion_to_markup_free: "wp (promotion_to h K p e prom) (\<lambda>x _. markup_free x) s"
  unfolding promotion_to_def wp_rules
  by (auto intro!: wp_runI simp: wp_rules split: option.split sum.split outcome.split)

lemma promotion_event_markup_free: "wp (promotion_event h W K p key env body) (\<lambda>x _. markup_free x) s"
  unfolding promotion_event_def Let_def wp_rules
  using HTMLEscape_safe
  by (auto simp: promotion_to_markup_free split: sum.split option.split)

text \<open>Whatever names, events and errors a promotion request leads to, the body of the answer
  contains no angle bracket: error messages that quote the request are escaped.\<close>

theorem promotion_response_markup_free:
  "markup_free (value_of (PromotionHandler_ServeHTTP h W K r) s)"
proof -
  have "wp (PromotionHandler_ServeHTTP h W K r) (\<lambda>x _. markup_free x) s"
    unfolding PromotionHandler_ServeHTTP_def Let_def wp_rules
    by (auto intro!: wp_runI simp: wp_rules wp_exec
        promotion_event_markup_free [unfolded wp_exec] split: option.split sum.split)
  then show ?thesis by (simp add: wp_exec)
qed

end
