(* ===== verification/Condition_Util.thy ===== *)
theory Condition_Util
  imports Memory_Platform
begin

text \<open>
  \<open>pkg/conditions/util.go\<close>: readiness of an object from its conditions, once for typed
  conditions (\<open>IsReady\<close>, used for GitopsCluster objects) and once for the unstructured
  form (\<open>IsReadyUnstructured\<close>, used for application objects). The two agree on the
  encoding of a list of conditions, whatever other values stand between them.
\<close>

definition ReadyCondition :: string where
  "ReadyCondition = ''Ready''"

definition PromotionPendingCondition :: string where
  "PromotionPendingCondition = ''PromotionPending''"

fun IsReady :: "Condition list \<Rightarrow> bool" where
  "IsReady [] = False"
| "IsReady (c # cs) =
     (if cond_Type c = ''Ready'' then cond_Status c = ConditionTrue else IsReady cs)"

fun IsReadyUnstructured :: "Lib \<Rightarrow> json list \<Rightarrow> bool" where
  "IsReadyUnstructured L [] = False"
| "IsReadyUnstructured L (obj # cs) =
     (case obj of
        JMap cond \<Rightarrow>
          (case lib_NestedString L cond [''type''] of
             (s, ok, err) \<Rightarrow>
               if ok \<and> err = None then
                 if s = ''Ready'' then
                   (case lib_NestedString L cond [''status''] of
                      (s', ok', err') \<Rightarrow>
                        if ok' \<and> err' = None then s' = ConditionTrue else False)
                 else IsReadyUnstructured L cs
               else IsReadyUnstructured L cs)
      | _ \<Rightarrow> IsReadyUnstructured L cs)"

text \<open>The JSON form of a condition.\<close>

definition condition_json :: "Condition \<Rightarrow> json" where
  "condition_json c =
     JMap [(''type'', JString (cond_Type c)), (''status'', JString (cond_Status c)),
           (''reason'', JString (cond_Reason c)), (''message'', JString (cond_Message c))]"

text \<open>Readiness read off the first \<open>Ready\<close> condition.\<close>

lemma IsReady_find:
  "IsReady cs \<longleftrightarrow>
     (\<exists>c. FindStatusCondition cs ReadyCondition = Some c \<and> cond_Status c = ConditionTrue)"
  by (induction cs) (auto simp: FindStatusCondition_def ReadyCondition_def)

lemma nested_condition_json:
  assumes "nested_laws L"
  shows "lib_NestedString L [(''type'', JString t), (''status'', JString s), x, y] [''type''] =
           (t, True, None)"
    and "lib_NestedString L [(''type'', JString t), (''status'', JString s), x, y] [''status''] =
           (s, True, None)"
  using assms [unfolded nested_laws_def, rule_format,
      of "[(''type'', JString t), (''status'', JString s), x, y]"]
  by (fastforce dest: spec [of _ "''type''"] spec [of _ "''status''"])+

fun is_map :: "json \<Rightarrow> bool" where
  "is_map (JMap _) = True"
| "is_map _ = False"

lemma IsReadyUnstructured_junk:
  "\<not> is_map v \<Longrightarrow> IsReadyUnstructured L (v # cs) = IsReadyUnstructured L cs"
  by (cases v) auto

lemma IsReadyUnstructured_filter:
  "IsReadyUnstructured L vs = IsReadyUnstructured L (filter is_map vs)"
  by (induction vs) (auto simp: IsReadyUnstructured_junk split: json.split)

lemma IsReadyUnstructured_encoded:
  assumes "nested_laws L"
  shows "IsReadyUnstructured L (map condition_json cs) = IsReady cs"
  by (induction cs)
     (auto simp: condition_json_def nested_condition_json [OF assms])

end
