(* ===== verification/Indexing.thy ===== *)
theory Indexing
  imports Memory_Platform
begin

text \<open>
  The index functions (\<open>controllers/leveltriggered/indexing.go\<close>, the identical
  \<open>controllers/pipeline_indexing.go\<close>, and the key functions of \<open>caching.go\<close>): which
  strings a Pipeline is filed under, so that an event about a cluster or an application finds
  the pipelines that depend on it. The lemmas say that a pipeline is filed under a cluster, an
  application or a cache exactly when one of its targets refers to it.
\<close>

text \<open>The indexers receive a \<open>client.Object\<close> and panic unless it is a Pipeline.\<close>

datatype client_object = PipelineObject Pipeline | OtherObject string

definition cluster_namespace :: "Pipeline \<Rightarrow> CrossNamespaceClusterReference \<Rightarrow> string" where
  "cluster_namespace p r = (if ccr_Namespace r \<noteq> '''' then ccr_Namespace r else p_Namespace p)"

text \<open>The nested loops over environments and targets.\<close>

definition all_targets :: "Pipeline \<Rightarrow> Target list" where
  "all_targets p = concat (map env_Targets (spec_Environments (p_Spec p)))"

fun indexClusterKind_targets :: "string \<Rightarrow> Pipeline \<Rightarrow> Target list \<Rightarrow> string list" where
  "indexClusterKind_targets kind p [] = []"
| "indexClusterKind_targets kind p (target # ts) =
     (case tgt_ClusterRef target of
        Some r \<Rightarrow>
          if ccr_Kind r = kind
          then (cluster_namespace p r @ ''/'' @ ccr_Name r) # indexClusterKind_targets kind p ts
          else indexClusterKind_targets kind p ts
      | None \<Rightarrow> indexClusterKind_targets kind p ts)"

definition indexClusterKind :: "string \<Rightarrow> client_object \<Rightarrow> string list outcome" where
  "indexClusterKind kind obj =
     (case obj of
        OtherObject ty \<Rightarrow> Panicked (''Expected a Pipeline, got '' @ ty)
      | PipelineObject p \<Rightarrow> Returned (indexClusterKind_targets kind p (all_targets p)))"

text \<open>\<open>requestsForCluster\<close>: the pipelines filed under the cluster's key, as reconcile
  requests; nothing when the lookup fails. An empty list and nil are the same to the caller.\<close>

definition requestsForCluster ::
  "'w Platform \<Rightarrow> string \<Rightarrow> ObjectKey \<Rightarrow> ('w sys, ObjectKey list) state"
where
  "requestsForCluster K indexKey obj =
     do { r \<leftarrow> client_ListPipelines K indexKey (ok_Namespace obj @ ''/'' @ ok_Name obj);
          case r of
            Inl err \<Rightarrow> result []
          | Inr items \<Rightarrow> result (map Pipeline_key items) }"

section \<open>Index keys of targets\<close>

definition applicationKey :: string where
  "applicationKey = ''.spec.environments[].targets[].appRef''"

definition cacheIndex :: string where
  "cacheIndex = ''cache''"

type_synonym targetKeyFunc = "ObjectKey \<Rightarrow> GroupVersionKind \<Rightarrow> ObjectKey \<Rightarrow> string"

abbreviation zero_ObjectKey :: ObjectKey where
  "zero_ObjectKey \<equiv> \<lparr>ok_Namespace = '''', ok_Name = ''''\<rparr>"

definition target_cluster_key :: "Pipeline \<Rightarrow> Target \<Rightarrow> ObjectKey" where
  "target_cluster_key p target =
     (case tgt_ClusterRef target of
        None \<Rightarrow> zero_ObjectKey
      | Some r \<Rightarrow> \<lparr>ok_Namespace = (if ccr_Namespace r = '''' then p_Namespace p else ccr_Namespace r),
                   ok_Name = ccr_Name r\<rparr>)"

definition target_object_key :: "Pipeline \<Rightarrow> Target \<Rightarrow> ObjectKey" where
  "target_object_key p target =
     \<lparr>ok_Namespace = (if tgt_Namespace target = '''' then p_Namespace p else tgt_Namespace target),
      ok_Name = lar_Name (spec_AppRef (p_Spec p))\<rparr>"

definition WithKind :: "string \<times> string \<Rightarrow> string \<Rightarrow> GroupVersionKind" where
  "WithKind gv kind = \<lparr>gvk_Group = fst gv, gvk_Version = snd gv, gvk_Kind = kind\<rparr>"

definition indexTargets :: "Lib \<Rightarrow> targetKeyFunc \<Rightarrow> client_object \<Rightarrow> string list outcome" where
  "indexTargets L fn obj =
     (case obj of
        OtherObject ty \<Rightarrow> Panicked (''Expected a Pipeline, got '' @ ty)
      | PipelineObject p \<Rightarrow>
          (case lib_ParseGroupVersion L (lar_APIVersion (spec_AppRef (p_Spec p))) of
             Inl err \<Rightarrow> Returned []
           | Inr gv \<Rightarrow>
               Returned (map (\<lambda>target. fn (target_cluster_key p target)
                                          (WithKind gv (lar_Kind (spec_AppRef (p_Spec p))))
                                          (target_object_key p target))
                             (all_targets p))))"

definition targetIndexKey :: "Lib \<Rightarrow> targetKeyFunc" where
  "targetIndexKey L clusterKey gvk targetKey =
     lib_ObjectKeyString L clusterKey @ '':'' @ lib_GVKString L gvk @ '':''
       @ lib_ObjectKeyString L targetKey"

definition clusterAndGVK_String :: "Lib \<Rightarrow> clusterAndGVK \<Rightarrow> string" where
  "clusterAndGVK_String L key =
     lib_ObjectKeyString L (cg_ObjectKey key) @ '':'' @ lib_GVKString L (cg_GVK key)"

definition clusterCacheKey :: "Lib \<Rightarrow> targetKeyFunc" where
  "clusterCacheKey L clusterKey gvk targetKey =
     clusterAndGVK_String L \<lparr>cg_ObjectKey = clusterKey, cg_GVK = gvk\<rparr>"

definition indexApplication :: "Lib \<Rightarrow> client_object \<Rightarrow> string list outcome" where
  "indexApplication L = indexTargets L (targetIndexKey L)"

definition indexTargetCache :: "Lib \<Rightarrow> client_object \<Rightarrow> string list outcome" where
  "indexTargetCache L = indexTargets L (clusterCacheKey L)"

section \<open>What the indexes say\<close>

text \<open>The type and caches a pipeline's targets need.\<close>

definition pipeline_gvk :: "Lib \<Rightarrow> Pipeline \<Rightarrow> GroupVersionKind option" where
  "pipeline_gvk L p =
     (case lib_ParseGroupVersion L (lar_APIVersion (spec_AppRef (p_Spec p))) of
        Inl err \<Rightarrow> None
      | Inr gv \<Rightarrow> Some (WithKind gv (lar_Kind (spec_AppRef (p_Spec p)))))"

definition needs_cache :: "Lib \<Rightarrow> Pipeline \<Rightarrow> clusterAndGVK \<Rightarrow> bool" where
  "needs_cache L p key \<longleftrightarrow>
     pipeline_gvk L p = Some (cg_GVK key) \<and>
     (\<exists>t \<in> set (all_targets p). target_cluster_key p t = cg_ObjectKey key)"

definition uses_application :: "Lib \<Rightarrow> Pipeline \<Rightarrow> ObjectKey \<Rightarrow> GroupVersionKind \<Rightarrow> ObjectKey \<Rightarrow> bool"
where
  "uses_application L p clusterKey gvk objKey \<longleftrightarrow>
     pipeline_gvk L p = Some gvk \<and>
     (\<exists>t \<in> set (all_targets p).
        target_cluster_key p t = clusterKey \<and> target_object_key p t = objKey)"

text \<open>A field index as documented: a listing by field returns the stored objects that the
  indexer files under the value.\<close>

definition lists_by_index ::
  "'w Platform \<Rightarrow> string \<Rightarrow> (client_object \<Rightarrow> string list outcome) \<Rightarrow> Pipeline set \<Rightarrow> 'w \<Rightarrow> bool"
where
  "lists_by_index K idx ix stored w \<longleftrightarrow>
     (\<forall>key. \<exists>ps. fst (pf_ListPipelines K idx key w) = Inr ps \<and>
        set ps = {p \<in> stored. \<exists>ks. ix (PipelineObject p) = Returned ks \<and> key \<in> set ks})"

lemma indexClusterKind_targets_set:
  "set (indexClusterKind_targets kind p ts) =
     {cluster_namespace p r @ ''/'' @ ccr_Name r | r.
        ccr_Kind r = kind \<and> (\<exists>t \<in> set ts. tgt_ClusterRef t = Some r)}"
proof (induction ts)
  case (Cons t ts)
  then show ?case by (cases "tgt_ClusterRef t") auto
qed simp

lemma indexTargets_total:
  "\<exists>ks. indexTargets L fn (PipelineObject p) = Returned ks"
  by (auto simp: indexTargets_def split: sum.split)

lemma indexTargets_set:
  assumes "indexTargets L fn (PipelineObject p) = Returned ks"
  shows "set ks = {fn (target_cluster_key p t) gvk (target_object_key p t) | t gvk.
           pipeline_gvk L p = Some gvk \<and> t \<in> set (all_targets p)}"
  using assms
  by (cases "lib_ParseGroupVersion L (lar_APIVersion (spec_AppRef (p_Spec p)))")
     (auto simp: indexTargets_def pipeline_gvk_def)

lemma indexTargetCache_iff:
  assumes ix: "indexTargetCache L (PipelineObject p) = Returned ks"
    and inj: "inj_on (clusterAndGVK_String L) V"
    and key: "key \<in> V"
    and valid: "\<And>k. needs_cache L p k \<Longrightarrow> k \<in> V"
  shows "clusterAndGVK_String L key \<in> set ks \<longleftrightarrow> needs_cache L p key"
proof
  assume "clusterAndGVK_String L key \<in> set ks"
  then obtain t gvk where t: "pipeline_gvk L p = Some gvk" "t \<in> set (all_targets p)"
    and eq: "clusterAndGVK_String L key =
      clusterAndGVK_String L \<lparr>cg_ObjectKey = target_cluster_key p t, cg_GVK = gvk\<rparr>"
    using ix by (auto simp: indexTargetCache_def indexTargets_set clusterCacheKey_def)
  have "needs_cache L p \<lparr>cg_ObjectKey = target_cluster_key p t, cg_GVK = gvk\<rparr>"
    using t by (auto simp: needs_cache_def)
  with eq inj key valid have "key = \<lparr>cg_ObjectKey = target_cluster_key p t, cg_GVK = gvk\<rparr>"
    by (metis inj_onD)
  with t show "needs_cache L p key" by (auto simp: needs_cache_def)
next
  assume "needs_cache L p key"
  then obtain t where t: "pipeline_gvk L p = Some (cg_GVK key)" "t \<in> set (all_targets p)"
    "target_cluster_key p t = cg_ObjectKey key"
    by (auto simp: needs_cache_def)
  have "clusterCacheKey L (target_cluster_key p t) (cg_GVK key) (target_object_key p t) \<in> set ks"
    using ix t(1,2) by (auto simp: indexTargetCache_def indexTargets_set)
  with t(3) show "clusterAndGVK_String L key \<in> set ks"
    by (simp add: clusterCacheKey_def clusterAndGVK_String_def)
qed

lemma indexApplication_complete:
  assumes "indexApplication L (PipelineObject p) = Returned ks"
    and "uses_application L p clusterKey gvk objKey"
  shows "targetIndexKey L clusterKey gvk objKey \<in> set ks"
  using assms by (auto simp: indexApplication_def indexTargets_set uses_application_def)

section \<open>Properties\<close>

lemma cluster_key_inj:
  assumes "a @ ''/'' @ b = c @ ''/'' @ d" and "CHR ''/'' \<notin> set a" and "CHR ''/'' \<notin> set c"
  shows "a = c \<and> b = d"
proof -
  have cut: "takeWhile (\<lambda>x. x \<noteq> CHR ''/'') (x @ ''/'' @ y) = x" if "CHR ''/'' \<notin> set x" for x y :: string
    using that by (subst takeWhile_append2) auto
  from assms cut [of a b] cut [of c d] have "a = c" by metis
  with assms(1) show ?thesis by simp
qed

text \<open>C37. A GitopsCluster event reaches exactly the pipelines that depend on the cluster: with a
  field index as documented, \<open>requestsForCluster\<close> returns a request for each stored
  pipeline that has a target on the cluster of that kind, namespace (the pipeline's own if the
  reference has none) and name, and for no other.\<close>

theorem requestsForCluster_exact:
  assumes "lists_by_index K idx (indexClusterKind kind) stored (world s)"
    and "CHR ''/'' \<notin> set (ok_Namespace obj)"
    and "\<And>p t r. p \<in> stored \<Longrightarrow> t \<in> set (all_targets p) \<Longrightarrow> tgt_ClusterRef t = Some r \<Longrightarrow>
      CHR ''/'' \<notin> set (ok_Namespace (target_cluster_key p t))"
  shows "set (value_of (requestsForCluster K idx obj) s) =
    Pipeline_key ` {p \<in> stored. \<exists>t \<in> set (all_targets p). \<exists>r. tgt_ClusterRef t = Some r \<and>
      ccr_Kind r = kind \<and> target_cluster_key p t = obj}"
proof -
  let ?key = "ok_Namespace obj @ ''/'' @ ok_Name obj"
  obtain ps where ps: "fst (pf_ListPipelines K idx ?key (world s)) = Inr ps"
    "set ps = {p \<in> stored. \<exists>ks. indexClusterKind kind (PipelineObject p) = Returned ks \<and> ?key \<in> set ks}"
    using assms(1) unfolding lists_by_index_def by blast
  have filed: "?key \<in> set (indexClusterKind_targets kind p (all_targets p)) \<longleftrightarrow>
      (\<exists>t \<in> set (all_targets p). \<exists>r. tgt_ClusterRef t = Some r \<and> ccr_Kind r = kind \<and> target_cluster_key p t = obj)"
    if p: "p \<in> stored" for p
  proof
    assume "?key \<in> set (indexClusterKind_targets kind p (all_targets p))"
    then obtain r t where r: "ccr_Kind r = kind" "t \<in> set (all_targets p)" "tgt_ClusterRef t = Some r"
      "?key = cluster_namespace p r @ ''/'' @ ccr_Name r"
      by (auto simp: indexClusterKind_targets_set)
    have tk: "target_cluster_key p t = \<lparr>ok_Namespace = cluster_namespace p r, ok_Name = ccr_Name r\<rparr>"
      using r(3) by (simp add: target_cluster_key_def cluster_namespace_def)
    with assms(3) [OF p r(2,3)] have "CHR ''/'' \<notin> set (cluster_namespace p r)" by simp
    from cluster_key_inj [OF r(4) assms(2) this] tk have "target_cluster_key p t = obj" by simp
    with r show "\<exists>t \<in> set (all_targets p). \<exists>r. tgt_ClusterRef t = Some r \<and> ccr_Kind r = kind \<and>
        target_cluster_key p t = obj"
      by blast
  next
    assume "\<exists>t \<in> set (all_targets p). \<exists>r. tgt_ClusterRef t = Some r \<and> ccr_Kind r = kind \<and>
        target_cluster_key p t = obj"
    then obtain t r where "t \<in> set (all_targets p)" "tgt_ClusterRef t = Some r" "ccr_Kind r = kind"
      "target_cluster_key p t = obj"
      by blast
    then show "?key \<in> set (indexClusterKind_targets kind p (all_targets p))"
      unfolding indexClusterKind_targets_set
      by (auto simp: target_cluster_key_def cluster_namespace_def)
  qed
  have "set ps = {p \<in> stored. \<exists>t \<in> set (all_targets p). \<exists>r. tgt_ClusterRef t = Some r \<and>
      ccr_Kind r = kind \<and> target_cluster_key p t = obj}"
    unfolding ps(2) by (intro Collect_cong conj_cong refl, simp add: indexClusterKind_def filed [unfolded append_Cons append_Nil])
  with ps(1) show ?thesis
    by (simp add: requestsForCluster_def op_defs run_perform)
qed

text \<open>A store with one pipeline, whose only target is on cluster \<open>default/c\<close>.\<close>

definition clustered_pipeline :: Pipeline where
  "clustered_pipeline =
     sample_pipeline\<lparr>p_Spec := (p_Spec sample_pipeline)\<lparr>spec_Environments :=
       [\<lparr>env_Name = ''dev'', env_Targets = [\<lparr>tgt_Namespace = ''dev'', tgt_ClusterRef = Some
           \<lparr>ccr_APIVersion = '''', ccr_Kind = ''GitopsCluster'', ccr_Name = ''c'', ccr_Namespace = ''''\<rparr>\<rparr>],
         env_Promotion = None\<rparr>]\<rparr>\<rparr>"

fun filed_under :: "string \<Rightarrow> string list outcome \<Rightarrow> bool" where
  "filed_under key (Returned ks) = List.member ks key"
| "filed_under key (Panicked _) = False"

lemma filed_under_iff: "filed_under key x \<longleftrightarrow> (\<exists>ks. x = Returned ks \<and> key \<in> set ks)"
  by (cases x) simp_all

definition indexed_platform :: "(client_object \<Rightarrow> string list outcome) \<Rightarrow> Pipeline list \<Rightarrow> store Platform" where
  "indexed_platform ix ps = mem_platform\<lparr>pf_ListPipelines := (\<lambda>idx key w.
     (Inr (filter (\<lambda>p. filed_under key (ix (PipelineObject p))) ps), w))\<rparr>"

lemma indexed_platform_lists: "lists_by_index (indexed_platform ix ps) idx ix (set ps) w"
  by (auto simp: lists_by_index_def indexed_platform_def filed_under_iff)

theorem requestsForCluster_exact_witness:
  "set (value_of (requestsForCluster (indexed_platform (indexClusterKind ''GitopsCluster'') [clustered_pipeline])
      ''idx'' \<lparr>ok_Namespace = ''default'', ok_Name = ''c''\<rparr>) sample_sys) = {sample_key}"
proof -
  have targets: "all_targets clustered_pipeline = [\<lparr>tgt_Namespace = ''dev'', tgt_ClusterRef = Some
      \<lparr>ccr_APIVersion = '''', ccr_Kind = ''GitopsCluster'', ccr_Name = ''c'', ccr_Namespace = ''''\<rparr>\<rparr>]"
    by (simp add: all_targets_def clustered_pipeline_def)
  have ns: "p_Namespace clustered_pipeline = ''default''" "Pipeline_key clustered_pipeline = sample_key"
    by (simp_all add: clustered_pipeline_def Pipeline_key_def sample_pipeline_def)
  let ?obj = "\<lparr>ok_Namespace = ''default'', ok_Name = ''c''\<rparr>"
  have key: "target_cluster_key clustered_pipeline t = ?obj" if "t \<in> set (all_targets clustered_pipeline)" for t
    using that targets ns by (simp add: target_cluster_key_def)
  have "set (value_of (requestsForCluster (indexed_platform (indexClusterKind ''GitopsCluster'') [clustered_pipeline])
      ''idx'' ?obj) sample_sys) =
    Pipeline_key ` {p \<in> set [clustered_pipeline]. \<exists>t \<in> set (all_targets p). \<exists>r. tgt_ClusterRef t = Some r \<and>
      ccr_Kind r = ''GitopsCluster'' \<and> target_cluster_key p t = ?obj}"
    by (rule requestsForCluster_exact [OF indexed_platform_lists]) (auto simp: key)
  also have "{p \<in> set [clustered_pipeline]. \<exists>t \<in> set (all_targets p). \<exists>r. tgt_ClusterRef t = Some r \<and>
      ccr_Kind r = ''GitopsCluster'' \<and> target_cluster_key p t = ?obj} = {clustered_pipeline}"
    using key targets by auto
  finally show ?thesis using ns by simp
qed

end
