(* ===== verification/Target_Caches.thy ===== *)
theory Target_Caches
  imports Indexing Memory_Platform
begin

text \<open>
  \<open>controllers/leveltriggered/caching.go\<close>: the caches through which the level-triggered
  controller reads application objects, one per cluster and type. \<open>watchTargetAndGetReader\<close>
  creates a cache on first use and installs the event handler that queues the affected
  pipelines; the garbage collector goes over the registered keys and removes a cache no
  pipeline needs. A goroutine's critical sections under \<open>cachesMu\<close> are the accesses to
  \<open>cachesMap\<close>. The invariant \<open>caches_ok\<close> (every cache in the map was started and
  was handed to the collector) is kept by every operation and by every interleaving of whole
  operations with changes of the outside world (\<open>cache_reach\<close>).
\<close>

section \<open>Obtaining a cache\<close>

definition GitopsCluster_key :: "GitopsCluster \<Rightarrow> ObjectKey" where
  "GitopsCluster_key c = \<lparr>ok_Namespace = gc_Namespace c, ok_Name = gc_Name c\<rparr>"

definition cluster_key_of :: "GitopsCluster option \<Rightarrow> ObjectKey" where
  "cluster_key_of clusterObject =
     (case clusterObject of None \<Rightarrow> zero_ObjectKey | Some c \<Rightarrow> GitopsCluster_key c)"

text \<open>Lines 141--178: the REST configuration of the local cluster, or of the remote one from
  the kubeconfig in its secret.\<close>

definition cluster_kubeconfig ::
  "'w Platform \<Rightarrow> GitopsCluster \<Rightarrow> ('w sys, go_error + string) state"
where
  "cluster_kubeconfig K clusterObject =
     (case gc_CAPIClusterRef clusterObject of
        Some ref \<Rightarrow>
          capi_FromSecret K \<lparr>ok_Namespace = gc_Namespace clusterObject, ok_Name = ref\<rparr>
      | None \<Rightarrow>
          (case gc_SecretRef clusterObject of
             Some ref \<Rightarrow>
               do { r \<leftarrow> client_GetSecret K \<lparr>ok_Namespace = gc_Namespace clusterObject, ok_Name = ref\<rparr>;
                    case r of
                      Inl err \<Rightarrow> result (Inl err)
                    | Inr sec \<Rightarrow>
                        (case sec_Data sec ''kubeconfig'' of
                           None \<Rightarrow> result (Inl (PlainError
                             ''referenced Secret does not have data key kubeconfig''))
                         | Some kubeconfig \<Rightarrow> result (Inr kubeconfig)) }
           | None \<Rightarrow> result (Inl (PlainError
               (''GitopsCluster object has neither .secretRef nor .capiClusterRef populated, ''
                @ ''unable to get remote cluster config'')))))"

definition cluster_config ::
  "Lib \<Rightarrow> 'w Platform \<Rightarrow> string \<Rightarrow> GitopsCluster option \<Rightarrow> ('w sys, go_error + string) state"
where
  "cluster_config L K localClusterConfig clusterObject =
     (case clusterObject of
        None \<Rightarrow> result (Inr localClusterConfig)
      | Some c \<Rightarrow>
          do { r \<leftarrow> cluster_kubeconfig K c;
               case r of
                 Inl err \<Rightarrow> result (Inl err)
               | Inr kubeconfig \<Rightarrow> result (lib_RESTConfigFromKubeConfig L kubeconfig) })"

text \<open>Lines 181--202: under the lock, use the entry that has appeared meanwhile or start a new
  cache. The Boolean is \<open>cacheFound\<close>.\<close>

definition create_cache ::
  "'w Platform \<Rightarrow> clusterAndGVK \<Rightarrow> string \<Rightarrow> ('w sys, go_error + cacheAndCancel \<times> bool) state"
where
  "create_cache K cacheKey cfg =
     do { m \<leftarrow> read_caches;
          case m cacheKey of
            Some entry \<Rightarrow> result (Inr (entry, True))
          | None \<Rightarrow>
              do { ca \<leftarrow> cache_New K cfg;
                   case ca of
                     Inl err \<Rightarrow> result (Inl err)
                   | Inr h \<Rightarrow>
                       do { cancel \<leftarrow> run_cache K h;
                            let entry = \<lparr>cc_cache = h, cc_cancel = cancel\<rparr>;
                            _ \<leftarrow> write_caches (m(cacheKey \<mapsto> entry));
                            result (Inr (entry, False)) } } }"

definition gc_register :: "'w Platform \<Rightarrow> clusterAndGVK \<Rightarrow> ('w sys, unit) state" where
  "gc_register K key = queue_Add K (CacheItem key)"

text \<open>Lines 133--205: find or create the entry.\<close>

definition obtain_entry ::
  "Lib \<Rightarrow> 'w Platform \<Rightarrow> string \<Rightarrow> GitopsCluster option \<Rightarrow> clusterAndGVK
     \<Rightarrow> ('w sys, go_error + cacheAndCancel \<times> bool) state"
where
  "obtain_entry L K localClusterConfig clusterObject cacheKey =
     do { m \<leftarrow> read_caches;
          case m cacheKey of
            Some entry \<Rightarrow> result (Inr (entry, True))
          | None \<Rightarrow>
              do { r \<leftarrow> cluster_config L K localClusterConfig clusterObject;
                   case r of
                     Inl err \<Rightarrow> result (Inl err)
                   | Inr cfg \<Rightarrow>
                       do { r' \<leftarrow> create_cache K cacheKey cfg;
                            case r' of
                              Inl err \<Rightarrow> result (Inl err)
                            | Inr ef \<Rightarrow>
                                do { _ \<leftarrow> gc_register K cacheKey;
                                     result (Inr ef) } } } }"

text \<open>Lines 210--254: make sure the type is watched, and ask whether it is in sync.\<close>

definition watch_type ::
  "'w Platform \<Rightarrow> ObjectKey \<Rightarrow> GroupVersionKind \<Rightarrow> cacheAndCancel \<Rightarrow> bool
     \<Rightarrow> ('w sys, go_error + nat \<times> bool) state"
where
  "watch_type K clusterKey gvk entry cacheFound =
     do { r \<leftarrow> cache_GetInformer K (cc_cache entry) gvk;
          case r of
            Inl err \<Rightarrow> result (Inl err)
          | Inr informer \<Rightarrow>
              do { h \<leftarrow> (if \<not> cacheFound then informer_AddEventHandler K informer clusterKey
                         else result (Inr ()));
                   case h of
                     Inl err \<Rightarrow> result (Inl err)
                   | Inr _ \<Rightarrow>
                       do { synced \<leftarrow> informer_HasSynced K informer;
                            result (Inr (cc_cache entry, synced)) } } }"

definition watchTargetAndGetReader ::
  "Lib \<Rightarrow> 'w Platform \<Rightarrow> string \<Rightarrow> GitopsCluster option \<Rightarrow> Unstructured
     \<Rightarrow> ('w sys, go_error + nat \<times> bool) state"
where
  "watchTargetAndGetReader L K localClusterConfig clusterObject target =
     (case lib_GVKForObject L (u_GVK target) of
        Inl err \<Rightarrow> result (Inl err)
      | Inr targetGVK \<Rightarrow>
          do { r \<leftarrow> obtain_entry L K localClusterConfig clusterObject
                      \<lparr>cg_ObjectKey = cluster_key_of clusterObject, cg_GVK = targetGVK\<rparr>;
               case r of
                 Inl err \<Rightarrow> result (Inl err)
               | Inr (entry, cacheFound) \<Rightarrow>
                   watch_type K (cluster_key_of clusterObject) (u_GVK target) entry cacheFound })"

section \<open>Events about applications\<close>

definition pipelinesForApplication ::
  "Lib \<Rightarrow> 'w Platform \<Rightarrow> ObjectKey \<Rightarrow> Unstructured \<Rightarrow> ('w sys, go_error + Pipeline list) state"
where
  "pipelinesForApplication L K clusterName obj =
     (case lib_GVKForObject L (u_GVK obj) of
        Inl err \<Rightarrow> result (Inl err)
      | Inr gvk \<Rightarrow>
          client_ListPipelines K applicationKey
            (targetIndexKey L clusterName gvk
               \<lparr>ok_Namespace = u_Namespace obj, ok_Name = u_Name obj\<rparr>))"

fun send_events :: "'w Platform \<Rightarrow> Pipeline list \<Rightarrow> ('w sys, unit) state" where
  "send_events K [] = result ()"
| "send_events K (p # ps) = do { _ \<leftarrow> send_event K (Pipeline_key p); send_events K ps }"

text \<open>\<open>None\<close> is a value that is not a \<open>client.Object\<close> (a tombstone, for instance).\<close>

definition enqueuePipelinesForTarget ::
  "Lib \<Rightarrow> 'w Platform \<Rightarrow> ObjectKey \<Rightarrow> Unstructured option \<Rightarrow> ('w sys, unit) state"
where
  "enqueuePipelinesForTarget L K clusterKey obj =
     (case obj of
        None \<Rightarrow> result ()
      | Some eventObj \<Rightarrow>
          do { r \<leftarrow> pipelinesForApplication L K clusterKey eventObj;
               case r of
                 Inl err \<Rightarrow> result ()
               | Inr pipelines \<Rightarrow> send_events K pipelines })"

section \<open>Garbage collection\<close>

definition isCacheUsed :: "Lib \<Rightarrow> 'w Platform \<Rightarrow> clusterAndGVK \<Rightarrow> ('w sys, go_error + bool) state"
where
  "isCacheUsed L K key =
     do { r \<leftarrow> client_ListPipelines K cacheIndex (clusterAndGVK_String L key);
          case r of
            Inl err \<Rightarrow> result (Inl err)
          | Inr items \<Rightarrow> result (Inr (length items > 0)) }"

definition removeCache :: "'w Platform \<Rightarrow> clusterAndGVK \<Rightarrow> ('w sys, unit) state" where
  "removeCache K key =
     do { m \<leftarrow> read_caches;
          case m key of
            None \<Rightarrow> result ()
          | Some entry \<Rightarrow>
              do { _ \<leftarrow> cancel_cache K (cc_cancel entry);
                   write_caches (m(key := None)) } }"

definition getCacheKeys :: "'w sys \<Rightarrow> clusterAndGVK set" where
  "getCacheKeys s = dom (cachesMap s)"

abbreviation zero_clusterAndGVK :: clusterAndGVK where
  "zero_clusterAndGVK \<equiv>
     \<lparr>cg_ObjectKey = zero_ObjectKey, cg_GVK = \<lparr>gvk_Group = '''', gvk_Version = '''', gvk_Kind = ''''\<rparr>\<rparr>"

text \<open>The collector knows the caches through \<open>cachesInterface\<close> only.\<close>

record 'w cachesInterface =
  ci_isCacheUsed :: "clusterAndGVK \<Rightarrow> ('w sys, go_error + bool) state"
  ci_removeCache :: "clusterAndGVK \<Rightarrow> ('w sys, unit) state"

definition caches_iface :: "Lib \<Rightarrow> 'w Platform \<Rightarrow> 'w cachesInterface" where
  "caches_iface L K = \<lparr>ci_isCacheUsed = isCacheUsed L K, ci_removeCache = removeCache K\<rparr>"

text \<open>The body of \<open>gc.loop\<close>. An item of another type is forgotten, and the body goes on
  with the zero key.\<close>

definition gc_loop_body :: "'w Platform \<Rightarrow> 'w cachesInterface \<Rightarrow> queue_item \<Rightarrow> ('w sys, unit) state"
where
  "gc_loop_body K C item =
     do { key \<leftarrow> (case item of
                   CacheItem k \<Rightarrow> result k
                 | OtherItem n \<Rightarrow>
                     do { _ \<leftarrow> queue_Forget K item;
                          _ \<leftarrow> queue_Done K item;
                          result zero_clusterAndGVK });
          used \<leftarrow> ci_isCacheUsed C key;
          case used of
            Inl err \<Rightarrow> result ()
          | Inr ok \<Rightarrow>
              if ok then
                do { _ \<leftarrow> queue_Done K (CacheItem key);
                     queue_AddRateLimited K (CacheItem key) }
              else
                do { _ \<leftarrow> queue_Forget K (CacheItem key);
                     _ \<leftarrow> queue_Done K (CacheItem key);
                     ci_removeCache C key } }"

text \<open>The loop itself ends only when the queue shuts down.\<close>

partial_function (option) gc_loop :: "'w Platform \<Rightarrow> 'w cachesInterface \<Rightarrow> 'w sys \<Rightarrow> 'w sys option"
where
  "gc_loop K C s =
     (case run_state (queue_Get K) s of
        (item, s') \<Rightarrow>
          (case item of
             None \<Rightarrow> Some s'
           | Some it \<Rightarrow> gc_loop K C (exec (gc_loop_body K C it) s')))"

section \<open>Effects of the operations\<close>

text \<open>A program that leaves the map alone and only appends to the trace.\<close>

lemma wp_stable:
  assumes "keeps cachesMap m" and "emits P m"
    and "\<And>a t d. cachesMap t = cachesMap s \<Longrightarrow> trace t = trace s @ d \<Longrightarrow> list_all P d \<Longrightarrow> Q a t"
  shows "wp m Q s"
proof (rule wp_runI)
  fix a t
  assume run: "run_state m s = (a, t)"
  with assms(2) obtain d where "trace t = trace s @ d" "list_all P d" by (rule emits_runE)
  with keeps_runD [OF assms(1) run] show "Q a t" by (intro assms(3))
qed

text \<open>The calls that reading a cluster's configuration and watching a type make.\<close>

fun is_config :: "call \<Rightarrow> bool" where
  "is_config (CallGetSecret _) = True"
| "is_config (CallKubeconfig _) = True"
| "is_config _ = False"

fun is_watch :: "call \<Rightarrow> bool" where
  "is_watch (CallGetInformer _ _) = True"
| "is_watch (CallAddEventHandler _ _) = True"
| "is_watch (CallHasSynced _) = True"
| "is_watch _ = False"

fun is_handler :: "call \<Rightarrow> bool" where
  "is_handler (CallAddEventHandler _ _) = True"
| "is_handler _ = False"

lemma cluster_kubeconfig_effects [emits_intros, keeps_intros]:
  "emits is_config (cluster_kubeconfig K c)"
  "keeps cachesMap (cluster_kubeconfig K c)"
  unfolding cluster_kubeconfig_def
  by (intro emits_intros; simp) (intro keeps_intros)

lemma cluster_config_effects:
  "emits is_config (cluster_config L K cfg c)"
  "keeps cachesMap (cluster_config L K cfg c)"
  unfolding cluster_config_def
  by (intro emits_intros; simp) (intro keeps_intros)

lemma watch_type_effects:
  "emits is_watch (watch_type K ck gvk entry found)"
  "keeps cachesMap (watch_type K ck gvk entry found)"
  unfolding watch_type_def
  by (intro emits_intros; simp) (intro keeps_intros)

lemma watch_type_no_handler:
  "emits (\<lambda>c. is_watch c \<and> \<not> is_handler c) (watch_type K ck gvk entry True)"
  unfolding watch_type_def
  by (intro emits_intros; simp)

lemma watchTarget_quiet: "emits quiet (watchTargetAndGetReader L K cfg c target)"
proof -
  have config: "emits quiet (cluster_config L K cfg c)"
    by (rule emits_mono [OF cluster_config_effects(1)]) (auto elim: is_config.elims)
  have watch: "emits quiet (watch_type K ck gvk entry found)" for ck gvk entry found
    by (rule emits_mono [OF watch_type_effects(1)]) (auto elim: is_watch.elims)
  show ?thesis
    unfolding watchTargetAndGetReader_def obtain_entry_def create_cache_def gc_register_def
    by (intro emits_intros config watch; simp)
qed

section \<open>The invariant of the caches\<close>

fun is_run :: "call \<Rightarrow> bool" where
  "is_run (CallRunCache _) = True"
| "is_run _ = False"

fun is_cancel :: "call \<Rightarrow> bool" where
  "is_cancel (CallCancelCache _) = True"
| "is_cancel _ = False"

text \<open>Every cache in the map was started and registered for collection; and as many caches
  run as the map has entries: one was started for each entry or has been cancelled since.\<close>

definition caches_ok :: "'w sys \<Rightarrow> bool" where
  "caches_ok s \<longleftrightarrow>
     (\<forall>k e. cachesMap s k = Some e \<longrightarrow>
        CallRunCache (cc_cache e) \<in> set (trace s) \<and> CallQueueAdd (CacheItem k) \<in> set (trace s))"

definition caches_balanced :: "'w sys \<Rightarrow> bool" where
  "caches_balanced s \<longleftrightarrow>
     finite (dom (cachesMap s)) \<and>
     length (calls_of is_run s) = card (dom (cachesMap s)) + length (calls_of is_cancel s)"

abbreviation caches_inv :: "'w sys \<Rightarrow> bool" where
  "caches_inv s \<equiv> caches_ok s \<and> caches_balanced s"

abbreviation no_start_stop :: "call \<Rightarrow> bool" where
  "no_start_stop c \<equiv> \<not> is_run c \<and> \<not> is_cancel c"

lemma caches_inv_stable:
  assumes "cachesMap t = cachesMap s" and "trace t = trace s @ d" and "list_all no_start_stop d"
    and "caches_inv s"
  shows "caches_inv t"
proof -
  have "calls_of is_run t = calls_of is_run s" "calls_of is_cancel t = calls_of is_cancel s"
    using assms(2,3) by (auto intro!: calls_of_append simp: list_all_iff)
  with assms show ?thesis by (auto simp: caches_ok_def caches_balanced_def)
qed

lemma caches_inv_program:
  assumes "keeps cachesMap m" and "emits no_start_stop m" and "caches_inv s"
  shows "caches_inv (exec m s)"
  using caches_inv_stable [OF keepsD [OF assms(1)]] emitsD [OF assms(2)] assms(3) by blast

lemma caches_inv_world: "caches_inv s \<Longrightarrow> caches_inv (s\<lparr>world := w\<rparr>)"
  by (simp add: caches_ok_def caches_balanced_def calls_of_def)

lemma obtain_entry_wp:
  assumes "caches_inv s"
  shows "wp (obtain_entry L K cfg c key)
           (\<lambda>r t. caches_inv t \<and>
              (\<forall>e f. r = Inr (e, f) \<longrightarrow> cachesMap t key = Some e \<and> (f \<longleftrightarrow> cachesMap s key \<noteq> None)))
           s"
proof (cases "cachesMap s key")
  case (Some entry)
  with assms show ?thesis by (simp add: obtain_entry_def wp_rules)
next
  case None
  have config: "emits no_start_stop (cluster_config L K cfg c)"
    by (rule emits_mono [OF cluster_config_effects(1)]) (auto elim: is_config.elims)
  show ?thesis
    unfolding obtain_entry_def wp_rules None option.case
  proof (rule wp_stable [OF cluster_config_effects(2) config], goal_cases)
    case (1 r t d)
    then have inv: "caches_inv t" "cachesMap t key = None"
      using caches_inv_stable assms None by auto
    show ?case
    proof (cases r)
      case (Inl err)
      with inv show ?thesis by (simp add: wp_rules)
    next
      case (Inr cfg')
      show ?thesis
        using inv None
        by (auto simp: Inr wp_rules create_cache_def gc_register_def op_defs
            caches_ok_def caches_balanced_def calls_of_def domIff split: sum.split)
    qed
  qed
qed

lemma watchTarget_wp:
  assumes "caches_inv s"
  shows "wp (watchTargetAndGetReader L K cfg c target)
           (\<lambda>r t. caches_inv t \<and>
              (\<forall>h synced. r = Inr (h, synced) \<longrightarrow>
                 (\<exists>gvk e. lib_GVKForObject L (u_GVK target) = Inr gvk \<and> cc_cache e = h \<and>
                    cachesMap t \<lparr>cg_ObjectKey = cluster_key_of c, cg_GVK = gvk\<rparr> = Some e)))
           s"
proof (cases "lib_GVKForObject L (u_GVK target)")
  case (Inl err)
  with assms show ?thesis by (simp add: watchTargetAndGetReader_def wp_rules)
next
  case (Inr gvk)
  let ?key = "\<lparr>cg_ObjectKey = cluster_key_of c, cg_GVK = gvk\<rparr>"
  have quiet: "emits no_start_stop (watch_type K ck g entry found)" for ck g entry found
    by (rule emits_mono [OF watch_type_effects(1)]) (auto elim: is_watch.elims)
  have watch: "wp (watch_type K ck g entry found)
      (\<lambda>r t. caches_inv t \<and> (\<forall>h y. r = Inr (h, y) \<longrightarrow> h = cc_cache entry) \<and> cachesMap t = cachesMap u) u"
    if "caches_inv u" for ck g entry found u
    unfolding wp_conj
  proof (intro conjI)
    show "wp (watch_type K ck g entry found) (\<lambda>_. caches_ok) u"
      "wp (watch_type K ck g entry found) (\<lambda>_. caches_balanced) u"
      using caches_inv_program [OF watch_type_effects(2) quiet that] by (simp_all add: wp_exec)
    show "wp (watch_type K ck g entry found) (\<lambda>_ t. cachesMap t = cachesMap u) u"
      using keepsD [OF watch_type_effects(2)] by (simp add: wp_exec)
    show "wp (watch_type K ck g entry found) (\<lambda>r t. \<forall>h y. r = Inr (h, y) \<longrightarrow> h = cc_cache entry) u"
      by (auto simp: watch_type_def wp_rules op_defs split: sum.splits)
  qed
  have "wp (obtain_entry L K cfg c ?key)
      (\<lambda>r. wp (case r of Inl err \<Rightarrow> result (Inl err)
               | Inr (entry, found) \<Rightarrow> watch_type K (cluster_key_of c) (u_GVK target) entry found)
         (\<lambda>r t. caches_inv t \<and>
            (\<forall>h synced. r = Inr (h, synced) \<longrightarrow> (\<exists>e. cc_cache e = h \<and> cachesMap t ?key = Some e)))) s"
    by (rule wp_mono [OF obtain_entry_wp [OF assms]])
       (auto simp: wp_rules split: sum.splits intro!: wp_mono [OF watch])
  then show ?thesis
    by (simp add: watchTargetAndGetReader_def Inr wp_rules)
qed

section \<open>The garbage collector\<close>

lemma isCacheUsed_effects:
  "emits (\<lambda>c. c = CallListPipelines cacheIndex (clusterAndGVK_String L key)) (isCacheUsed L K key)"
  "keeps cachesMap (isCacheUsed L K key)"
  unfolding isCacheUsed_def by (intro emits_intros; simp) (intro keeps_intros)

text \<open>With the index as documented, a cache counts as used exactly when a stored pipeline has
  a target that needs it.\<close>

lemma isCacheUsed_correct:
  assumes "lists_by_index K cacheIndex (indexTargetCache L) stored (world s)"
    and "inj_on (clusterAndGVK_String L) V" and "key \<in> V"
    and "\<And>p k. p \<in> stored \<Longrightarrow> needs_cache L p k \<Longrightarrow> k \<in> V"
  shows "value_of (isCacheUsed L K key) s = Inr (\<exists>p \<in> stored. needs_cache L p key)"
proof -
  obtain ps where ps: "fst (pf_ListPipelines K cacheIndex (clusterAndGVK_String L key) (world s)) = Inr ps"
    and set: "set ps = {p \<in> stored. \<exists>ks. indexTargetCache L (PipelineObject p) = Returned ks
                 \<and> clusterAndGVK_String L key \<in> set ks}"
    using assms(1) unfolding lists_by_index_def by blast
  have "(\<exists>ks. indexTargetCache L (PipelineObject p) = Returned ks \<and> clusterAndGVK_String L key \<in> set ks)
      \<longleftrightarrow> needs_cache L p key" if "p \<in> stored" for p
    using indexTargets_total [of L "clusterCacheKey L" p] indexTargetCache_iff assms(2-4) that
    unfolding indexTargetCache_def by metis
  with set have "(ps \<noteq> []) \<longleftrightarrow> (\<exists>p \<in> stored. needs_cache L p key)"
    by (auto simp flip: set_empty)
  with ps show ?thesis
    by (simp add: isCacheUsed_def op_defs run_perform)
qed

lemma removeCache_run:
  "cachesMap (exec (removeCache K key) s) = (cachesMap s)(key := None)"
  "trace (exec (removeCache K key) s) =
     trace s @ (case cachesMap s key of None \<Rightarrow> [] | Some e \<Rightarrow> [CallCancelCache (cc_cancel e)])"
  by (auto simp: removeCache_def op_defs run_perform fun_upd_idem split: option.splits)

lemma removeCache_inv:
  assumes "caches_inv s"
  shows "caches_inv (exec (removeCache K key) s)"
proof (cases "cachesMap s key")
  case None
  with assms show ?thesis
    by (simp add: removeCache_def)
next
  case (Some e)
  then have "card (dom (cachesMap s)) = Suc (card (dom (cachesMap s) - {key}))"
    using assms by (intro card.remove) (auto simp: caches_balanced_def)
  with assms Some show ?thesis
    by (auto simp: caches_ok_def caches_balanced_def calls_of_def removeCache_run)
qed

text \<open>What the collector may rely on, and what one of its turns then does: the key's cache goes
  exactly when the answer is that nothing uses it, a used key is queued again, and an error
  leaves the key neither finished nor queued again.\<close>

fun is_queue :: "call \<Rightarrow> bool" where
  "is_queue (CallQueueAdd _) = True"
| "is_queue (CallQueueAddRateLimited _) = True"
| "is_queue (CallQueueDone _) = True"
| "is_queue (CallQueueForget _) = True"
| "is_queue _ = False"

locale collectable_caches =
  fixes C :: "'w cachesInterface"
  assumes used_map: "keeps cachesMap (ci_isCacheUsed C key)"
    and used_calls: "emits (\<lambda>c. \<not> is_queue c \<and> no_start_stop c) (ci_isCacheUsed C key)"
    and remove_map: "cachesMap (exec (ci_removeCache C key) s) = (cachesMap s)(key := None)"
    and remove_calls: "emits is_cancel (ci_removeCache C key)"
    and remove_inv: "preserves caches_inv (ci_removeCache C key)"
begin

lemma turn_map:
  "cachesMap (exec (gc_loop_body K C (CacheItem key)) s) =
     (if value_of (ci_isCacheUsed C key) s = Inr False then (cachesMap s)(key := None)
      else cachesMap s)"
  using keepsD [OF used_map, of key s]
  by (auto simp: gc_loop_body_def op_defs run_perform remove_map split: sum.splits prod.splits)

lemma turn_queue:
  "calls_of is_queue (exec (gc_loop_body K C (CacheItem key)) s) =
     calls_of is_queue s @
       (case value_of (ci_isCacheUsed C key) s of
          Inl err \<Rightarrow> []
        | Inr True \<Rightarrow> [CallQueueDone (CacheItem key), CallQueueAddRateLimited (CacheItem key)]
        | Inr False \<Rightarrow> [CallQueueForget (CacheItem key), CallQueueDone (CacheItem key)])"
proof -
  have "calls_of is_queue (exec (ci_isCacheUsed C key) s) = calls_of is_queue s"
    by (rule keepsD, rule emits_keeps_calls_of, rule emits_mono [OF used_calls]) simp
  moreover have "calls_of is_queue (exec (ci_removeCache C key) t) = calls_of is_queue t" for t
    by (rule keepsD, rule emits_keeps_calls_of, rule emits_mono [OF remove_calls])
       (auto elim: is_cancel.elims)
  ultimately show ?thesis
    by (auto simp: gc_loop_body_def op_defs run_perform calls_of_def split: sum.splits prod.splits)
qed

end

interpretation target_caches: collectable_caches "caches_iface L K"
proof unfold_locales
  fix key s
  show "keeps cachesMap (ci_isCacheUsed (caches_iface L K) key)"
    by (simp add: caches_iface_def isCacheUsed_effects)
  show "emits (\<lambda>c. \<not> is_queue c \<and> no_start_stop c) (ci_isCacheUsed (caches_iface L K) key)"
    by (simp add: caches_iface_def) (rule emits_mono [OF isCacheUsed_effects(1)], simp)
  show "cachesMap (exec (ci_removeCache (caches_iface L K) key) s) = (cachesMap s)(key := None)"
    by (simp add: caches_iface_def removeCache_run)
  show "emits is_cancel (ci_removeCache (caches_iface L K) key)"
    by (auto simp: caches_iface_def emits_def removeCache_run split: option.split)
  show "preserves caches_inv (ci_removeCache (caches_iface L K) key)"
    by (simp add: caches_iface_def preserves_def removeCache_inv)
qed

lemma caches_inv_quiet:
  "keeps cachesMap m \<Longrightarrow> emits no_start_stop m \<Longrightarrow> preserves caches_inv m"
  using caches_inv_program unfolding preserves_def by blast

lemma queue_ops_inv [preserves_intros]:
  "preserves caches_inv (queue_Get K)"
  "preserves caches_inv (queue_Forget K item)"
  "preserves caches_inv (queue_Done K item)"
  "preserves caches_inv (queue_AddRateLimited K item)"
  by (rule caches_inv_quiet; intro keeps_intros emits_intros; simp)+

context collectable_caches
begin

lemma turn_inv: "preserves caches_inv (gc_loop_body K C item)"
proof -
  have "preserves caches_inv (ci_isCacheUsed C key)" for key
    by (rule caches_inv_quiet [OF used_map emits_mono [OF used_calls]]) simp
  then show ?thesis
    unfolding gc_loop_body_def
    by (cases item) (simp, intro preserves_intros remove_inv; simp)+
qed

end

lemma watchTarget_inv: "preserves caches_inv (watchTargetAndGetReader L K cfg c target)"
  by (rule wp_preserves, rule wp_mono [OF watchTarget_wp]) simp_all

section \<open>Interleavings\<close>

text \<open>Any sequence of whole operations by the reconciler and the collector, with the outside
  world changing in between.\<close>

inductive cache_reach :: "Lib \<Rightarrow> 'w Platform \<Rightarrow> string \<Rightarrow> 'w sys \<Rightarrow> bool" for L K cfg where
  start: "cachesMap s = Map.empty \<Longrightarrow> trace s = [] \<Longrightarrow> cache_reach L K cfg s"
| watch: "cache_reach L K cfg s \<Longrightarrow>
    cache_reach L K cfg (exec (watchTargetAndGetReader L K cfg c target) s)"
| collect: "cache_reach L K cfg s \<Longrightarrow>
    cache_reach L K cfg (exec (gc_loop_body K (caches_iface L K) item) s)"
| application_event: "cache_reach L K cfg s \<Longrightarrow>
    cache_reach L K cfg (exec (enqueuePipelinesForTarget L K ck obj) s)"
| outside: "cache_reach L K cfg s \<Longrightarrow> cache_reach L K cfg (s\<lparr>world := w\<rparr>)"

lemma send_events_effects [emits_intros, keeps_intros]:
  "emits (\<lambda>c. \<exists>p \<in> set ps. c = CallSendEvent (Pipeline_key p)) (send_events K ps)"
  "keeps cachesMap (send_events K ps)"
proof (induction ps)
  case (Cons p ps)
  {
    case 1
    show ?case
      by (simp, intro emits_intros) (auto intro!: emits_mono [OF Cons.IH(1)])
  next
    case 2
    show ?case using Cons.IH by (simp, intro keeps_intros)
  }
qed (simp_all add: emits_return keeps_return)

lemma enqueue_effects:
  "emits (\<lambda>c. quiet c \<and> no_start_stop c)
     (enqueuePipelinesForTarget L K ck obj)"
  "keeps cachesMap (enqueuePipelinesForTarget L K ck obj)"
  unfolding enqueuePipelinesForTarget_def pipelinesForApplication_def
  by (intro emits_intros emits_mono [OF send_events_effects(1)]; auto) (intro keeps_intros)

lemma cache_reach_inv: "cache_reach L K cfg s \<Longrightarrow> caches_inv s"
proof (induction rule: cache_reach.induct)
  case (start s)
  then show ?case by (simp add: caches_ok_def caches_balanced_def calls_of_def)
next
  case (watch s c target)
  then show ?case by (intro preservesD [OF watchTarget_inv])
next
  case (collect s item)
  then show ?case by (intro preservesD [OF target_caches.turn_inv])
next
  case (application_event s ck obj)
  then show ?case
    by (intro preservesD [OF caches_inv_quiet [OF enqueue_effects(2) emits_mono [OF enqueue_effects(1)]]])
       simp_all
next
  case (outside s w)
  then show ?case by (intro caches_inv_world)
qed

section \<open>When the collector's loop returns\<close>

text \<open>\<open>gc_shut n\<close>: one of the first \<open>n\<close> reads of the queue reports the shutdown.\<close>

fun gc_shut :: "nat \<Rightarrow> 'w Platform \<Rightarrow> 'w cachesInterface \<Rightarrow> 'w sys \<Rightarrow> bool" where
  "gc_shut 0 K C s = False"
| "gc_shut (Suc n) K C s =
     (case run_state (queue_Get K) s of
        (item, s') \<Rightarrow>
          (case item of None \<Rightarrow> True | Some it \<Rightarrow> gc_shut n K C (exec (gc_loop_body K C it) s')))"

lemma gc_shut_returns: "gc_shut n K C s \<Longrightarrow> \<exists>t. gc_loop K C s = Some t"
proof (induction n arbitrary: s)
  case (Suc n)
  obtain item s' where get: "run_state (queue_Get K) s = (item, s')" by fastforce
  show ?case
  proof (cases item)
    case None
    with get show ?thesis by (subst gc_loop.simps) simp
  next
    case (Some it)
    with Suc.prems get have "gc_shut n K C (exec (gc_loop_body K C it) s')" by simp
    with Suc.IH obtain t where "gc_loop K C (exec (gc_loop_body K C it) s') = Some t" by blast
    with get Some show ?thesis by (subst gc_loop.simps) simp
  qed
qed simp

lemma gc_returns_shut:
  assumes ret: "gc_loop K C s = Some t"
  shows "\<exists>n. gc_shut n K C s"
proof (rule gc_loop.raw_induct [where P = "\<lambda>K C s t. \<exists>n. gc_shut n K C s", OF _ ret])
  fix f :: "'a Platform \<Rightarrow> 'a cachesInterface \<Rightarrow> 'a sys \<Rightarrow> 'a sys option" and K C s t
  assume IH: "\<And>K C s t. f K C s = Some t \<Longrightarrow> \<exists>n. gc_shut n K C s"
    and eq: "(case run_state (queue_Get K) s of
        (item, s') \<Rightarrow> (case item of None \<Rightarrow> Some s'
           | Some it \<Rightarrow> f K C (exec (gc_loop_body K C it) s'))) = Some t"
  obtain item s' where get: "run_state (queue_Get K) s = (item, s')" by fastforce
  show "\<exists>n. gc_shut n K C s"
  proof (cases item)
    case None
    with get show ?thesis by (intro exI [of _ 1]) simp
  next
    case (Some it)
    with eq get obtain n where "gc_shut n K C (exec (gc_loop_body K C it) s')"
      using IH by fastforce
    with get Some show ?thesis by (intro exI [of _ "Suc n"]) simp
  qed
qed

lemma gc_loop_returns_iff: "(\<exists>t. gc_loop K C s = Some t) \<longleftrightarrow> (\<exists>n. gc_shut n K C s)"
  using gc_shut_returns gc_returns_shut by blast

end
