(* ===== verification/Level_Reconciler.thy ===== *)
theory Level_Reconciler
  imports Condition_Util Strategy_Registry Target_Caches
begin

text \<open>
  \<open>controllers/leveltriggered/controller.go\<close>: the level-triggered reconciler. It reads the
  state of every target of every environment, writes it to the Pipeline's status, and promotes
  the revision of the first environment to the first later environment that does not run it.
  The Go function \<open>Reconcile\<close> is cut at its phases: \<open>reconcileEnvs\<close> (lines 85--174),
  \<open>readyStatus\<close> (176--195), \<open>promoteStage\<close> (213--259) and \<open>Reconcile\<close> itself.
  A panic of the Go code (index out of range, nil dereference) is an outcome of the model.
\<close>

section \<open>The reconciler and its events\<close>

record 'w PipelineReconciler =
  r_ControllerName :: string
  r_recorder :: bool
  r_stratReg :: "'w StrategyRegistry"
  r_localClusterConfig :: string

definition emitEventf ::
  "'w PipelineReconciler \<Rightarrow> 'w Platform \<Rightarrow> Pipeline \<Rightarrow> string \<Rightarrow> string \<Rightarrow> string \<Rightarrow> ('w sys, unit) state"
where
  "emitEventf r K p eventtype reason msg =
     (if \<not> r_recorder r then result () else recorder_Eventf K (Pipeline_key p) eventtype reason msg)"

section \<open>Reading the targets\<close>

definition getCluster ::
  "'w Platform \<Rightarrow> Pipeline \<Rightarrow> CrossNamespaceClusterReference \<Rightarrow> ('w sys, go_error + GitopsCluster) state"
where
  "getCluster K p clusterRef =
     client_GetCluster K
       \<lparr>ok_Namespace = (if ccr_Namespace clusterRef = '''' then p_Namespace p else ccr_Namespace clusterRef),
        ok_Name = ccr_Name clusterRef\<rparr>"

definition clusterPrefix :: "CrossNamespaceClusterReference option \<Rightarrow> string" where
  "clusterPrefix ref =
     (case ref of None \<Rightarrow> '''' | Some r \<Rightarrow> ccr_Namespace r @ ''/'' @ ccr_Name r @ '':'')"

definition targetObject :: "Lib \<Rightarrow> Pipeline \<Rightarrow> Target \<Rightarrow> go_error + Unstructured" where
  "targetObject L pipeline target =
     (case lib_ParseGroupVersion L (lar_APIVersion (spec_AppRef (p_Spec pipeline))) of
        Inl err \<Rightarrow> Inl err
      | Inr gv \<Rightarrow> Inr \<lparr>u_GVK = WithKind gv (lar_Kind (spec_AppRef (p_Spec pipeline))),
                       u_Namespace = tgt_Namespace target,
                       u_Name = lar_Name (spec_AppRef (p_Spec pipeline)),
                       u_Object = []\<rparr>)"

text \<open>The dynamic type of the \<open>client.Object\<close> given to \<open>setTargetStatus\<close>.\<close>

datatype app_object = AppUnstructured json_object | AppOther

definition setTargetStatus :: "Lib \<Rightarrow> TargetStatus \<Rightarrow> app_object \<Rightarrow> TargetStatus" where
  "setTargetStatus L status targetObj =
     (case targetObj of
        AppUnstructured obj \<Rightarrow>
          (case lib_NestedSlice L obj [''status'', ''conditions''] of
             (conds, ok, err) \<Rightarrow>
               if \<not> ok \<or> err \<noteq> None then status\<lparr>ts_Ready := False\<rparr>
               else
                 let status = status\<lparr>ts_Ready := IsReadyUnstructured L conds\<rparr>
                 in (case lib_NestedString L obj [''status'', ''lastAppliedRevision''] of
                       (lastAppliedRev, ok, err) \<Rightarrow>
                         if \<not> ok \<or> err \<noteq> None then
                           if ts_Ready status then
                             status\<lparr>ts_Error := ''unable to find .status.lastAppliedRevision in ready target object'',
                                    ts_Ready := False\<rparr>
                           else status
                         else status\<lparr>ts_Revision := lastAppliedRev\<rparr>))
      | AppOther \<Rightarrow>
          status\<lparr>ts_Error := ''unable to determine ready status for object'', ts_Ready := False\<rparr>)"

text \<open>Lines 137--172. A result carries the target's status and whether it makes the pipeline
  unready; \<open>Inl\<close> ends the reconciliation.\<close>

definition readApplication ::
  "'w PipelineReconciler \<Rightarrow> Lib \<Rightarrow> 'w Platform \<Rightarrow> Pipeline \<Rightarrow> Target \<Rightarrow> TargetStatus
     \<Rightarrow> GitopsCluster option \<Rightarrow> ('w sys, go_error + TargetStatus \<times> bool) state"
where
  "readApplication r L K pipeline target targetStatus clusterObject =
     (case targetObject L pipeline target of
        Inl err \<Rightarrow>
          result (Inr (targetStatus\<lparr>ts_Error :=
            ''target spec could not be interpreted as an object: '' @ err_Error err\<rparr>, True))
      | Inr targetObj \<Rightarrow>
          do { w \<leftarrow> watchTargetAndGetReader L K (r_localClusterConfig r) clusterObject targetObj;
               case w of
                 Inl err \<Rightarrow> result (Inl err)
               | Inr (clusterClient, ok) \<Rightarrow>
                   if \<not> ok then
                     result (Inr (targetStatus\<lparr>ts_Error := ''Target cluster client is not synced''\<rparr>, True))
                   else
                     do { g \<leftarrow> cache_Get K clusterClient (u_GVK targetObj)
                                 \<lparr>ok_Namespace = u_Namespace targetObj, ok_Name = u_Name targetObj\<rparr>;
                          case g of
                            Inl err \<Rightarrow>
                              do { _ \<leftarrow> emitEventf r K pipeline ''Warning'' ''GetAppError''
                                        (''Failed to get application object ''
                                           @ clusterPrefix (tgt_ClusterRef target)
                                           @ u_Namespace targetObj @ ''/'' @ u_Name targetObj
                                           @ '' for pipeline '' @ p_Namespace pipeline @ ''/''
                                           @ p_Name pipeline @ '': '' @ err_Error err);
                                   result (Inr (targetStatus\<lparr>ts_Error := err_Error err\<rparr>, True)) }
                          | Inr obj \<Rightarrow>
                              result (Inr (setTargetStatus L targetStatus (AppUnstructured obj), False)) } })"

definition initialTargetStatus :: "Pipeline \<Rightarrow> Target \<Rightarrow> TargetStatus" where
  "initialTargetStatus pipeline target =
     \<lparr>ts_ClusterAppRef = \<lparr>car_LocalAppReference = spec_AppRef (p_Spec pipeline),
                          car_ClusterRef = tgt_ClusterRef target\<rparr>,
      ts_Ready = False, ts_Revision = '''', ts_Error = ''''\<rparr>"

text \<open>Lines 94--172: the body of the inner loop.\<close>

definition reconcileTarget ::
  "'w PipelineReconciler \<Rightarrow> Lib \<Rightarrow> 'w Platform \<Rightarrow> Pipeline \<Rightarrow> Target
     \<Rightarrow> ('w sys, go_error + TargetStatus \<times> bool) state"
where
  "reconcileTarget r L K pipeline target =
     (let targetStatus = initialTargetStatus pipeline target
      in case tgt_ClusterRef target of
           None \<Rightarrow> readApplication r L K pipeline target targetStatus None
         | Some clusterRef \<Rightarrow>
             do { c \<leftarrow> getCluster K pipeline clusterRef;
                  case c of
                    Inl err \<Rightarrow>
                      do { _ \<leftarrow> emitEventf r K pipeline ''Warning'' ''GetClusterError''
                                (''Failed to get cluster '' @ ccr_Namespace clusterRef @ ''/''
                                   @ ccr_Name clusterRef @ '' for pipeline ''
                                   @ p_Namespace pipeline @ ''/'' @ p_Name pipeline
                                   @ '': '' @ err_Error err);
                           if IsNotFound err
                           then result (Inr (targetStatus\<lparr>ts_Error := err_Error err\<rparr>, True))
                           else result (Inl err) }
                  | Inr clusterObject \<Rightarrow>
                      if \<not> IsReady (gc_Conditions clusterObject) then
                        result (Inr (targetStatus\<lparr>ts_Error :=
                          ''Target cluster '' @ [CHR 39] @ ClusterRef_String clusterRef @ [CHR 39]
                            @ '' not ready''\<rparr>, True))
                      else
                        readApplication r L K pipeline target targetStatus (Some clusterObject) })"

fun reconcileTargets ::
  "'w PipelineReconciler \<Rightarrow> Lib \<Rightarrow> 'w Platform \<Rightarrow> Pipeline \<Rightarrow> Target list
     \<Rightarrow> ('w sys, go_error + TargetStatus list \<times> bool) state"
where
  "reconcileTargets r L K pipeline [] = result (Inr ([], False))"
| "reconcileTargets r L K pipeline (target # ts) =
     do { x \<leftarrow> reconcileTarget r L K pipeline target;
          case x of
            Inl err \<Rightarrow> result (Inl err)
          | Inr (status, unready) \<Rightarrow>
              do { y \<leftarrow> reconcileTargets r L K pipeline ts;
                   case y of
                     Inl err \<Rightarrow> result (Inl err)
                   | Inr (statuses, unready') \<Rightarrow>
                       result (Inr (status # statuses, unready \<or> unready')) } }"

fun reconcileEnvs ::
  "'w PipelineReconciler \<Rightarrow> Lib \<Rightarrow> 'w Platform \<Rightarrow> Pipeline \<Rightarrow> Environment list
     \<Rightarrow> (string \<rightharpoonup> EnvironmentStatus) \<Rightarrow> bool
     \<Rightarrow> ('w sys, go_error + (string \<rightharpoonup> EnvironmentStatus) \<times> bool) state"
where
  "reconcileEnvs r L K pipeline [] envStatuses unready = result (Inr (envStatuses, unready))"
| "reconcileEnvs r L K pipeline (env # envs) envStatuses unready =
     do { x \<leftarrow> reconcileTargets r L K pipeline (env_Targets env);
          case x of
            Inl err \<Rightarrow> result (Inl err)
          | Inr (statuses, unready') \<Rightarrow>
              reconcileEnvs r L K pipeline envs
                (envStatuses(env_Name env \<mapsto>
                   \<lparr>es_WaitingApproval = zero_WaitingApproval, es_Targets = statuses\<rparr>))
                (unready \<or> unready') }"

section \<open>The status\<close>

definition readyCondition :: "bool \<Rightarrow> Condition" where
  "readyCondition unready =
     (if unready then
        \<lparr>cond_Type = ReadyCondition, cond_Status = ConditionFalse,
         cond_Reason = TargetNotReadableReason,
         cond_Message = ''One or more targets was not reachable or not present''\<rparr>
      else
        \<lparr>cond_Type = ReadyCondition, cond_Status = ConditionTrue,
         cond_Reason = ReconciliationSucceededReason,
         cond_Message = trimString ''All clusters checked'' MaxConditionMessageLength\<rparr>)"

definition readyStatus ::
  "Lib \<Rightarrow> Pipeline \<Rightarrow> (string \<rightharpoonup> EnvironmentStatus) \<Rightarrow> bool \<Rightarrow> Pipeline"
where
  "readyStatus L pipeline envStatuses unready =
     pipeline\<lparr>p_Status :=
       \<lparr>ps_ObservedGeneration = p_Generation pipeline,
        ps_Conditions = lib_SetStatusCondition L (ps_Conditions (p_Status pipeline)) (readyCondition unready),
        ps_Environments = Some envStatuses\<rparr>\<rparr>"

definition setPendingCondition :: "Lib \<Rightarrow> Pipeline \<Rightarrow> string \<Rightarrow> string \<Rightarrow> Pipeline" where
  "setPendingCondition L pipeline reason message =
     pipeline\<lparr>p_Status := (p_Status pipeline)\<lparr>ps_Conditions :=
       lib_SetStatusCondition L (ps_Conditions (p_Status pipeline))
         \<lparr>cond_Type = PromotionPendingCondition, cond_Status = ConditionTrue,
          cond_Reason = reason, cond_Message = message\<rparr>\<rparr>\<rparr>"

definition removePendingCondition :: "Lib \<Rightarrow> Pipeline \<Rightarrow> Pipeline" where
  "removePendingCondition L pipeline =
     pipeline\<lparr>p_Status := (p_Status pipeline)\<lparr>ps_Conditions :=
       lib_RemoveStatusCondition L (ps_Conditions (p_Status pipeline)) PromotionPendingCondition\<rparr>\<rparr>"

section \<open>The promotion decision\<close>

definition checkAnyTargetHasRevision :: "EnvironmentStatus \<Rightarrow> string \<Rightarrow> bool" where
  "checkAnyTargetHasRevision env revision = list_ex (\<lambda>t. ts_Revision t = revision) (es_Targets env)"

definition checkAllTargetsRunRevision :: "EnvironmentStatus \<Rightarrow> string \<Rightarrow> bool" where
  "checkAllTargetsRunRevision env revision = list_all (\<lambda>t. ts_Revision t = revision) (es_Targets env)"

definition checkAllTargetsHaveSameRevision :: "EnvironmentStatus \<Rightarrow> string" where
  "checkAllTargetsHaveSameRevision env =
     (case es_Targets env of
        [] \<Rightarrow> ''''
      | t # ts \<Rightarrow>
          if list_all (\<lambda>t'. ts_Revision t' = ts_Revision t) (t # ts) then ts_Revision t else '''')"

definition checkAllTargetsAreReady :: "EnvironmentStatus \<Rightarrow> bool" where
  "checkAllTargetsAreReady env = list_all ts_Ready (es_Targets env)"

text \<open>The strategy is chosen for the environment's promotion, but called with the pipeline's
  default one (line 297), which is dereferenced.\<close>

definition promoteLatestRevision ::
  "'w PipelineReconciler \<Rightarrow> Pipeline \<Rightarrow> Environment \<Rightarrow> string \<Rightarrow> ('w sys, go_error option outcome) state"
where
  "promoteLatestRevision r pipeline env revision =
     (case GetPromotion (p_Spec pipeline) (env_Name env) of
        None \<Rightarrow> result (Returned None)
      | Some promotion \<Rightarrow>
          (case Registry_Get (r_stratReg r) promotion of
             Inl err \<Rightarrow> result (Returned (Some (Wrapped ''error getting strategy from registry'' err)))
           | Inr strat \<Rightarrow>
               (case spec_Promotion (p_Spec pipeline) of
                  None \<Rightarrow> result (Panicked nil_dereference)
                | Some specPromotion \<Rightarrow>
                    do { x \<leftarrow> strat_Promote strat specPromotion
                               \<lparr>sp_PipelineNamespace = p_Namespace pipeline,
                                sp_PipelineName = p_Name pipeline,
                                sp_Environment = env, sp_Version = revision\<rparr>;
                         case x of
                           Panicked msg \<Rightarrow> result (Panicked msg)
                         | Returned (Inl err) \<Rightarrow> result (Returned (Some err))
                         | Returned (Inr _) \<Rightarrow> result (Returned None) })))"

text \<open>Lines 241--259. A status missing from the map would be a nil pointer.\<close>

fun promoteLoop ::
  "'w PipelineReconciler \<Rightarrow> Pipeline \<Rightarrow> string \<Rightarrow> Environment list \<Rightarrow> ('w sys, reconcile_result) state"
where
  "promoteLoop r pipeline latestRevision [] = result (Returned (zero_Result, None))"
| "promoteLoop r pipeline latestRevision (env # envs) =
     (case envs_lookup (p_Status pipeline) (env_Name env) of
        None \<Rightarrow> result (Panicked nil_dereference)
      | Some es \<Rightarrow>
          if checkAllTargetsRunRevision es latestRevision \<and> checkAllTargetsAreReady es then
            promoteLoop r pipeline latestRevision envs
          else if checkAnyTargetHasRevision es latestRevision then
            result (Returned (zero_Result, None))
          else
            do { x \<leftarrow> promoteLatestRevision r pipeline env latestRevision;
                 case x of
                   Panicked msg \<Rightarrow> result (Panicked msg)
                 | Returned (Some err) \<Rightarrow>
                     result (Returned (zero_Result, Some (Wrapped ''error promoting new version'' err)))
                 | Returned None \<Rightarrow> result (Returned (zero_Result, None)) })"

definition promoteStage ::
  "'w PipelineReconciler \<Rightarrow> Lib \<Rightarrow> 'w Platform \<Rightarrow> Pipeline \<Rightarrow> ('w sys, reconcile_result) state"
where
  "promoteStage r L K pipeline =
     (case spec_Environments (p_Spec pipeline) of
        [] \<Rightarrow> result (Panicked index_out_of_range)
      | firstEnv # envs \<Rightarrow>
          (case envs_lookup (p_Status pipeline) (env_Name firstEnv) of
             None \<Rightarrow> result (Panicked nil_dereference)
           | Some es \<Rightarrow>
               if checkAllTargetsHaveSameRevision es = '''' then
                 do { x \<leftarrow> patcher_Patch K (r_ControllerName r)
                            (setPendingCondition L pipeline EnvironmentNotReadyReason
                               ''Waiting for all targets to have the same revision'');
                      case x of
                        Inl err \<Rightarrow> result (Returned (requeue_Result,
                          Some (Wrapped ''error setting pending condition'' err)))
                      | Inr _ \<Rightarrow> result (Returned (zero_Result, None)) }
               else if \<not> checkAllTargetsAreReady es then
                 do { x \<leftarrow> patcher_Patch K (r_ControllerName r)
                            (setPendingCondition L pipeline EnvironmentNotReadyReason
                               ''Waiting for all targets to be ready'');
                      case x of
                        Inl err \<Rightarrow> result (Returned (zero_Result,
                          Some (Wrapped ''error setting pending condition'' err)))
                      | Inr _ \<Rightarrow> result (Returned (zero_Result, None)) }
               else
                 do { x \<leftarrow> patcher_Patch K (r_ControllerName r) (removePendingCondition L pipeline);
                      case x of
                        Inl err \<Rightarrow> result (Returned (zero_Result,
                          Some (Wrapped ''error removing pending condition'' err)))
                      | Inr _ \<Rightarrow>
                          promoteLoop r (removePendingCondition L pipeline)
                            (checkAllTargetsHaveSameRevision es) envs }))"

text \<open>Lines 196--211, then the promotion: the status is written, the write announced.\<close>

definition statusStage ::
  "'w PipelineReconciler \<Rightarrow> Lib \<Rightarrow> 'w Platform \<Rightarrow> Pipeline \<Rightarrow> ('w sys, reconcile_result) state"
where
  "statusStage r L K pipeline =
     do { y \<leftarrow> patcher_Patch K (r_ControllerName r) pipeline;
          case y of
            Inl err \<Rightarrow>
              do { _ \<leftarrow> emitEventf r K pipeline ''Warning'' ''SetStatus''
                        (''Failed to patch status for pipeline ''
                           @ p_Namespace pipeline @ ''/'' @ p_Name pipeline
                           @ '': '' @ err_Error err);
                   result (Returned (requeue_Result, Some err)) }
          | Inr _ \<Rightarrow>
              do { _ \<leftarrow> emitEventf r K pipeline ''Normal'' ''Updated''
                        (''Updated pipeline '' @ p_Namespace pipeline @ ''/'' @ p_Name pipeline);
                   promoteStage r L K pipeline } }"

definition Reconcile ::
  "'w PipelineReconciler \<Rightarrow> Lib \<Rightarrow> 'w Platform \<Rightarrow> ObjectKey \<Rightarrow> ('w sys, reconcile_result) state"
where
  "Reconcile r L K req =
     do { g \<leftarrow> client_GetPipeline K req;
          case g of
            Inl err \<Rightarrow> result (Returned (zero_Result, IgnoreNotFound err))
          | Inr pipeline \<Rightarrow>
              if \<not> DeletionTimestamp_IsZero pipeline then result (Returned (zero_Result, None))
              else
                do { x \<leftarrow> reconcileEnvs r L K pipeline (spec_Environments (p_Spec pipeline)) Map.empty False;
                     case x of
                       Inl err \<Rightarrow> result (Returned (zero_Result, Some err))
                     | Inr (envStatuses, unready) \<Rightarrow>
                         statusStage r L K (readyStatus L pipeline envStatuses unready) } }"

section \<open>What reading the targets yields\<close>

lemma emitEventf_quiet [emits_intros]: "emits quiet (emitEventf r K p ty reason msg)"
  unfolding emitEventf_def by (intro emits_intros) simp

lemma getCluster_quiet [emits_intros]: "emits quiet (getCluster K p ref)"
  unfolding getCluster_def by (intro emits_intros) simp

lemma readApplication_quiet [emits_intros]: "emits quiet (readApplication r L K p t st c)"
  unfolding readApplication_def by (intro emits_intros watchTarget_quiet; simp)

lemma reconcileTarget_quiet [emits_intros]: "emits quiet (reconcileTarget r L K p t)"
  unfolding reconcileTarget_def by (intro emits_intros)

lemma reconcileTargets_quiet [emits_intros]: "emits quiet (reconcileTargets r L K p ts)"
  by (induction ts) (simp_all, (intro emits_intros; simp)+)

lemma reconcileEnvs_quiet [emits_intros]: "emits quiet (reconcileEnvs r L K p envs m u)"
  by (induction envs arbitrary: m u) (simp_all, (intro emits_intros; simp)+)

text \<open>A target is either read, and its status taken from the object, or it could not be read,
  and its status holds the reason.\<close>

definition target_read :: "Lib \<Rightarrow> Pipeline \<Rightarrow> Target \<Rightarrow> TargetStatus \<Rightarrow> bool \<Rightarrow> bool" where
  "target_read L p t st unready \<longleftrightarrow>
     (if unready then \<exists>msg. st = (initialTargetStatus p t)\<lparr>ts_Error := msg\<rparr>
      else \<exists>obj. st = setTargetStatus L (initialTargetStatus p t) (AppUnstructured obj))"

fun targets_read :: "Lib \<Rightarrow> Pipeline \<Rightarrow> Target list \<Rightarrow> TargetStatus list \<Rightarrow> bool \<Rightarrow> bool" where
  "targets_read L p [] sts unready \<longleftrightarrow> sts = [] \<and> \<not> unready"
| "targets_read L p (t # ts) sts unready \<longleftrightarrow>
     (\<exists>st sts' u u'. sts = st # sts' \<and> target_read L p t st u \<and> targets_read L p ts sts' u' \<and>
        unready = (u \<or> u'))"

lemma readApplication_read:
  "wp (readApplication r L K p t (initialTargetStatus p t) c)
     (\<lambda>x _. \<forall>st u. x = Inr (st, u) \<longrightarrow> target_read L p t st u) s"
  unfolding readApplication_def wp_rules
  by (auto simp: wp_rules target_read_def op_defs wp_exec split: sum.splits prod.splits)

lemma reconcileTarget_read:
  "wp (reconcileTarget r L K p t) (\<lambda>x _. \<forall>st u. x = Inr (st, u) \<longrightarrow> target_read L p t st u) s"
proof (cases "tgt_ClusterRef t")
  case None
  then show ?thesis by (simp add: reconcileTarget_def readApplication_read)
next
  case (Some ref)
  then show ?thesis
    by (auto simp: reconcileTarget_def getCluster_def wp_rules op_defs emitEventf_def target_read_def
        split: sum.splits intro!: wp_mono [OF readApplication_read])
qed

lemma reconcileTargets_read:
  "wp (reconcileTargets r L K p ts) (\<lambda>x _. \<forall>sts u. x = Inr (sts, u) \<longrightarrow> targets_read L p ts sts u) s"
proof (induction ts arbitrary: s)
  case (Cons t ts)
  show ?case
    unfolding reconcileTargets.simps wp_rules
  proof (rule wp_mono [OF reconcileTarget_read], goal_cases)
    case (1 x s')
    then show ?case
      by (auto simp: wp_rules split: sum.splits intro!: wp_mono [OF Cons.IH]) blast
  qed
qed (simp add: wp_rules)

text \<open>The map that \<open>reconcileEnvs\<close> builds: an entry for each environment, from the targets
  of an environment of that name, and no waiting approval in any of them.\<close>

definition envs_read ::
  "Lib \<Rightarrow> Pipeline \<Rightarrow> Environment list \<Rightarrow> (string \<rightharpoonup> EnvironmentStatus) \<Rightarrow> bool \<Rightarrow> bool"
where
  "envs_read L p envs m unready \<longleftrightarrow>
     dom m = env_Name ` set envs \<and>
     (\<forall>n es. m n = Some es \<longrightarrow>
        es_WaitingApproval es = zero_WaitingApproval \<and>
        (\<exists>env \<in> set envs. \<exists>u. env_Name env = n \<and> targets_read L p (env_Targets env) (es_Targets es) u \<and>
           (u \<longrightarrow> unready)))"

lemma reconcileEnvs_read:
  assumes "envs_read L p seen m u"
  shows "wp (reconcileEnvs r L K p envs m u)
           (\<lambda>x _. \<forall>m' u'. x = Inr (m', u') \<longrightarrow> envs_read L p (seen @ envs) m' u') s"
  using assms
proof (induction envs arbitrary: seen m u s)
  case Nil
  then show ?case by (simp add: wp_rules)
next
  case (Cons env envs)
  show ?case
    unfolding reconcileEnvs.simps wp_rules
  proof (rule wp_mono [OF reconcileTargets_read], goal_cases)
    case (1 x s')
    show ?case
    proof (cases x)
      case (Inl err)
      then show ?thesis by (simp add: wp_rules)
    next
      case (Inr y)
      obtain sts v where y: "y = (sts, v)" by fastforce
      let ?m = "m(env_Name env \<mapsto> \<lparr>es_WaitingApproval = zero_WaitingApproval, es_Targets = sts\<rparr>)"
      have "targets_read L p (env_Targets env) sts v" using 1 Inr y by simp
      then have "envs_read L p (seen @ [env]) ?m (u \<or> v)"
        using Cons.prems by (auto simp: envs_read_def) blast+
      from Cons.IH [OF this, of s'] show ?thesis by (simp add: Inr y fun_upd_def)
    qed
  qed
qed

lemma reconcileEnvs_read_run:
  assumes "run_state (reconcileEnvs r L K p envs Map.empty False) s = (Inr (m, u), t)"
  shows "envs_read L p envs m u"
proof -
  have "envs_read L p [] Map.empty False" by (simp add: envs_read_def)
  from wp_runD [OF reconcileEnvs_read [OF this] assms] show ?thesis by simp
qed

text \<open>Consequences for single target statuses.\<close>

lemma setTargetStatus_frame [simp]:
  "ts_ClusterAppRef (setTargetStatus L st obj) = ts_ClusterAppRef st"
  by (auto simp: setTargetStatus_def Let_def split: app_object.splits prod.splits)

lemma setTargetStatus_cases:
  obtains (no_conditions) "setTargetStatus L st (AppUnstructured obj) = st\<lparr>ts_Ready := False\<rparr>"
  | (no_revision) "setTargetStatus L st (AppUnstructured obj) = st\<lparr>ts_Ready := False,
       ts_Error := ''unable to find .status.lastAppliedRevision in ready target object''\<rparr>"
  | (revision) rev ready where
      "setTargetStatus L st (AppUnstructured obj) = st\<lparr>ts_Ready := ready, ts_Revision := rev\<rparr>"
proof -
  obtain conds ok err where c: "lib_NestedSlice L obj [''status'', ''conditions''] = (conds, ok, err)"
    by (metis prod_cases3)
  obtain rev ok' err' where n: "lib_NestedString L obj [''status'', ''lastAppliedRevision''] = (rev, ok', err')"
    by (metis prod_cases3)
  show thesis
  proof (cases "ok \<and> err = None")
    case False
    with c show thesis by (intro no_conditions) (auto simp: setTargetStatus_def)
  next
    case True
    note conds = this
    show thesis
    proof (cases "ok' \<and> err' = None")
      case True
      with c n conds show thesis
        by (intro revision [of rev "IsReadyUnstructured L conds"]) (simp add: setTargetStatus_def)
    next
      case False
      show thesis
      proof (cases "IsReadyUnstructured L conds")
        case True
        with c n conds False show thesis by (intro no_revision) (auto simp: setTargetStatus_def)
      next
        case False
        with c n conds \<open>\<not> (ok' \<and> err' = None)\<close> show thesis
          by (intro no_conditions) (auto simp: setTargetStatus_def)
      qed
    qed
  qed
qed

lemma target_read_sound:
  assumes "target_read L p t st u"
  shows "ts_ClusterAppRef st = ts_ClusterAppRef (initialTargetStatus p t)"
    and "ts_Error st \<noteq> '''' \<Longrightarrow> \<not> ts_Ready st \<and> ts_Revision st = ''''"
    and "u \<Longrightarrow> \<not> ts_Ready st \<and> ts_Revision st = ''''"
proof -
  show "ts_ClusterAppRef st = ts_ClusterAppRef (initialTargetStatus p t)"
    using assms by (auto simp: target_read_def split: if_splits)
  show "\<not> ts_Ready st \<and> ts_Revision st = ''''" if u
    using assms that by (auto simp: target_read_def initialTargetStatus_def)
  show "\<not> ts_Ready st \<and> ts_Revision st = ''''" if err: "ts_Error st \<noteq> ''''"
  proof (cases u)
    case True
    with assms show ?thesis by (auto simp: target_read_def initialTargetStatus_def)
  next
    case False
    with assms obtain obj where st: "st = setTargetStatus L (initialTargetStatus p t) (AppUnstructured obj)"
      by (auto simp: target_read_def)
    show ?thesis
      using err unfolding st
      by (cases rule: setTargetStatus_cases [of L "initialTargetStatus p t" obj])
         (simp_all add: initialTargetStatus_def)
  qed
qed

lemma targets_read_all2:
  "targets_read L p ts sts u \<Longrightarrow> list_all2 (\<lambda>t st. \<exists>v. target_read L p t st v \<and> (v \<longrightarrow> u)) ts sts"
proof (induction ts arbitrary: sts u)
  case (Cons t ts)
  then obtain st sts' v v' where "sts = st # sts'" "target_read L p t st v"
    "targets_read L p ts sts' v'" "u = (v \<or> v')"
    by auto
  with Cons.IH [of sts' v'] show ?case
    by (auto elim!: list_all2_mono)
qed simp

end
