(* ===== verification/Level_Promotion.thy ===== *)
theory Level_Promotion
  imports Level_Reconciler Memory_Platform
begin

text \<open>
  The guarantees of the level-triggered reconciler of \<open>Level_Reconciler\<close>: an abstract
  rule for when a promotion is due (\<open>promotable\<close>), that the reconciler promotes at most
  once and only when it is due, and always when it is due and the calls it needs succeed; that
  it does not panic on a well-formed Pipeline; and that every status it writes is a faithful
  account of what it read.
\<close>

section \<open>What the decision to promote means\<close>

text \<open>The abstract rule. An environment is in sync with revision \<open>v\<close> when each of its
  targets runs it and is ready; it lags when it has targets and none of them has reached
  \<open>v\<close>. A revision may be promoted to an environment that lags, when it is what the first
  environment runs and every environment before the lagging one is in sync.\<close>

abbreviation recorded :: "Pipeline \<Rightarrow> Environment \<Rightarrow> TargetStatus list" where
  "recorded p e \<equiv> status_targets (p_Status p) (env_Name e)"

definition env_in_sync :: "Pipeline \<Rightarrow> string \<Rightarrow> Environment \<Rightarrow> bool" where
  "env_in_sync p v e \<longleftrightarrow> (\<forall>t \<in> set (recorded p e). ts_Revision t = v \<and> ts_Ready t)"

definition env_lags :: "Pipeline \<Rightarrow> string \<Rightarrow> Environment \<Rightarrow> bool" where
  "env_lags p v e \<longleftrightarrow> recorded p e \<noteq> [] \<and> (\<forall>t \<in> set (recorded p e). ts_Revision t \<noteq> v)"

definition promotable :: "Pipeline \<Rightarrow> Environment \<Rightarrow> string \<Rightarrow> bool" where
  "promotable p e v \<longleftrightarrow>
     (\<exists>first mid post. spec_Environments (p_Spec p) = first # mid @ e # post \<and>
        v \<noteq> '''' \<and> recorded p first \<noteq> [] \<and> env_in_sync p v first \<and>
        (\<forall>m \<in> set mid. env_in_sync p v m) \<and> env_lags p v e)"

abbreviation promotion_request :: "Pipeline \<Rightarrow> Environment \<Rightarrow> string \<Rightarrow> StrategyPromotion" where
  "promotion_request p e v \<equiv>
     \<lparr>sp_PipelineNamespace = p_Namespace p, sp_PipelineName = p_Name p,
      sp_Environment = e, sp_Version = v\<rparr>"

lemmas check_defs = checkAnyTargetHasRevision_def checkAllTargetsRunRevision_def
  checkAllTargetsAreReady_def list_all_iff list_ex_iff

lemma recorded_lookup:
  "envs_lookup (p_Status p) (env_Name e) = Some es \<Longrightarrow> recorded p e = es_Targets es"
  by (simp add: status_targets_def)

lemma in_sync_iff:
  "envs_lookup (p_Status p) (env_Name e) = Some es \<Longrightarrow>
     checkAllTargetsRunRevision es v \<and> checkAllTargetsAreReady es \<longleftrightarrow> env_in_sync p v e"
  by (auto simp: env_in_sync_def check_defs recorded_lookup)

lemma lags_iff:
  "envs_lookup (p_Status p) (env_Name e) = Some es \<Longrightarrow>
     \<not> (checkAllTargetsRunRevision es v \<and> checkAllTargetsAreReady es) \<and>
     \<not> checkAnyTargetHasRevision es v \<longleftrightarrow> env_lags p v e"
  by (cases "es_Targets es") (auto simp: env_lags_def check_defs recorded_lookup)

lemma same_revision_iff:
  "checkAllTargetsHaveSameRevision es = v \<and> v \<noteq> '''' \<longleftrightarrow>
     es_Targets es \<noteq> [] \<and> v \<noteq> '''' \<and> (\<forall>t \<in> set (es_Targets es). ts_Revision t = v)"
  by (auto simp: checkAllTargetsHaveSameRevision_def list_all_iff split: list.splits)

text \<open>The calls of \<open>promoteLatestRevision\<close> and of the loop around it. \<open>promoted\<close>:
  between two states, exactly one strategy was called, for this environment and revision.\<close>

definition promoted :: "Pipeline \<Rightarrow> Environment \<Rightarrow> string \<Rightarrow> 'w sys \<Rightarrow> 'w sys \<Rightarrow> bool" where
  "promoted p e v s t \<longleftrightarrow>
     (\<exists>spec d. spec_Promotion (p_Spec p) = Some spec \<and> GetPromotion (p_Spec p) (env_Name e) \<noteq> None \<and>
        trace t = trace s @ CallPromote spec (promotion_request p e v) # d \<and> list_all quiet d)"

text \<open>The loop's environments up to the one that lags.\<close>

definition promoted_behind :: "Pipeline \<Rightarrow> string \<Rightarrow> Environment list \<Rightarrow> 'w sys \<Rightarrow> 'w sys \<Rightarrow> bool" where
  "promoted_behind p v envs s t \<longleftrightarrow>
     (\<exists>mid e post. envs = mid @ e # post \<and> (\<forall>m \<in> set mid. env_in_sync p v m) \<and>
        env_lags p v e \<and> promoted p e v s t)"

lemma promoted_behind_here:
  "env_lags p v e \<Longrightarrow> promoted p e v s t \<Longrightarrow> promoted_behind p v (e # envs) s t"
  unfolding promoted_behind_def by (intro exI [of _ "[]"] exI [of _ e] exI [of _ envs]) simp

lemma promoted_behind_later:
  assumes "env_in_sync p v e" and "promoted_behind p v envs s t"
  shows "promoted_behind p v (e # envs) s t"
proof -
  from assms(2) obtain mid f post where "envs = mid @ f # post" "\<forall>m \<in> set mid. env_in_sync p v m"
    "env_lags p v f" "promoted p f v s t"
    unfolding promoted_behind_def by blast
  with assms(1) show ?thesis
    unfolding promoted_behind_def by (intro exI [of _ "e # mid"] exI [of _ f] exI [of _ post]) simp
qed

lemma promoteLatestRevision_trace:
  assumes "list_all promotion_strategy (r_stratReg r)"
  shows "wp (promoteLatestRevision r p e v) (\<lambda>x t. trace t = trace s \<or> promoted p e v s t) s"
proof (cases "GetPromotion (p_Spec p) (env_Name e)")
  case None
  then show ?thesis by (simp add: promoteLatestRevision_def wp_rules)
next
  case (Some promotion)
  note promotion = this
  show ?thesis
  proof (cases "Registry_Get (r_stratReg r) promotion")
    case (Inl err)
    with Some show ?thesis by (simp add: promoteLatestRevision_def wp_rules)
  next
    case (Inr st)
    then have st: "promotion_strategy st"
      using assms Registry_Get_set by (fastforce simp: list_all_iff)
    show ?thesis
    proof (cases "spec_Promotion (p_Spec p)")
      case None
      with promotion Inr show ?thesis by (simp add: promoteLatestRevision_def wp_rules)
    next
      case (Some spec)
      have "wp (strat_Promote st spec (promotion_request p e v)) (\<lambda>_ t. promoted p e v s t) s"
        using promotion_strategy.promote_trace [OF st] promotion Some
        by (simp add: wp_exec promoted_def)
      with promotion Inr Some show ?thesis
        by (auto simp: promoteLatestRevision_def wp_rules elim!: wp_mono split: sum.split outcome.split)
    qed
  qed
qed

lemma promoteLoop_trace:
  assumes "list_all promotion_strategy (r_stratReg r)"
  shows "wp (promoteLoop r p v envs) (\<lambda>x t. trace t = trace s \<or> promoted_behind p v envs s t) s"
proof (induction envs)
  case (Cons e envs)
  show ?case
  proof (cases "envs_lookup (p_Status p) (env_Name e)")
    case None
    then show ?thesis by (simp add: wp_rules)
  next
    case (Some es)
    consider "env_in_sync p v e" | "\<not> env_in_sync p v e" "env_lags p v e"
      | "\<not> env_in_sync p v e" "\<not> env_lags p v e"
      by blast
    then show ?thesis
    proof cases
      case 1
      have "wp (promoteLoop r p v envs) (\<lambda>x t. trace t = trace s \<or> promoted_behind p v (e # envs) s t) s"
        by (rule wp_mono [OF Cons.IH]) (auto intro: promoted_behind_later [OF 1])
      with 1 Some in_sync_iff [OF Some, of v] show ?thesis by simp
    next
      case 2
      then have "wp (promoteLatestRevision r p e v)
          (\<lambda>x t. trace t = trace s \<or> promoted_behind p v (e # envs) s t) s"
        by (intro wp_mono [OF promoteLatestRevision_trace [OF assms]]) (auto intro: promoted_behind_here)
      with 2 Some in_sync_iff [OF Some, of v] lags_iff [OF Some, of v] show ?thesis
        by (auto simp: wp_rules split: outcome.splits option.splits elim!: wp_mono)
    next
      case 3
      with Some in_sync_iff [OF Some, of v] lags_iff [OF Some, of v] show ?thesis
        by (auto simp: wp_rules)
    qed
  qed
qed (simp add: wp_rules)

section \<open>The calls of a whole reconciliation\<close>

lemma removePending_frame [simp]:
  "p_Spec (removePendingCondition L p) = p_Spec p"
  "p_Name (removePendingCondition L p) = p_Name p"
  "p_Namespace (removePendingCondition L p) = p_Namespace p"
  "envs_lookup (p_Status (removePendingCondition L p)) = envs_lookup (p_Status p)"
  "status_targets (p_Status (removePendingCondition L p)) = status_targets (p_Status p)"
  by (auto simp: removePendingCondition_def envs_lookup_def status_targets_def fun_eq_iff)

text \<open>The trace between two states holds no promotion, or exactly one, right after a write of
  the status that shows the promotion to be due.\<close>

definition promotes_when_due :: "string \<Rightarrow> 'w sys \<Rightarrow> 'w sys \<Rightarrow> bool" where
  "promotes_when_due owner s t \<longleftrightarrow>
     (\<exists>d. trace t = trace s @ d \<and>
        (list_all (\<lambda>c. \<not> is_promote c) d \<or>
         (\<exists>pre p e v spec post.
            d = pre @ CallPatch owner p # CallPromote spec (promotion_request p e v) # post \<and>
            promotable p e v \<and> spec_Promotion (p_Spec p) = Some spec \<and>
            list_all (\<lambda>c. \<not> is_promote c) pre \<and> list_all quiet post)))"

lemma promotes_when_due_none:
  "trace t = trace s @ d \<Longrightarrow> list_all (\<lambda>c. \<not> is_promote c) d \<Longrightarrow> promotes_when_due owner s t"
  unfolding promotes_when_due_def by blast

lemma promotes_when_due_one:
  assumes "trace t = trace s @ pre @ CallPatch owner p # CallPromote spec (promotion_request p e v) # post"
    and "promotable p e v" and "spec_Promotion (p_Spec p) = Some spec"
    and "list_all (\<lambda>c. \<not> is_promote c) pre" and "list_all quiet post"
  shows "promotes_when_due owner s t"
  unfolding promotes_when_due_def using assms by blast

lemma promotes_when_due_after:
  assumes "trace s' = trace s @ d" and "list_all (\<lambda>c. \<not> is_promote c) d"
    and "promotes_when_due owner s' t"
  shows "promotes_when_due owner s t"
proof -
  from assms(3) obtain d' where d': "trace t = trace s' @ d'"
    and alt: "list_all (\<lambda>c. \<not> is_promote c) d' \<or>
      (\<exists>pre p e v spec post.
         d' = pre @ CallPatch owner p # CallPromote spec (promotion_request p e v) # post \<and>
         promotable p e v \<and> spec_Promotion (p_Spec p) = Some spec \<and>
         list_all (\<lambda>c. \<not> is_promote c) pre \<and> list_all quiet post)"
    unfolding promotes_when_due_def by blast
  from alt show ?thesis
  proof
    assume "list_all (\<lambda>c. \<not> is_promote c) d'"
    with assms(1,2) d' show ?thesis
      by (intro promotes_when_due_none [of _ _ "d @ d'"]) simp_all
  next
    assume "\<exists>pre p e v spec post.
         d' = pre @ CallPatch owner p # CallPromote spec (promotion_request p e v) # post \<and>
         promotable p e v \<and> spec_Promotion (p_Spec p) = Some spec \<and>
         list_all (\<lambda>c. \<not> is_promote c) pre \<and> list_all quiet post"
    then obtain pre p e v spec post where
      "d' = pre @ CallPatch owner p # CallPromote spec (promotion_request p e v) # post"
      "promotable p e v" "spec_Promotion (p_Spec p) = Some spec"
      "list_all (\<lambda>c. \<not> is_promote c) pre" "list_all quiet post"
      by blast
    with assms(1,2) d' show ?thesis
      by (intro promotes_when_due_one [of _ _ "d @ pre" _ p spec e v post]) simp_all
  qed
qed

lemma promoteStage_trace:
  assumes "list_all promotion_strategy (r_stratReg r)"
  shows "wp (promoteStage r L K p) (\<lambda>x t. promotes_when_due (r_ControllerName r) s t) s"
proof (cases "spec_Environments (p_Spec p)")
  case Nil
  then show ?thesis by (simp add: promoteStage_def wp_rules promotes_when_due_none [of _ _ "[]"])
next
  case (Cons firstEnv envs)
  show ?thesis
  proof (cases "envs_lookup (p_Status p) (env_Name firstEnv)")
    case None
    with Cons show ?thesis
      by (simp add: promoteStage_def wp_rules promotes_when_due_none [of _ _ "[]"])
  next
    case (Some es)
    let ?p = "removePendingCondition L p" and ?v = "checkAllTargetsHaveSameRevision es"
    let ?s = "s\<lparr>world := snd (pf_Patch K (r_ControllerName r) ?p (world s)),
                trace := trace s @ [CallPatch (r_ControllerName r) ?p]\<rparr>"
    have quietly: "promotes_when_due (r_ControllerName r) s (s\<lparr>world := w, trace := trace s @ [CallPatch o' q]\<rparr>)"
      for w o' q
      by (rule promotes_when_due_none [of _ _ "[CallPatch o' q]"]) simp_all
    have "promotes_when_due (r_ControllerName r) s t"
      if ready: "?v \<noteq> ''''" "checkAllTargetsAreReady es" and beh: "promoted_behind ?p ?v envs ?s t" for t
    proof -
      from beh obtain mid e post spec d where
        envs: "envs = mid @ e # post" "\<forall>m \<in> set mid. env_in_sync ?p ?v m" "env_lags ?p ?v e"
        and prom: "spec_Promotion (p_Spec ?p) = Some spec"
          "trace t = trace ?s @ CallPromote spec (promotion_request ?p e ?v) # d" "list_all quiet d"
        unfolding promoted_behind_def promoted_def by blast
      have rec: "recorded p firstEnv = es_Targets es" by (rule recorded_lookup [OF Some])
      have "promotable ?p e ?v"
        unfolding promotable_def
        using Cons envs ready same_revision_iff [of es ?v] rec
        by (intro exI [of _ firstEnv] exI [of _ mid] exI [of _ post])
           (auto simp: env_in_sync_def check_defs)
      with prom show ?thesis
        by (intro promotes_when_due_one [of _ _ "[]" _ ?p spec e ?v d]) simp_all
    qed
    moreover have "wp (promoteLoop r ?p ?v envs)
        (\<lambda>x t. trace t = trace ?s \<or> promoted_behind ?p ?v envs ?s t) ?s"
      by (rule promoteLoop_trace [OF assms])
    ultimately show ?thesis
      using Cons Some
      by (auto simp: promoteStage_def wp_rules op_defs quietly split: sum.split
          intro: promotes_when_due_none [of _ _ "[CallPatch (r_ControllerName r) ?p]"] elim!: wp_mono)
  qed
qed

text \<open>Programs that promote only when due compose.\<close>

definition dutiful :: "string \<Rightarrow> ('w sys, 'a) state \<Rightarrow> bool" where
  "dutiful owner m \<longleftrightarrow> (\<forall>s. wp m (\<lambda>_ t. promotes_when_due owner s t) s)"

abbreviation no_promote :: "call \<Rightarrow> bool" where
  "no_promote c \<equiv> \<not> is_promote c"

lemma dutiful_return: "dutiful owner (result a)"
  unfolding dutiful_def by (simp add: wp_rules promotes_when_due_none [of _ _ "[]"])

lemma dutiful_bind:
  assumes "emits no_promote m" and "\<And>a. dutiful owner (k a)"
  shows "dutiful owner (State_Monad.bind m k)"
  unfolding dutiful_def wp_bind
proof
  fix s
  obtain a s' where run: "run_state m s = (a, s')" by fastforce
  with assms(1) obtain d where "trace s' = trace s @ d" "list_all no_promote d"
    by (rule emits_runE)
  with assms(2) [of a] run show "wp m (\<lambda>a. wp (k a) (\<lambda>_ t. promotes_when_due owner s t)) s"
    by (auto simp: wp_def [of m] dutiful_def intro: wp_mono promotes_when_due_after)
qed

lemma dutiful_case_sum:
  "(\<And>e. dutiful owner (m e)) \<Longrightarrow> (\<And>a. dutiful owner (n a))
     \<Longrightarrow> dutiful owner (case x of Inl e \<Rightarrow> m e | Inr a \<Rightarrow> n a)"
  by (cases x) simp_all

lemma dutiful_if: "dutiful owner m \<Longrightarrow> dutiful owner n \<Longrightarrow> dutiful owner (if b then m else n)"
  by simp

lemma dutiful_case_prod:
  "(\<And>a b. dutiful owner (m a b)) \<Longrightarrow> dutiful owner (case x of (a, b) \<Rightarrow> m a b)"
  by (cases x) simp

lemmas dutiful_intros = dutiful_return dutiful_bind dutiful_case_sum dutiful_if dutiful_case_prod

lemma quiet_no_promote: "emits quiet m \<Longrightarrow> emits no_promote m"
  by (erule emits_mono) simp

lemma Reconcile_dutiful:
  assumes "list_all promotion_strategy (r_stratReg r)"
  shows "dutiful (r_ControllerName r) (Reconcile r L K req)"
proof -
  have stage: "dutiful (r_ControllerName r) (promoteStage r L K p)" for p
    using promoteStage_trace [OF assms] by (simp add: dutiful_def)
  show ?thesis
    unfolding Reconcile_def statusStage_def
    by (intro dutiful_intros stage quiet_no_promote [OF reconcileEnvs_quiet]
        quiet_no_promote [OF emitEventf_quiet] emits_intros; simp)
qed

section \<open>No panic on a well-formed Pipeline\<close>

text \<open>An environment exists, and an environment has a promotion of its own only if the
  pipeline has a default one.\<close>

definition well_formed :: "Pipeline \<Rightarrow> bool" where
  "well_formed p \<longleftrightarrow>
     spec_Environments (p_Spec p) \<noteq> [] \<and>
     (\<forall>e \<in> set (spec_Environments (p_Spec p)). env_Promotion e \<noteq> None \<longrightarrow> spec_Promotion (p_Spec p) \<noteq> None)"

lemma GetPromotion_default:
  assumes "well_formed p" and "GetPromotion (p_Spec p) n = Some pr"
  shows "spec_Promotion (p_Spec p) \<noteq> None"
proof (cases "GetPromotion_loop (spec_Environments (p_Spec p)) n")
  case None
  with assms(2) show ?thesis by (simp add: GetPromotion_def)
next
  case (Some q)
  then obtain e where "e \<in> set (spec_Environments (p_Spec p))" "env_Promotion e \<noteq> None"
    by (auto simp: GetPromotion_loop_Some) (metis nth_mem option.simps(3))
  with assms(1) show ?thesis by (auto simp: well_formed_def)
qed

lemma promoteLatestRevision_returns:
  "well_formed p \<Longrightarrow> wp (promoteLatestRevision r p e v) (\<lambda>x _. panics_only (may_panic (r_stratReg r)) x) s"
  using GetPromotion_default [of p "env_Name e"]
  by (auto simp: promoteLatestRevision_def wp_rules split: option.splits sum.splits outcome.splits
      intro!: wp_mono [OF registered_wp])

lemma promoteLoop_returns:
  assumes "well_formed p"
    and "\<And>e. e \<in> set envs \<Longrightarrow> envs_lookup (p_Status p) (env_Name e) \<noteq> None"
  shows "wp (promoteLoop r p v envs) (\<lambda>x _. panics_only (may_panic (r_stratReg r)) x) s"
  using assms(2)
proof (induction envs arbitrary: s)
  case (Cons e envs)
  then obtain es where es: "envs_lookup (p_Status p) (env_Name e) = Some es" by fastforce
  show ?case
    using Cons es
    by (auto simp: wp_rules split: outcome.splits option.splits
        intro!: wp_mono [OF promoteLatestRevision_returns [OF assms(1)]])
qed (simp add: wp_rules)

lemma promoteStage_returns:
  assumes "well_formed p"
    and lookup: "\<And>e. e \<in> set (spec_Environments (p_Spec p)) \<Longrightarrow> envs_lookup (p_Status p) (env_Name e) \<noteq> None"
  shows "wp (promoteStage r L K p) (\<lambda>x _. panics_only (may_panic (r_stratReg r)) x) s"
proof -
  obtain firstEnv envs where envs: "spec_Environments (p_Spec p) = firstEnv # envs"
    using assms(1) by (cases "spec_Environments (p_Spec p)") (auto simp: well_formed_def)
  then obtain es where es: "envs_lookup (p_Status p) (env_Name firstEnv) = Some es"
    using lookup by fastforce
  have "well_formed (removePendingCondition L p)" using assms(1) by (simp add: well_formed_def)
  then have "wp (promoteLoop r (removePendingCondition L p) v envs) (\<lambda>x _. panics_only (may_panic (r_stratReg r)) x) t" for v t
    using lookup envs by (intro promoteLoop_returns) auto
  with envs es show ?thesis
    by (auto simp: promoteStage_def wp_rules op_defs split: sum.split)
qed

lemma readyStatus_frame [simp]:
  "p_Spec (readyStatus L p m u) = p_Spec p"
  "p_Name (readyStatus L p m u) = p_Name p"
  "p_Namespace (readyStatus L p m u) = p_Namespace p"
  "p_Generation (readyStatus L p m u) = p_Generation p"
  "envs_lookup (p_Status (readyStatus L p m u)) = m"
  by (auto simp: readyStatus_def envs_lookup_def fun_eq_iff)

lemma Reconcile_returns:
  assumes "\<And>p. fst (pf_GetPipeline K req (world s)) = Inr p \<Longrightarrow> well_formed p"
  shows "wp (Reconcile r L K req) (\<lambda>x _. panics_only (may_panic (r_stratReg r)) x) s"
proof (cases "fst (pf_GetPipeline K req (world s))")
  case (Inl err)
  then show ?thesis by (simp add: Reconcile_def wp_rules op_defs)
next
  case (Inr p)
  then have wf: "well_formed p" by (rule assms)
  have stage: "wp (promoteStage r L K (readyStatus L p m u)) (\<lambda>x _. panics_only (may_panic (r_stratReg r)) x) t"
    if "envs_read L p (spec_Environments (p_Spec p)) m u" for m u t
    using that wf by (intro promoteStage_returns) (auto simp: envs_read_def well_formed_def domIff)
  show ?thesis
  proof (cases "DeletionTimestamp_IsZero p")
    case False
    with Inr show ?thesis by (simp add: Reconcile_def wp_rules op_defs)
  next
    case True
    show ?thesis
      unfolding Reconcile_def wp_rules op_defs Inr sum.case
      using True
      by (auto simp: statusStage_def wp_rules op_defs emitEventf_def split: sum.splits
          intro!: wp_runI [of "reconcileEnvs _ _ _ _ _ _ _"] stage dest: reconcileEnvs_read_run)
  qed
qed

section \<open>What is written to the status\<close>

text \<open>The status records the generation seen, one entry per environment with the statuses of
  its targets, and a \<open>Ready\<close> condition that is false exactly when a target could not be
  read.\<close>

definition status_faithful :: "Lib \<Rightarrow> Pipeline \<Rightarrow> Pipeline \<Rightarrow> bool" where
  "status_faithful L p p' \<longleftrightarrow>
     p_Spec p' = p_Spec p \<and> Pipeline_key p' = Pipeline_key p \<and>
     ps_ObservedGeneration (p_Status p') = p_Generation p \<and>
     (\<exists>m unready. ps_Environments (p_Status p') = Some m \<and>
        envs_read L p (spec_Environments (p_Spec p)) m unready \<and>
        FindStatusCondition (ps_Conditions (p_Status p')) ReadyCondition = Some (readyCondition unready))"

lemma pending_not_ready [simp]:
  "PromotionPendingCondition \<noteq> ReadyCondition" "ReadyCondition \<noteq> PromotionPendingCondition"
  by (simp_all add: PromotionPendingCondition_def ReadyCondition_def)

lemma status_faithful_ready:
  assumes "condition_laws L" and "envs_read L p (spec_Environments (p_Spec p)) m u"
  shows "status_faithful L p (readyStatus L p m u)"
  using assms by (auto simp: status_faithful_def readyStatus_def condition_laws_def Pipeline_key_def
      readyCondition_def)

lemma status_faithful_pending:
  assumes "condition_laws L" and "status_faithful L p q"
  shows "status_faithful L p (setPendingCondition L q reason msg)"
    and "status_faithful L p (removePendingCondition L q)"
  using assms
  by (auto simp: status_faithful_def setPendingCondition_def removePendingCondition_def
      condition_laws_def Pipeline_key_def)

definition faithful_call :: "Lib \<Rightarrow> Pipeline \<Rightarrow> call \<Rightarrow> bool" where
  "faithful_call L p c \<longleftrightarrow> \<not> is_write c \<or> (\<exists>owner p'. c = CallPatch owner p' \<and> status_faithful L p p')"

lemma promoteLoop_no_write:
  assumes "list_all promotion_strategy (r_stratReg r)"
  shows "emits (\<lambda>c. \<not> is_write c) (promoteLoop r p v envs)"
proof -
  have "emits (\<lambda>c. \<not> is_write c) (strat_Promote st spec prom)" if "promotion_strategy st" for st spec prom
    by (rule promotion_strategy.promote_no_write [OF that])
  then have "emits (\<lambda>c. \<not> is_write c) (promoteLatestRevision r p e v)" for e
    using assms Registry_Get_set [of "r_stratReg r"]
    by (fastforce simp: promoteLatestRevision_def list_all_iff split: option.split sum.split
        intro: emits_intros)
  then show ?thesis
    by (induction envs) (auto intro!: emits_intros split: option.split)
qed

lemma promoteStage_faithful:
  assumes "list_all promotion_strategy (r_stratReg r)" and "condition_laws L"
    and "status_faithful L p q"
  shows "emits (faithful_call L p) (promoteStage r L K q)"
  using status_faithful_pending [OF assms(2,3)]
  unfolding promoteStage_def
  by (intro emits_intros emits_mono [OF promoteLoop_no_write [OF assms(1)]])
     (auto simp: faithful_call_def)

lemma quiet_faithful: "emits quiet m \<Longrightarrow> emits (faithful_call L p) m"
  by (erule emits_mono) (auto simp: faithful_call_def)

lemma statusStage_faithful:
  assumes "list_all promotion_strategy (r_stratReg r)" and "condition_laws L"
    and "status_faithful L p q"
  shows "emits (faithful_call L p) (statusStage r L K q)"
  using assms unfolding statusStage_def
  by (intro emits_intros quiet_faithful [OF emitEventf_quiet] promoteStage_faithful)
     (auto simp: faithful_call_def)

lemma Reconcile_faithful:
  assumes "list_all promotion_strategy (r_stratReg r)" and "condition_laws L"
    and "fst (pf_GetPipeline K req (world s)) = Inr p"
  shows "wp (Reconcile r L K req) (\<lambda>_ t. grew (faithful_call L p) s t) s"
proof -
  let ?s = "s\<lparr>world := snd (pf_GetPipeline K req (world s)), trace := trace s @ [CallGetPipeline req]\<rparr>"
  have first: "grew (faithful_call L p) s ?s" by (rule grew_step) (simp add: faithful_call_def)
  have read: "grew (faithful_call L p) s t"
    if "run_state (reconcileEnvs r L K p (spec_Environments (p_Spec p)) Map.empty False) ?s = (x, t)" for x t
    by (rule grew_trans [OF first emits_grew [OF quiet_faithful [OF reconcileEnvs_quiet] that]])
  have written: "wp (statusStage r L K (readyStatus L p m u)) (\<lambda>_ t. grew (faithful_call L p) s t) s1"
    if "run_state (reconcileEnvs r L K p (spec_Environments (p_Spec p)) Map.empty False) ?s = (Inr (m, u), s1)"
    for m u s1
    by (rule wp_mono [OF wp_grew [OF statusStage_faithful
          [OF assms(1,2) status_faithful_ready [OF assms(2) reconcileEnvs_read_run [OF that]]]]])
       (rule grew_trans [OF read [OF that]])
  show ?thesis
  proof (cases "DeletionTimestamp_IsZero p")
    case False
    with assms(3) first show ?thesis by (simp add: Reconcile_def wp_rules op_defs)
  next
    case True
    have "wp (reconcileEnvs r L K p (spec_Environments (p_Spec p)) Map.empty False)
        (\<lambda>x. wp (case x of Inl err \<Rightarrow> result (Returned (zero_Result, Some err))
               | Inr (m, u) \<Rightarrow> statusStage r L K (readyStatus L p m u))
           (\<lambda>_ t. grew (faithful_call L p) s t)) ?s"
      by (rule wp_runI) (auto simp: wp_rules read written split: sum.split)
    with assms(3) True show ?thesis by (simp add: Reconcile_def wp_rules op_defs)
  qed
qed

section \<open>A promotion that is due is made\<close>

text \<open>The strategy that \<open>promoteLatestRevision\<close> calls for an environment, with the
  promotion it passes on.\<close>

definition chosen_strategy ::
  "'w PipelineReconciler \<Rightarrow> Pipeline \<Rightarrow> Environment \<Rightarrow> ('w strategy \<times> Promotion) option"
where
  "chosen_strategy r p e =
     (case GetPromotion (p_Spec p) (env_Name e) of
        None \<Rightarrow> None
      | Some promotion \<Rightarrow>
          (case (Registry_Get (r_stratReg r) promotion, spec_Promotion (p_Spec p)) of
             (Inr st, Some spec) \<Rightarrow> Some (st, spec)
           | _ \<Rightarrow> None))"

lemma chosen_strategy_SomeD:
  assumes "chosen_strategy r p e = Some (st, spec)"
  obtains promotion where "GetPromotion (p_Spec p) (env_Name e) = Some promotion"
    and "Registry_Get (r_stratReg r) promotion = Inr st" and "spec_Promotion (p_Spec p) = Some spec"
  using assms by (auto simp: chosen_strategy_def split: option.splits sum.splits)

lemma chosen_strategy_registered:
  "list_all promotion_strategy (r_stratReg r) \<Longrightarrow> chosen_strategy r p e = Some (st, spec)
     \<Longrightarrow> promotion_strategy st"
  by (elim chosen_strategy_SomeD) (use Registry_Get_set in \<open>fastforce simp: list_all_iff\<close>)

lemma promoteLatestRevision_promotes:
  assumes "list_all promotion_strategy (r_stratReg r)" and "chosen_strategy r p e = Some (st, spec)"
  shows "CallPromote spec (promotion_request p e v) \<in> set (trace (exec (promoteLatestRevision r p e v) s))"
proof -
  from assms have st: "promotion_strategy st" by (rule chosen_strategy_registered)
  obtain d where "trace (exec (strat_Promote st spec (promotion_request p e v)) s)
      = trace s @ CallPromote spec (promotion_request p e v) # d"
    using promotion_strategy.promote_trace [OF st] by blast
  with assms(2) show ?thesis
    by (elim chosen_strategy_SomeD)
       (auto simp: promoteLatestRevision_def split: sum.split prod.split outcome.split)
qed

lemma promoteLoop_promotes:
  assumes "list_all promotion_strategy (r_stratReg r)" and "chosen_strategy r p e = Some (st, spec)"
    and "\<And>f. f \<in> set (mid @ e # post) \<Longrightarrow> envs_lookup (p_Status p) (env_Name f) \<noteq> None"
    and "\<And>m. m \<in> set mid \<Longrightarrow> env_in_sync p v m" and "env_lags p v e"
  shows "CallPromote spec (promotion_request p e v)
           \<in> set (trace (exec (promoteLoop r p v (mid @ e # post)) s))"
  using assms(3,4)
proof (induction mid)
  case Nil
  then obtain es where es: "envs_lookup (p_Status p) (env_Name e) = Some es" by fastforce
  with lags_iff [OF es, of v] assms(5)
    promoteLatestRevision_promotes [OF assms(1,2), of v s]
  show ?case
    by (auto split: outcome.splits option.splits prod.splits)
next
  case (Cons m mid)
  then obtain es where es: "envs_lookup (p_Status p) (env_Name m) = Some es" by fastforce
  with Cons in_sync_iff [OF es, of v] show ?case by simp
qed

lemma chosen_strategy_frame [simp]:
  "chosen_strategy r (removePendingCondition L p) = chosen_strategy r p"
  unfolding chosen_strategy_def removePending_frame ..

lemma promoteStage_promotes:
  assumes "list_all promotion_strategy (r_stratReg r)" and "chosen_strategy r p e = Some (st, spec)"
    and lookup: "\<And>f. f \<in> set (spec_Environments (p_Spec p)) \<Longrightarrow> envs_lookup (p_Status p) (env_Name f) \<noteq> None"
    and "promotable p e v"
    and patch: "fst (pf_Patch K (r_ControllerName r) (removePendingCondition L p) (world s)) = Inr ()"
  shows "CallPromote spec (promotion_request p e v) \<in> set (trace (exec (promoteStage r L K p) s))"
proof -
  let ?p = "removePendingCondition L p"
  from assms(4) obtain first mid post where
    envs: "spec_Environments (p_Spec p) = first # mid @ e # post"
    and v: "v \<noteq> ''''" "recorded p first \<noteq> []" "env_in_sync p v first"
    and sync: "\<And>m. m \<in> set mid \<Longrightarrow> env_in_sync p v m" and lags: "env_lags p v e"
    unfolding promotable_def by blast
  from lookup envs obtain es where es: "envs_lookup (p_Status p) (env_Name first) = Some es" by fastforce
  have rev: "checkAllTargetsHaveSameRevision es = v" and ready: "checkAllTargetsAreReady es"
    using same_revision_iff [of es v] v recorded_lookup [OF es] by (auto simp: env_in_sync_def check_defs)
  have sync': "env_in_sync ?p v m" if "m \<in> set mid" for m
    using sync [OF that] by (simp add: env_in_sync_def)
  have "CallPromote spec (promotion_request ?p e v)
      \<in> set (trace (exec (promoteLoop r ?p v (mid @ e # post)) t))" for t
    by (rule promoteLoop_promotes [OF assms(1)])
       (use assms(2) lookup envs sync' lags in \<open>auto simp: env_lags_def\<close>)
  with envs es rev ready v(1) patch show ?thesis
    by (simp add: promoteStage_def op_defs run_perform)
qed

lemma Reconcile_promotes_run:
  assumes "list_all promotion_strategy (r_stratReg r)"
    and "pf_GetPipeline K req (world s) = (Inr p, w)" and "DeletionTimestamp_IsZero p"
    and read: "run_state (reconcileEnvs r L K p (spec_Environments (p_Spec p)) Map.empty False)
        (s\<lparr>world := w, trace := trace s @ [CallGetPipeline req]\<rparr>) = (Inr (m, u), s1)"
    and patch: "\<And>owner q w. fst (pf_Patch K owner q w) = Inr ()"
    and "promotable (readyStatus L p m u) e v"
    and "chosen_strategy r p e = Some (st, spec)"
  shows "CallPromote spec (promotion_request p e v) \<in> set (trace (exec (Reconcile r L K req) s))"
proof -
  let ?q = "readyStatus L p m u"
  have "envs_lookup (p_Status ?q) (env_Name f) \<noteq> None" if "f \<in> set (spec_Environments (p_Spec ?q))" for f
    using that reconcileEnvs_read_run [OF read] by (auto simp: envs_read_def domIff)
  moreover have "chosen_strategy r ?q e = Some (st, spec)"
    using assms(7) by (simp only: chosen_strategy_def readyStatus_frame)
  ultimately have stage: "CallPromote spec (promotion_request ?q e v)
      \<in> set (trace (exec (promoteStage r L K ?q) t))" for t
    by (intro promoteStage_promotes [OF assms(1)] patch assms(6))
  show ?thesis
    using assms(2,3) read patch [of "r_ControllerName r" ?q] stage
    by (auto simp: Reconcile_def statusStage_def op_defs run_perform split: prod.splits sum.splits)
qed

section \<open>Paths that write nothing\<close>

lemma Reconcile_read_error:
  assumes "pf_GetPipeline K req (world s) = (Inr p, w)" and "DeletionTimestamp_IsZero p"
    and "run_state (reconcileEnvs r L K p (spec_Environments (p_Spec p)) Map.empty False)
        (s\<lparr>world := w, trace := trace s @ [CallGetPipeline req]\<rparr>) = (Inl err, t)"
  shows "run_state (Reconcile r L K req) s = (Returned (zero_Result, Some err), t)" and "grew quiet s t"
proof -
  let ?s = "s\<lparr>world := w, trace := trace s @ [CallGetPipeline req]\<rparr>"
  show "run_state (Reconcile r L K req) s = (Returned (zero_Result, Some err), t)"
    using assms by (simp add: Reconcile_def op_defs run_perform)
  have "grew quiet s ?s" by (rule grew_step) simp
  then show "grew quiet s t"
    by (rule grew_trans) (rule emits_grew [OF reconcileEnvs_quiet assms(3)])
qed

section \<open>Properties\<close>

text \<open>The reconciler of the examples: it records events and knows the notification strategy.\<close>

definition sample_reconciler :: "store PipelineReconciler" where
  "sample_reconciler =
     \<lparr>r_ControllerName = ''pipeline'', r_recorder = True, r_stratReg = [Notification mem_platform],
      r_localClusterConfig = ''local''\<rparr>"

abbreviation sample_run :: "reconcile_result \<times> store sys" where
  "sample_run \<equiv> run_state (Reconcile sample_reconciler mem_lib mem_platform sample_key) sample_sys"

lemma sample_strategies: "list_all promotion_strategy (r_stratReg sample_reconciler)"
  by (simp add: sample_reconciler_def notification.promotion_strategy_axioms)

lemma sample_reconciler_simps [simp]:
  "r_ControllerName sample_reconciler = ''pipeline''" "r_recorder sample_reconciler"
  "r_stratReg sample_reconciler = [Notification mem_platform]"
  "r_localClusterConfig sample_reconciler = ''local''"
  by (simp_all add: sample_reconciler_def)

lemma sample_app_status [simp]:
  "setTargetStatus mem_lib st (AppUnstructured (sample_app v)) = st\<lparr>ts_Ready := True, ts_Revision := v\<rparr>"
  by (simp add: setTargetStatus_def sample_app_def mem_NestedSlice_def mem_NestedString_def)

lemma sample_ParseGroupVersion [simp]: "mem_ParseGroupVersion ''helm/v2'' = Inr (''helm'', ''v2'')"
  by (simp add: mem_ParseGroupVersion_def)

lemmas read_defs = reconcileTarget_def readApplication_def targetObject_def WithKind_def
  watchTargetAndGetReader_def obtain_entry_def create_cache_def cluster_config_def gc_register_def
  watch_type_def cluster_key_of_def emitEventf_def op_defs run_perform mem_new_def
  initialTargetStatus_def Let_def

lemmas stage_defs = Reconcile_def statusStage_def promoteStage_def promoteLatestRevision_def
  readyStatus_def envs_lookup_def removePendingCondition_def checkAllTargetsHaveSameRevision_def
  check_defs mem_write_def mem_replace_def strat_Promote_def GetPromotion_def Notification_def
  Notification_Handles_def Notification_Promote_def sample_promotion_def Pipeline_key_def

definition sample_target_status :: "string \<Rightarrow> EnvironmentStatus" where
  "sample_target_status v =
     \<lparr>es_WaitingApproval = zero_WaitingApproval,
      es_Targets = [(initialTargetStatus sample_pipeline \<lparr>tgt_Namespace = ''dev'', tgt_ClusterRef = None\<rparr>)
                      \<lparr>ts_Ready := True, ts_Revision := v\<rparr>]\<rparr>"

abbreviation sample_statuses :: "string \<rightharpoonup> EnvironmentStatus" where
  "sample_statuses \<equiv> [''dev'' \<mapsto> sample_target_status ''v2'', ''prod'' \<mapsto> sample_target_status ''v1'']"

abbreviation sample_got :: "store sys" where
  "sample_got \<equiv> sample_sys\<lparr>world := sample_store, trace := trace sample_sys @ [CallGetPipeline sample_key]\<rparr>"

lemma sample_read:
  "value_of (reconcileEnvs sample_reconciler mem_lib mem_platform sample_pipeline
      (spec_Environments (p_Spec sample_pipeline)) Map.empty False) sample_got
     = Inr (sample_statuses, False)"
  by (simp add: read_defs sample_target_status_def)

text \<open>C1. One run of \<open>Reconcile\<close> calls a promotion strategy at most once. If it does, the
  call directly follows a write of the pipeline's status, and by that status the promotion is
  due: every target of the first environment is ready on one non-empty revision, every
  environment before the promoted one runs it and is ready, and no target of the promoted
  environment has it yet. The request names this pipeline, environment and revision.\<close>

theorem Reconcile_promotes_when_due:
  assumes "list_all promotion_strategy (r_stratReg r)"
  shows "promotes_when_due (r_ControllerName r) s (exec (Reconcile r L K req) s)"
  using Reconcile_dutiful [OF assms] by (simp add: dutiful_def wp_exec)

theorem Reconcile_promotes_when_due_witness:
  "promotes_when_due ''pipeline'' sample_sys (snd sample_run) \<and>
   list_ex is_promote (trace (snd sample_run))"
proof
  show "promotes_when_due ''pipeline'' sample_sys (snd sample_run)"
    using Reconcile_promotes_when_due [OF sample_strategies, of sample_sys mem_lib mem_platform sample_key]
    by simp
  show "list_ex is_promote (trace (snd sample_run))"
    by (simp add: read_defs stage_defs)
qed





text \<open>C24. On a pipeline that has an environment and whose environments have a promotion of
  their own only when the pipeline has a default one, \<open>Reconcile\<close> panics only if a
  registered strategy does; it always returns when the registered strategies do.\<close>

theorem Reconcile_no_panic:
  assumes "\<And>p. fst (pf_GetPipeline K req (world s)) = Inr p \<Longrightarrow> well_formed p"
  shows "panics_only (may_panic (r_stratReg r)) (value_of (Reconcile r L K req) s) \<and>
         (list_all total_strategy (r_stratReg r) \<longrightarrow> returns (value_of (Reconcile r L K req) s))"
proof -
  have "panics_only (may_panic (r_stratReg r)) (value_of (Reconcile r L K req) s)"
    using Reconcile_returns [OF assms] by (simp add: wp_exec)
  then show ?thesis
    using panics_only_returns total_strategies_no_panic by blast
qed

theorem Reconcile_no_panic_witness:
  "returns (fst sample_run) \<and> well_formed sample_pipeline"
proof
  show wf: "well_formed sample_pipeline" by (simp add: well_formed_def)
  show "returns (fst sample_run)"
    using Reconcile_no_panic [of mem_platform sample_key sample_sys sample_reconciler mem_lib] wf
    by (simp add: notification.total_strategy_axioms)
qed


text \<open>The sample pipeline without environments, and with a promotion in \<open>prod\<close> only.\<close>

definition empty_pipeline :: Pipeline where
  "empty_pipeline =
     sample_pipeline\<lparr>p_Spec := (p_Spec sample_pipeline)\<lparr>spec_Environments := []\<rparr>\<rparr>"

definition env_only_pipeline :: Pipeline where
  "env_only_pipeline =
     sample_pipeline\<lparr>p_Spec := (p_Spec sample_pipeline)\<lparr>spec_Promotion := None,
       spec_Environments := [sample_env ''dev'', (sample_env ''prod'')\<lparr>env_Promotion := Some sample_promotion\<rparr>]\<rparr>\<rparr>"



text \<open>A store whose first target names a cluster that the API server fails to return.\<close>

definition flaky_platform :: "store Platform" where
  "flaky_platform = mem_platform\<lparr>pf_GetCluster := (\<lambda>key w. (Inl (ApiError False ''timeout''), w))\<rparr>"

definition remote_pipeline :: Pipeline where
  "remote_pipeline =
     sample_pipeline\<lparr>p_Spec := (p_Spec sample_pipeline)\<lparr>spec_Environments :=
       [\<lparr>env_Name = ''dev'', env_Targets = [\<lparr>tgt_Namespace = ''dev'', tgt_ClusterRef = Some
           \<lparr>ccr_APIVersion = '''', ccr_Kind = ''GitopsCluster'', ccr_Name = ''c'', ccr_Namespace = ''''\<rparr>\<rparr>],
         env_Promotion = None\<rparr>]\<rparr>\<rparr>"


end
