(* ===== verification/Approval_Lifecycle.thy ===== *)
theory Approval_Lifecycle
  imports Webhook_Service Level_Promotion
begin

text \<open>
  The way of a manual promotion through the components: the promotion webhook notes the revision
  in the status, the approval webhook promotes it, and a level-triggered reconciliation may come
  in between. The parts meet in the API server, which is assumed to store what is written to it
  (\<open>api_store\<close>); the theorems about the whole way are in the root theory.
\<close>

section \<open>The API server as a store\<close>

definition pipelines_of :: "'w Platform \<Rightarrow> 'w \<Rightarrow> ObjectKey \<Rightarrow> go_error + Pipeline" where
  "pipelines_of K w key = fst (pf_GetPipeline K key w)"

text \<open>Documented behaviour of the API: reading changes nothing, an object is found under its own
  key, and after an update of the status that object has the new status and no other object has
  changed.\<close>

definition api_store :: "'w Platform \<Rightarrow> bool" where
  "api_store K \<longleftrightarrow>
     (\<forall>key w. pipelines_of K (snd (pf_GetPipeline K key w)) = pipelines_of K w) \<and>
     (\<forall>key w. pipelines_of K (snd (pf_GetSecret K key w)) = pipelines_of K w) \<and>
     (\<forall>key p w. pipelines_of K w key = Inr p \<longrightarrow> Pipeline_key p = key) \<and>
     (\<forall>p st w. pipelines_of K w (Pipeline_key p) = Inr p \<longrightarrow>
        fst (pf_StatusUpdate K (p\<lparr>p_Status := st\<rparr>) w) = Inr () \<and>
        pipelines_of K (snd (pf_StatusUpdate K (p\<lparr>p_Status := st\<rparr>) w)) =
          (pipelines_of K w)(Pipeline_key p := Inr (p\<lparr>p_Status := st\<rparr>)))"

lemma Pipeline_key_status [simp]: "Pipeline_key (p\<lparr>p_Status := st\<rparr>) = Pipeline_key p"
  by (simp add: Pipeline_key_def)

lemma authentic_status [simp]: "authentic H K (p\<lparr>p_Status := st\<rparr>) hdr body w = authentic H K p hdr body w"
  by (simp add: authentic_def)

lemma api_store_key: "api_store K \<Longrightarrow> pipelines_of K w key = Inr p \<Longrightarrow> Pipeline_key p = key"
  unfolding api_store_def by blast

text \<open>Both handlers change the status the same way: read it again, change it, write it.\<close>

definition modify_status ::
  "'w Platform \<Rightarrow> ObjectKey \<Rightarrow> (PipelineStatus \<Rightarrow> PipelineStatus) \<Rightarrow> ('w sys, go_error + unit) state" where
  "modify_status K key f =
     do { g \<leftarrow> client_GetPipeline K key;
          case g of
            Inl err \<Rightarrow> result (Inl err)
          | Inr p \<Rightarrow> client_StatusUpdate K (p\<lparr>p_Status := f (p_Status p)\<rparr>) }"

lemma modify_status_eqs:
  "handler_setWaitingApproval K p env v = modify_status K (Pipeline_key p) (\<lambda>st. SetWaitingApproval st env v)"
  "resetWaitingApproval K p env = modify_status K (Pipeline_key p) (\<lambda>st. ResetWaitingApproval st env)"
  by (simp_all add: handler_setWaitingApproval_def resetWaitingApproval_def modify_status_def)

lemma modify_status_stores:
  assumes K: "api_store K" and p: "pipelines_of K (world s) key = Inr p"
  obtains t where "run_state (modify_status K key f) s = (Inr (), t)"
    "effects t = effects s @ [CallStatusUpdate (p\<lparr>p_Status := f (p_Status p)\<rparr>)]"
    "pipelines_of K (world t) = (pipelines_of K (world s))(key := Inr (p\<lparr>p_Status := f (p_Status p)\<rparr>))"
proof -
  let ?q = "p\<lparr>p_Status := f (p_Status p)\<rparr>"
  obtain w where w: "pf_GetPipeline K key (world s) = (Inr p, w)"
    using p by (metis pipelines_of_def prod.collapse)
  have view: "pipelines_of K w = pipelines_of K (world s)"
    using K w unfolding api_store_def by (metis snd_conv)
  have key: "Pipeline_key p = key" by (rule api_store_key [OF K p])
  obtain w' where w': "pf_StatusUpdate K ?q w = (Inr (), w')"
    "pipelines_of K w' = (pipelines_of K w)(key := Inr ?q)"
    using K p view key unfolding api_store_def by (metis prod.collapse)
  let ?t = "s\<lparr>world := w', trace := trace s @ [CallGetPipeline key, CallStatusUpdate ?q]\<rparr>"
  have "run_state (modify_status K key f) s = (Inr (), ?t)"
    by (simp add: modify_status_def op_defs run_perform w w')
  then show thesis
    by (rule that) (simp_all add: calls_of_def w'(2) view)
qed

lemma verified_view:
  assumes K: "api_store K"
  shows "pipelines_of K (world (verified_state W K p hdr body key (snd (pf_GetPipeline K key (world s))) s)) =
           pipelines_of K (world s)"
proof -
  have "pipelines_of K (world (exec (verifyXSignature H K p hdr body) t)) = pipelines_of K (world t)" for H t
    using K
    by (auto simp: verifyXSignature_def op_defs run_perform api_store_def Let_def
        split: option.splits list.splits sum.splits)
  then show ?thesis using K by (simp add: api_store_def)
qed

section \<open>The two requests\<close>

lemma manual_request_stores:
  assumes K: "api_store K" and p: "pipelines_of K (world s) key = Inr p"
    and req: "rq_Method r = ''POST''" "path_match 3 (rq_Path r) = Some [ok_Namespace key, ok_Name key, env]"
      "rq_Body r = Inr body" "\<And>w. authentic (wl_Sign W) K p (rq_Header r) body w"
    and ask: "asks_for W p key env body spec prom" "pr_Manual spec"
  obtains t where "run_state (PromotionHandler_ServeHTTP h W K r) s = (respond StatusNoContent '''', t)"
    "effects t = effects s @ [CallStatusUpdate (p\<lparr>p_Status :=
        SetWaitingApproval (p_Status p) (env_Name (sp_Environment prom)) (sp_Version prom)\<rparr>)]"
    "pipelines_of K (world t) = (pipelines_of K (world s))(key := Inr (p\<lparr>p_Status :=
        SetWaitingApproval (p_Status p) (env_Name (sp_Environment prom)) (sp_Version prom)\<rparr>))"
proof -
  let ?w = "snd (pf_GetPipeline K key (world s))"
  let ?s2 = "verified_state W K p (rq_Header r) body key ?w s"
  have get: "pf_GetPipeline K key (world s) = (Inr p, ?w)"
    using p by (metis pipelines_of_def prod.collapse)
  have "pipelines_of K (world ?s2) key = Inr p" using verified_view [OF K] p by metis
  then obtain t where t: "run_state (modify_status K key
      (\<lambda>st. SetWaitingApproval st (env_Name (sp_Environment prom)) (sp_Version prom))) ?s2 = (Inr (), t)"
    "effects t = effects ?s2 @ [CallStatusUpdate (p\<lparr>p_Status :=
        SetWaitingApproval (p_Status p) (env_Name (sp_Environment prom)) (sp_Version prom)\<rparr>)]"
    "pipelines_of K (world t) = (pipelines_of K (world ?s2))(key := Inr (p\<lparr>p_Status :=
        SetWaitingApproval (p_Status p) (env_Name (sp_Environment prom)) (sp_Version prom)\<rparr>))"
    by (rule modify_status_stores [OF K])
  have "run_state (promotion_event h W K p key env body) ?s2 = (respond StatusNoContent '''', t)"
    using t(1) ask(2) api_store_key [OF K p]
    by (simp add: run_promotion_event_asked [OF ask(1)] promotion_to_def modify_status_eqs)
  then have "run_state (PromotionHandler_ServeHTTP h W K r) s = (respond StatusNoContent '''', t)"
    by (simp only: run_PromotionHandler_verified [OF req(1-3) get req(4)])
  then show thesis
    by (rule that) (simp_all only: t effects_verified verified_view [OF K])
qed

lemma approval_stores:
  assumes K: "api_store K" and p: "pipelines_of K (world s) key = Inr p"
    and req: "rq_Method r = ''POST''" "path_match 4 (rq_Path r) = Some [ok_Namespace key, ok_Name key, env, revision]"
      "\<And>w. authentic (wl_Sign W) K p (rq_Header r) '''' w"
    and wait: "awaits p key env revision spec prom"
    and st: "Registry_Get (ah_stratReg h) spec = Inr st" "promotion_strategy st"
      "\<And>s q. pipelines_of K (world s) key = Inr q \<Longrightarrow> value_of (strat_Promote st spec prom) s = Returned (Inr res)"
      "\<And>s. pipelines_of K (world (exec (strat_Promote st spec prom) s)) = pipelines_of K (world s)"
  obtains t where "run_state (ApprovalHandler_ServeHTTP h W K r) s = (respond_result (Some res), t)"
    "effects t = effects s @ [CallPromote spec prom,
       CallStatusUpdate (p\<lparr>p_Status := ResetWaitingApproval (p_Status p) env\<rparr>)]"
    "pipelines_of K (world t) =
       (pipelines_of K (world s))(key := Inr (p\<lparr>p_Status := ResetWaitingApproval (p_Status p) env\<rparr>))"
proof -
  let ?w = "snd (pf_GetPipeline K key (world s))"
  let ?s2 = "verified_state W K p (rq_Header r) '''' key ?w s"
  have get: "pf_GetPipeline K key (world s) = (Inr p, ?w)"
    using p by (metis pipelines_of_def prod.collapse)
  obtain s3 where s3: "run_state (strat_Promote st spec prom) ?s2 = (Returned (Inr res), s3)"
    using st(3) [of ?s2 p] p verified_view [OF K] by (metis prod.collapse)
  have view: "pipelines_of K (world s3) = pipelines_of K (world s)"
    using st(4) [of ?s2] s3 verified_view [OF K] by (metis snd_conv)
  obtain t where t: "run_state (modify_status K key (\<lambda>st. ResetWaitingApproval st env)) s3 = (Inr (), t)"
    "effects t = effects s3 @ [CallStatusUpdate (p\<lparr>p_Status := ResetWaitingApproval (p_Status p) env\<rparr>)]"
    "pipelines_of K (world t) =
       (pipelines_of K (world s3))(key := Inr (p\<lparr>p_Status := ResetWaitingApproval (p_Status p) env\<rparr>))"
    by (rule modify_status_stores [OF K, of s3 key p]) (simp add: view p)
  obtain e where e: "wa_Revision (GetWaitingApproval (p_Status p) env) = revision"
    "lookupEnvironment p env = Inr e" "GetPromotion (p_Spec p) (env_Name e) = Some spec"
    "prom = \<lparr>sp_PipelineNamespace = ok_Namespace key, sp_PipelineName = ok_Name key,
             sp_Environment = e, sp_Version = revision\<rparr>"
    using wait unfolding awaits_def by blast
  have "run_state (approve h K p key env revision) ?s2 = (respond_result (Some res), t)"
    using e s3 t(1) st(1) api_store_key [OF K p]
    by (simp add: approve_def ApprovalHandler_promote_def modify_status_eqs)
  then have run: "run_state (ApprovalHandler_ServeHTTP h W K r) s = (respond_result (Some res), t)"
    by (simp only: run_ApprovalHandler_verified [OF req(1,2) get req(3)])
  have "effects s3 = effects s @ [CallPromote spec prom]"
    using effects_Promote [OF st(2), of spec prom ?s2] s3 by (simp add: effects_verified)
  with run show thesis
    using that t(2,3) view by simp
qed

lemma lookupEnvironment_status [simp]: "lookupEnvironment (p\<lparr>p_Status := st\<rparr>) env = lookupEnvironment p env"
  by (simp add: lookupEnvironment_def split: option.split)

text \<open>What an event asks for is what the approval of its revision gives, provided that the next
  environment is the first of its name.\<close>

lemma asks_for_awaits:
  assumes "asks_for W p key env body spec prom"
    and "lookupEnvironment p (env_Name (sp_Environment prom)) = Inr (sp_Environment prom)"
  shows "awaits (p\<lparr>p_Status := SetWaitingApproval (p_Status p) (env_Name (sp_Environment prom)) (sp_Version prom)\<rparr>)
           key (env_Name (sp_Environment prom)) (sp_Version prom) spec prom"
    "sp_Version prom \<noteq> ''''"
  using assms unfolding asks_for_def awaits_def
  by (auto simp: SetWaitingApproval_def status_app.get_put)

text \<open>When the pipeline does not wait for the revision, nothing is done.\<close>

lemma approval_refused:
  assumes "list_all promotion_strategy (ah_stratReg h)"
    and "path_match 4 (rq_Path r) = Some [ok_Namespace key, ok_Name key, env, revision]"
    and "fst (pf_GetPipeline K key (world s)) = Inr p"
    and "wa_Revision (GetWaitingApproval (p_Status p) env) \<noteq> revision"
  shows "effects (exec (ApprovalHandler_ServeHTTP h W K r) s) = effects s \<and>
         \<not> succeeded (value_of (ApprovalHandler_ServeHTTP h W K r) s)"
proof -
  have "\<not> approval_request W K r (world s) env' spec prom" for env' spec prom
  proof
    assume "approval_request W K r (world s) env' spec prom"
    then obtain key' rev' q w where q: "path_match 4 (rq_Path r) = Some [ok_Namespace key', ok_Name key', env', rev']"
      "pf_GetPipeline K key' (world s) = (Inr q, w)" "awaits q key' env' rev' spec prom"
      unfolding approval_request_def by blast
    then have "key' = key" "env' = env" "rev' = revision" using assms(2) by simp_all
    then show False using q(2,3) assms(3,4) by (simp add: awaits_def)
  qed
  moreover obtain env' where "approved_well (ah_stratReg h) (approval_request W K r (world s) env') env' s
      (value_of (ApprovalHandler_ServeHTTP h W K r) s) (exec (ApprovalHandler_ServeHTTP h W K r) s)"
    using ApprovalHandler_approved [OF assms(1), of W K r s] unfolding wp_exec by blast
  ultimately show ?thesis unfolding approved_well_def by blast
qed

lemma ResetWaitingApproval_revoked:
  "wa_Revision (GetWaitingApproval (ResetWaitingApproval st env) env) = ''''"
  by (simp add: ResetWaitingApproval_def status_app.get_put)

text \<open>A status that \<open>Reconcile\<close> has written holds no approval.\<close>

lemma faithful_no_approval:
  assumes "status_faithful L p p'"
  shows "wa_Revision (GetWaitingApproval (p_Status p') env) = ''''"
proof -
  obtain m u where m: "ps_Environments (p_Status p') = Some m"
    "envs_read L p (spec_Environments (p_Spec p)) m u"
    using assms unfolding status_faithful_def by blast
  then have "\<forall>es. m env = Some es \<longrightarrow> es_WaitingApproval es = zero_WaitingApproval"
    unfolding envs_read_def by blast
  then show ?thesis
    by (auto simp: GetWaitingApproval_def envs_lookup_def m(1) split: option.splits)
qed

section \<open>A store for the examples\<close>

lemma mem_find_key: "mem_find (\<lambda>p. Pipeline_key p = key) what ps = Inr p \<Longrightarrow> Pipeline_key p = key"
  by (induction ps) (auto split: if_splits)

lemma mem_find_replace_other:
  "key \<noteq> Pipeline_key q \<Longrightarrow>
     mem_find (\<lambda>p. Pipeline_key p = key) what (mem_replace q ps) = mem_find (\<lambda>p. Pipeline_key p = key) what ps"
  by (induction ps) (simp_all add: mem_replace_def)

lemma mem_find_replace:
  "mem_find (\<lambda>p. Pipeline_key p = Pipeline_key q) what ps = Inr p \<Longrightarrow>
     mem_find (\<lambda>p. Pipeline_key p = Pipeline_key q) what (mem_replace q ps) = Inr q"
  by (induction ps) (simp_all add: mem_replace_def split: if_splits)

lemma mem_api_store: "api_store mem_platform"
  unfolding api_store_def
proof (intro conjI allI impI)
  show "Pipeline_key p = key" if "pipelines_of mem_platform w key = Inr p" for key p w
    using that unfolding pipelines_of_def mem_platform_simps fst_conv by (rule mem_find_key)
  show "pipelines_of mem_platform (snd (pf_StatusUpdate mem_platform (p\<lparr>p_Status := st\<rparr>) w)) =
      (pipelines_of mem_platform w)(Pipeline_key p := Inr (p\<lparr>p_Status := st\<rparr>))"
    if "pipelines_of mem_platform w (Pipeline_key p) = Inr p" for p st w
  proof
    fix key
    have "mem_find (\<lambda>q. Pipeline_key q = Pipeline_key p) ''pipeline'' (mem_Pipelines w) = Inr p"
      using that by (simp add: pipelines_of_def)
    then show "pipelines_of mem_platform (snd (pf_StatusUpdate mem_platform (p\<lparr>p_Status := st\<rparr>) w)) key =
        ((pipelines_of mem_platform w)(Pipeline_key p := Inr (p\<lparr>p_Status := st\<rparr>))) key"
      using mem_find_replace [of "p\<lparr>p_Status := st\<rparr>" "''pipeline''" "mem_Pipelines w" p]
        mem_find_replace_other [of key "p\<lparr>p_Status := st\<rparr>" "''pipeline''" "mem_Pipelines w"]
      by (cases "key = Pipeline_key p") (simp_all add: pipelines_of_def mem_write_def)
  qed
qed (simp_all add: pipelines_of_def mem_write_def fun_eq_iff)

definition manual_sys :: "store sys" where
  "manual_sys = sample_sys\<lparr>world := sample_store\<lparr>mem_Pipelines := [manual_pipeline]\<rparr>\<rparr>"

lemma manual_sys_pipeline: "pipelines_of mem_platform (world manual_sys) sample_key = Inr manual_pipeline"
  by (simp add: pipelines_of_def manual_sys_def manual_pipeline_def Pipeline_key_def)

lemma manual_notification:
  "pipelines_of mem_platform (world s) sample_key = Inr q \<Longrightarrow>
     value_of (strat_Promote (Notification mem_platform) spec sample_strategy_promotion) s =
       Returned (Inr \<lparr>res_Location = ''''\<rparr>)"
  "pipelines_of mem_platform (world (exec (strat_Promote (Notification mem_platform) spec prom) s)) =
     pipelines_of mem_platform (world s)"
  by (simp_all add: strat_Promote_def Notification_def Notification_Promote_def op_defs run_perform
      pipelines_of_def fun_eq_iff split: sum.splits)

end
