(* ===== verification/Cache_Properties.thy ===== *)
theory Cache_Properties
  imports Target_Caches
begin

text \<open>
  The guarantees of the target caches of \<open>controllers/leveltriggered/caching.go\<close> on the level of
  whole operations: which pipelines an application event wakes, what a turn of the garbage
  collector does, and when event handlers are installed. \<open>Cache_Concurrency\<close> has the finer view
  in which operations of several workers and the collector interleave between lock sections.
\<close>

section \<open>Application events\<close>

lemma trace_send_events: "trace (exec (send_events K ps) s) = trace s @ map (\<lambda>p. CallSendEvent (Pipeline_key p)) ps"
  by (induction ps arbitrary: s) (simp_all add: op_defs run_perform)

text \<open>C28. Every pipeline that uses an application hears of its changes: with a field index that
  works as documented, an event about an application object sends one event for each pipeline that
  has a target on the same cluster, of the same type, with the namespace and name of the object,
  and sends events for listed pipelines only.\<close>

theorem application_event_notifies:
  assumes "lib_GVKForObject L (u_GVK obj) = Inr gvk"
    and "lists_by_index K applicationKey (indexApplication L) stored (world s)"
  shows "\<exists>ps. trace (exec (enqueuePipelinesForTarget L K clusterKey (Some obj)) s) = trace s @
      CallListPipelines applicationKey (targetIndexKey L clusterKey gvk \<lparr>ok_Namespace = u_Namespace obj, ok_Name = u_Name obj\<rparr>)
      # map (\<lambda>p. CallSendEvent (Pipeline_key p)) ps \<and>
    {p \<in> stored. uses_application L p clusterKey gvk \<lparr>ok_Namespace = u_Namespace obj, ok_Name = u_Name obj\<rparr>} \<subseteq> set ps \<and>
    set ps \<subseteq> stored"
proof -
  let ?obj = "\<lparr>ok_Namespace = u_Namespace obj, ok_Name = u_Name obj\<rparr>"
  let ?key = "targetIndexKey L clusterKey gvk ?obj"
  obtain ps where ps: "fst (pf_ListPipelines K applicationKey ?key (world s)) = Inr ps"
    and set: "set ps = {p \<in> stored. \<exists>ks. indexApplication L (PipelineObject p) = Returned ks \<and> ?key \<in> set ks}"
    using assms(2) unfolding lists_by_index_def by blast
  have "p \<in> set ps" if "p \<in> stored" "uses_application L p clusterKey gvk ?obj" for p
    using that indexTargets_total [of L "targetIndexKey L" p] indexApplication_complete
    unfolding set indexApplication_def by blast
  moreover have "trace (exec (enqueuePipelinesForTarget L K clusterKey (Some obj)) s) =
      trace s @ CallListPipelines applicationKey ?key # map (\<lambda>p. CallSendEvent (Pipeline_key p)) ps"
    using ps assms(1)
    by (simp add: enqueuePipelinesForTarget_def pipelinesForApplication_def op_defs run_perform trace_send_events)
  ultimately show ?thesis using set by (intro exI [of _ ps]) auto
qed

section \<open>Turns of the collector\<close>

text \<open>C27. The collector removes exactly the caches that no pipeline needs. With a field index that
  works as documented and index keys that tell the cache keys in use apart, one turn on a key leaves
  the map as it is if some stored pipeline has a target on that cluster of that type, and queues the
  key again; otherwise it drops the key's entry, no other, forgets the key, and cancels the entry's
  cache.\<close>

theorem collector_turn_exact:
  assumes "lists_by_index K cacheIndex (indexTargetCache L) stored (world s)"
    and "inj_on (clusterAndGVK_String L) V" and "key \<in> V"
    and "\<And>p k. p \<in> stored \<Longrightarrow> needs_cache L p k \<Longrightarrow> k \<in> V"
  shows "cachesMap (exec (gc_loop_body K (caches_iface L K) (CacheItem key)) s) =
      (if \<exists>p \<in> stored. needs_cache L p key then cachesMap s else (cachesMap s)(key := None)) \<and>
    calls_of is_queue (exec (gc_loop_body K (caches_iface L K) (CacheItem key)) s) = calls_of is_queue s @
      (if \<exists>p \<in> stored. needs_cache L p key
       then [CallQueueDone (CacheItem key), CallQueueAddRateLimited (CacheItem key)]
       else [CallQueueForget (CacheItem key), CallQueueDone (CacheItem key)]) \<and>
    calls_of is_cancel (exec (gc_loop_body K (caches_iface L K) (CacheItem key)) s) = calls_of is_cancel s @
      (if \<exists>p \<in> stored. needs_cache L p key then []
       else case cachesMap s key of None \<Rightarrow> [] | Some e \<Rightarrow> [CallCancelCache (cc_cancel e)])"
proof (intro conjI)
  have used: "value_of (ci_isCacheUsed (caches_iface L K) key) s = Inr (\<exists>p \<in> stored. needs_cache L p key)"
    using isCacheUsed_correct [OF assms] by (simp add: caches_iface_def)
  from target_caches.turn_map [of K L K key s] used
  show "cachesMap (exec (gc_loop_body K (caches_iface L K) (CacheItem key)) s) =
      (if \<exists>p \<in> stored. needs_cache L p key then cachesMap s else (cachesMap s)(key := None))" by simp
  from target_caches.turn_queue [of K L K key s] used
  show "calls_of is_queue (exec (gc_loop_body K (caches_iface L K) (CacheItem key)) s) = calls_of is_queue s @
      (if \<exists>p \<in> stored. needs_cache L p key
       then [CallQueueDone (CacheItem key), CallQueueAddRateLimited (CacheItem key)]
       else [CallQueueForget (CacheItem key), CallQueueDone (CacheItem key)])" by simp
  obtain x t where run: "run_state (isCacheUsed L K key) s = (x, t)" by fastforce
  then have "x = Inr (\<exists>p \<in> stored. needs_cache L p key)" using used by (simp add: caches_iface_def)
  moreover have "cachesMap t = cachesMap s" using keeps_runD [OF isCacheUsed_effects(2) run] .
  moreover have "keeps (calls_of is_cancel) (isCacheUsed L K key)"
    by (rule emits_keeps_calls_of, rule emits_mono [OF isCacheUsed_effects(1)]) simp
  then have "calls_of is_cancel t = calls_of is_cancel s" using run by (rule keeps_runD)
  ultimately show "calls_of is_cancel (exec (gc_loop_body K (caches_iface L K) (CacheItem key)) s) =
      calls_of is_cancel s @
      (if \<exists>p \<in> stored. needs_cache L p key then []
       else case cachesMap s key of None \<Rightarrow> [] | Some e \<Rightarrow> [CallCancelCache (cc_cancel e)])"
    using run
    by (auto simp: gc_loop_body_def caches_iface_def op_defs run_perform calls_of_def removeCache_run split: option.split)
qed

text \<open>When the collector cannot list the pipelines, the turn on a key removes nothing, but it
  neither marks the key as done nor queues it again: the work queue keeps the key in process, and no
  later turn looks at it unless somebody registers it anew and finishes it.\<close>

theorem collector_error_stalls:
  assumes "fst (pf_ListPipelines K cacheIndex (clusterAndGVK_String L key) (world s)) = Inl err"
  shows "trace (exec (gc_loop_body K (caches_iface L K) (CacheItem key)) s) =
      trace s @ [CallListPipelines cacheIndex (clusterAndGVK_String L key)] \<and>
    cachesMap (exec (gc_loop_body K (caches_iface L K) (CacheItem key)) s) = cachesMap s"
  using assms by (simp add: gc_loop_body_def caches_iface_def isCacheUsed_def op_defs run_perform)

section \<open>Event handlers\<close>

lemma obtain_found:
  "cachesMap s key = Some e \<Longrightarrow> run_state (obtain_entry L K cfg c key) s = (Inr (e, True), s)"
  by (simp add: obtain_entry_def read_caches_def)

text \<open>Event handlers are installed by the call that creates a cache and never afterwards: a
  call that finds an entry for the cluster and type installs none, even if the call that made
  the entry failed before it installed its own. What that call returns is the entry's cache.\<close>

theorem existing_cache_gets_no_handler:
  assumes "lib_GVKForObject L (u_GVK target) = Inr gvk"
    and "cachesMap s \<lparr>cg_ObjectKey = cluster_key_of c, cg_GVK = gvk\<rparr> = Some e"
  shows "calls_of is_handler (exec (watchTargetAndGetReader L K cfg c target) s) = calls_of is_handler s \<and>
    cachesMap (exec (watchTargetAndGetReader L K cfg c target) s) = cachesMap s \<and>
    (\<forall>h synced. value_of (watchTargetAndGetReader L K cfg c target) s = Inr (h, synced) \<longrightarrow> h = cc_cache e)"
proof -
  let ?w = "watch_type K (cluster_key_of c) (u_GVK target) e True"
  have "run_state (watchTargetAndGetReader L K cfg c target) s = run_state ?w s"
    by (simp add: watchTargetAndGetReader_def assms(1) obtain_found [OF assms(2)])
  moreover have "keeps (calls_of is_handler) ?w"
    by (rule emits_keeps_calls_of, rule emits_mono [OF watch_type_no_handler]) simp
  moreover have "\<forall>h y. value_of ?w s = Inr (h, y) \<longrightarrow> h = cc_cache e"
    by (auto simp: watch_type_def op_defs run_perform split: sum.splits)
  ultimately show ?thesis
    using keepsD [OF watch_type_effects(2), of K "cluster_key_of c" "u_GVK target" e True s] by (simp add: keepsD)
qed

text \<open>A platform whose informers cannot be obtained.\<close>

definition blind_platform :: "store Platform" where
  "blind_platform = mem_platform\<lparr>pf_GetInformer := (\<lambda>h gvk w. (Inl (PlainError ''no informer''), w))\<rparr>"

definition sample_gvk :: GroupVersionKind where
  "sample_gvk = \<lparr>gvk_Group = ''helm'', gvk_Version = ''v2'', gvk_Kind = ''HelmRelease''\<rparr>"

definition sample_target :: Unstructured where
  "sample_target = \<lparr>u_GVK = sample_gvk, u_Namespace = ''dev'', u_Name = ''app'', u_Object = []\<rparr>"

abbreviation sample_cache_key :: clusterAndGVK where
  "sample_cache_key \<equiv> \<lparr>cg_ObjectKey = zero_ObjectKey, cg_GVK = sample_gvk\<rparr>"

abbreviation blind_run :: "store sys" where
  "blind_run \<equiv> exec (watchTargetAndGetReader mem_lib blind_platform ''local'' None sample_target) sample_sys"

lemma blind_run_entry:
  "cachesMap blind_run sample_cache_key = Some \<lparr>cc_cache = 0, cc_cancel = 1\<rparr> \<and> calls_of is_handler blind_run = []"
  by (simp add: watchTargetAndGetReader_def sample_target_def obtain_entry_def cluster_config_def create_cache_def
      gc_register_def watch_type_def blind_platform_def read_caches_def write_caches_def cluster_key_of_def
      op_defs run_perform mem_new_def calls_of_def Let_def)

theorem existing_cache_gets_no_handler_witness:
  "calls_of is_handler (exec (watchTargetAndGetReader mem_lib mem_platform ''local'' None sample_target) blind_run) = []"
  using existing_cache_gets_no_handler [of mem_lib sample_target sample_gvk blind_run None "\<lparr>cc_cache = 0, cc_cancel = 1\<rparr>"
      mem_platform "''local''"] blind_run_entry
  by (simp add: sample_target_def cluster_key_of_def)

theorem collector_error_stalls_witness:
  "trace (exec (gc_loop_body (mem_platform\<lparr>pf_ListPipelines := \<lambda>idx key w. (Inl (PlainError ''timeout''), w)\<rparr>)
     (caches_iface mem_lib (mem_platform\<lparr>pf_ListPipelines := \<lambda>idx key w. (Inl (PlainError ''timeout''), w)\<rparr>))
     (CacheItem sample_cache_key)) sample_sys) =
   [CallListPipelines cacheIndex (clusterAndGVK_String mem_lib sample_cache_key)]"
  using collector_error_stalls [of "mem_platform\<lparr>pf_ListPipelines := \<lambda>idx key w. (Inl (PlainError ''timeout''), w)\<rparr>"
      mem_lib sample_cache_key]
  by simp

lemma sample_gvk_of: "pipeline_gvk mem_lib sample_pipeline = Some sample_gvk"
  by (simp add: pipeline_gvk_def mem_ParseGroupVersion_def WithKind_def sample_gvk_def)

lemma sample_all_targets:
  "all_targets sample_pipeline = [\<lparr>tgt_Namespace = ''dev'', tgt_ClusterRef = None\<rparr>, \<lparr>tgt_Namespace = ''prod'', tgt_ClusterRef = None\<rparr>]"
  by (simp add: all_targets_def)

theorem application_event_notifies_witness:
  "CallSendEvent sample_key \<in> set (trace (exec (enqueuePipelinesForTarget mem_lib
     (indexed_platform (indexApplication mem_lib) [sample_pipeline]) zero_ObjectKey (Some sample_target)) sample_sys))"
proof -
  have gvk: "lib_GVKForObject mem_lib (u_GVK sample_target) = Inr sample_gvk" by (simp add: sample_target_def)
  have "uses_application mem_lib sample_pipeline zero_ObjectKey sample_gvk
      \<lparr>ok_Namespace = u_Namespace sample_target, ok_Name = u_Name sample_target\<rparr>"
    by (simp add: uses_application_def sample_gvk_of sample_all_targets target_cluster_key_def target_object_key_def
        sample_target_def)
  with application_event_notifies [OF gvk indexed_platform_lists, of "[sample_pipeline]" zero_ObjectKey sample_sys]
  obtain ps where "sample_pipeline \<in> set ps"
    "trace (exec (enqueuePipelinesForTarget mem_lib (indexed_platform (indexApplication mem_lib) [sample_pipeline])
       zero_ObjectKey (Some sample_target)) sample_sys) =
     trace sample_sys @ CallListPipelines applicationKey (targetIndexKey mem_lib zero_ObjectKey sample_gvk
       \<lparr>ok_Namespace = u_Namespace sample_target, ok_Name = u_Name sample_target\<rparr>)
       # map (\<lambda>p. CallSendEvent (Pipeline_key p)) ps"
    by auto
  then show ?thesis by (auto simp: image_iff intro!: bexI [of _ sample_pipeline])
qed

text \<open>One cache that the sample pipeline needs and one that nothing needs.\<close>

definition stale_key :: clusterAndGVK where
  "stale_key = \<lparr>cg_ObjectKey = \<lparr>ok_Namespace = ''default'', ok_Name = ''gone''\<rparr>, cg_GVK = sample_gvk\<rparr>"

abbreviation cached_sys :: "store sys" where
  "cached_sys \<equiv> sample_sys\<lparr>cachesMap := [sample_cache_key \<mapsto> \<lparr>cc_cache = 0, cc_cancel = 1\<rparr>,
     stale_key \<mapsto> \<lparr>cc_cache = 2, cc_cancel = 3\<rparr>]\<rparr>"

theorem collector_turn_exact_witness:
  "cachesMap (exec (gc_loop_body (indexed_platform (indexTargetCache mem_lib) [sample_pipeline])
     (caches_iface mem_lib (indexed_platform (indexTargetCache mem_lib) [sample_pipeline])) (CacheItem stale_key)) cached_sys) =
   [sample_cache_key \<mapsto> \<lparr>cc_cache = 0, cc_cancel = 1\<rparr>]"
proof -
  let ?K = "indexed_platform (indexTargetCache mem_lib) [sample_pipeline]"
  have only: "k = sample_cache_key" if "needs_cache mem_lib sample_pipeline k" for k
    using that by (cases k) (auto simp: needs_cache_def sample_gvk_of sample_all_targets target_cluster_key_def)
  have differ: "stale_key \<noteq> sample_cache_key" by (simp add: stale_key_def)
  have inj: "inj_on (clusterAndGVK_String mem_lib) {sample_cache_key, stale_key}"
    by (simp add: clusterAndGVK_String_def mem_lib_def stale_key_def sample_gvk_def)
  have "cachesMap (exec (gc_loop_body ?K (caches_iface mem_lib ?K) (CacheItem stale_key)) cached_sys) =
      (cachesMap cached_sys)(stale_key := None)"
    using collector_turn_exact [OF indexed_platform_lists inj, of stale_key "[sample_pipeline]" cached_sys] only differ
    by auto
  with differ show ?thesis by (auto simp: fun_eq_iff)
qed

end
