(* ===== verification/Cache_Concurrency.thy ===== *)
theory Cache_Concurrency
  imports Cache_Properties
begin

text \<open>
  The target caches at the granularity of their lock. Reconciliations run in several goroutines and
  the garbage collector in another; \<open>cachesMu\<close> is held for a lookup, for the second lookup with the
  creation of a cache, and for a removal, and not in between. A call of
  \<open>watchTargetAndGetReader\<close> is a worker that moves from one section to the next, a turn of the
  collector likewise; between two steps anything else may happen. Uninterrupted, the steps of
  a worker are the sequential operation of \<open>Target_Caches\<close>; interleaved, they keep the invariant of
  the caches.
\<close>

section \<open>Steps\<close>

text \<open>Where a call of \<open>watchTargetAndGetReader\<close> stands: before the first lookup (line 132), before
  reading the cluster's configuration (141), before the second lock section (181), before the
  registration (204), before asking for the informer (210), or done.\<close>

datatype worker =
    W_Idle
  | W_Start "GitopsCluster option" Unstructured
  | W_Config "GitopsCluster option" Unstructured clusterAndGVK
  | W_Create "GitopsCluster option" Unstructured clusterAndGVK string
  | W_Register "GitopsCluster option" Unstructured clusterAndGVK cacheAndCancel bool
  | W_Watch "GitopsCluster option" Unstructured cacheAndCancel bool
  | W_Done "go_error + nat \<times> bool"

fun worker_step :: "Lib \<Rightarrow> 'w Platform \<Rightarrow> string \<Rightarrow> worker \<Rightarrow> ('w sys, worker) state" where
  "worker_step L K cfg (W_Start c target) =
     (case lib_GVKForObject L (u_GVK target) of
        Inl err \<Rightarrow> result (W_Done (Inl err))
      | Inr gvk \<Rightarrow>
          do { m \<leftarrow> read_caches;
               case m \<lparr>cg_ObjectKey = cluster_key_of c, cg_GVK = gvk\<rparr> of
                 Some entry \<Rightarrow> result (W_Watch c target entry True)
               | None \<Rightarrow> result (W_Config c target \<lparr>cg_ObjectKey = cluster_key_of c, cg_GVK = gvk\<rparr>) })"
| "worker_step L K cfg (W_Config c target key) =
     do { r \<leftarrow> cluster_config L K cfg c;
          case r of
            Inl err \<Rightarrow> result (W_Done (Inl err))
          | Inr config \<Rightarrow> result (W_Create c target key config) }"
| "worker_step L K cfg (W_Create c target key config) =
     do { r \<leftarrow> create_cache K key config;
          case r of
            Inl err \<Rightarrow> result (W_Done (Inl err))
          | Inr (entry, found) \<Rightarrow> result (W_Register c target key entry found) }"
| "worker_step L K cfg (W_Register c target key entry found) =
     do { _ \<leftarrow> gc_register K key; result (W_Watch c target entry found) }"
| "worker_step L K cfg (W_Watch c target entry found) =
     do { r \<leftarrow> watch_type K (cluster_key_of c) (u_GVK target) entry found; result (W_Done r) }"
| "worker_step L K cfg W_Idle = result W_Idle"
| "worker_step L K cfg (W_Done r) = result (W_Done r)"

text \<open>Where the collector stands: before taking an item from the queue, with an item, with a
  decision, before the removal (the only part under the lock), or at the end.\<close>

datatype collector =
    G_Wait
  | G_Check queue_item
  | G_Decided clusterAndGVK bool
  | G_Remove clusterAndGVK
  | G_Stopped

fun gc_step :: "'w Platform \<Rightarrow> 'w cachesInterface \<Rightarrow> collector \<Rightarrow> ('w sys, collector) state" where
  "gc_step K C G_Wait =
     do { item \<leftarrow> queue_Get K;
          case item of None \<Rightarrow> result G_Stopped | Some it \<Rightarrow> result (G_Check it) }"
| "gc_step K C (G_Check item) =
     do { key \<leftarrow> (case item of
                   CacheItem k \<Rightarrow> result k
                 | OtherItem n \<Rightarrow>
                     do { _ \<leftarrow> queue_Forget K item; _ \<leftarrow> queue_Done K item; result zero_clusterAndGVK });
          used \<leftarrow> ci_isCacheUsed C key;
          case used of Inl err \<Rightarrow> result G_Wait | Inr ok \<Rightarrow> result (G_Decided key ok) }"
| "gc_step K C (G_Decided key ok) =
     (if ok then
        do { _ \<leftarrow> queue_Done K (CacheItem key); _ \<leftarrow> queue_AddRateLimited K (CacheItem key); result G_Wait }
      else
        do { _ \<leftarrow> queue_Forget K (CacheItem key); _ \<leftarrow> queue_Done K (CacheItem key); result (G_Remove key) })"
| "gc_step K C (G_Remove key) = do { _ \<leftarrow> ci_removeCache C key; result G_Wait }"
| "gc_step K C G_Stopped = result G_Stopped"

record 'w cache_system =
  cs_sys :: "'w sys"
  cs_workers :: "nat \<Rightarrow> worker"
  cs_gc :: collector

text \<open>One step of the system: a worker starts a call, moves on, or its caller takes the result; the
  collector moves on; an application event is passed on; the world changes.\<close>

inductive cache_sys_step :: "Lib \<Rightarrow> 'w Platform \<Rightarrow> string \<Rightarrow> 'w cache_system \<Rightarrow> 'w cache_system \<Rightarrow> bool" for L K cfg where
  call: "cs_workers s i = W_Idle \<Longrightarrow>
    cache_sys_step L K cfg s (s\<lparr>cs_workers := (cs_workers s)(i := W_Start c target)\<rparr>)"
| work: "run_state (worker_step L K cfg (cs_workers s i)) (cs_sys s) = (w, t) \<Longrightarrow>
    cache_sys_step L K cfg s (s\<lparr>cs_sys := t, cs_workers := (cs_workers s)(i := w)\<rparr>)"
| return_result: "cs_workers s i = W_Done r \<Longrightarrow>
    cache_sys_step L K cfg s (s\<lparr>cs_workers := (cs_workers s)(i := W_Idle)\<rparr>)"
| collect: "run_state (gc_step K (caches_iface L K) (cs_gc s)) (cs_sys s) = (g, t) \<Longrightarrow>
    cache_sys_step L K cfg s (s\<lparr>cs_sys := t, cs_gc := g\<rparr>)"
| app_event: "cache_sys_step L K cfg s (s\<lparr>cs_sys := exec (enqueuePipelinesForTarget L K ck obj) (cs_sys s)\<rparr>)"
| outside: "cache_sys_step L K cfg s (s\<lparr>cs_sys := (cs_sys s)\<lparr>world := w\<rparr>\<rparr>)"

definition cache_sys_start :: "'w cache_system \<Rightarrow> bool" where
  "cache_sys_start s \<longleftrightarrow> cachesMap (cs_sys s) = Map.empty \<and> trace (cs_sys s) = [] \<and>
     cs_workers s = (\<lambda>_. W_Idle) \<and> cs_gc s = G_Wait"

inductive cache_sys_reach :: "Lib \<Rightarrow> 'w Platform \<Rightarrow> string \<Rightarrow> 'w cache_system \<Rightarrow> bool" for L K cfg where
  start: "cache_sys_start s \<Longrightarrow> cache_sys_reach L K cfg s"
| step: "cache_sys_reach L K cfg s \<Longrightarrow> cache_sys_step L K cfg s t \<Longrightarrow> cache_sys_reach L K cfg t"

section \<open>Uninterrupted steps\<close>

fun worker_run :: "nat \<Rightarrow> Lib \<Rightarrow> 'w Platform \<Rightarrow> string \<Rightarrow> worker \<Rightarrow> ('w sys, worker) state" where
  "worker_run 0 L K cfg w = result w"
| "worker_run (Suc n) L K cfg w = do { w' \<leftarrow> worker_step L K cfg w; worker_run n L K cfg w' }"

lemma worker_run_Done [simp]: "run_state (worker_run n L K cfg (W_Done r)) s = (W_Done r, s)"
  by (induction n) simp_all

lemma worker_run_Watch:
  "run_state (worker_run (Suc n) L K cfg (W_Watch c target entry found)) s =
     (case run_state (watch_type K (cluster_key_of c) (u_GVK target) entry found) s of (r, t) \<Rightarrow> (W_Done r, t))"
  by (simp split: prod.split)

lemma worker_run_sequential:
  "run_state (worker_run 5 L K cfg (W_Start c target)) s =
     (case run_state (watchTargetAndGetReader L K cfg c target) s of (r, t) \<Rightarrow> (W_Done r, t))"
proof (cases "lib_GVKForObject L (u_GVK target)")
  case (Inl err)
  then show ?thesis by (simp add: watchTargetAndGetReader_def eval_nat_numeral)
next
  case gvk: (Inr gvk)
  let ?key = "\<lparr>cg_ObjectKey = cluster_key_of c, cg_GVK = gvk\<rparr>"
  show ?thesis
  proof (cases "cachesMap s ?key")
    case (Some entry)
    with gvk show ?thesis
      by (simp add: watchTargetAndGetReader_def obtain_entry_def read_caches_def eval_nat_numeral split: prod.split)
  next
    case None
    obtain r t where config: "run_state (cluster_config L K cfg c) s = (r, t)" by fastforce
    show ?thesis
    proof (cases r)
      case (Inl err)
      with gvk None config show ?thesis
        by (simp add: watchTargetAndGetReader_def obtain_entry_def read_caches_def eval_nat_numeral)
    next
      case (Inr config')
      obtain q u where create: "run_state (create_cache K ?key config') t = (q, u)" by fastforce
      with gvk None config Inr show ?thesis
        by (cases q) (simp_all add: watchTargetAndGetReader_def obtain_entry_def read_caches_def eval_nat_numeral
            split: prod.split)
    qed
  qed
qed

fun gc_run :: "nat \<Rightarrow> 'w Platform \<Rightarrow> 'w cachesInterface \<Rightarrow> collector \<Rightarrow> ('w sys, collector) state" where
  "gc_run 0 K C g = result g"
| "gc_run (Suc n) K C g =
     (if g = G_Wait then result G_Wait else do { g' \<leftarrow> gc_step K C g; gc_run n K C g' })"

lemma gc_run_Wait [simp]: "gc_run n K C G_Wait = result G_Wait"
  by (cases n) simp_all

lemma gc_run_sequential:
  "run_state (gc_run 3 K C (G_Check item)) s = (G_Wait, exec (gc_loop_body K C item) s)"
proof -
  define pre where "pre = (case item of
      CacheItem k \<Rightarrow> result k
    | OtherItem n \<Rightarrow>
        do { _ \<leftarrow> queue_Forget K item; _ \<leftarrow> queue_Done K item; result zero_clusterAndGVK })"
  obtain key t where pre: "run_state pre s = (key, t)" by fastforce
  obtain used u where used: "run_state (ci_isCacheUsed C key) t = (used, u)" by fastforce
  have "gc_loop_body K C item = do { key \<leftarrow> pre;
      used \<leftarrow> ci_isCacheUsed C key;
      case used of
        Inl err \<Rightarrow> result ()
      | Inr ok \<Rightarrow>
          if ok then
            do { _ \<leftarrow> queue_Done K (CacheItem key); queue_AddRateLimited K (CacheItem key) }
          else
            do { _ \<leftarrow> queue_Forget K (CacheItem key); _ \<leftarrow> queue_Done K (CacheItem key); ci_removeCache C key } }"
    and "gc_step K C (G_Check item) = do { key \<leftarrow> pre;
      used \<leftarrow> ci_isCacheUsed C key;
      case used of Inl err \<Rightarrow> result G_Wait | Inr ok \<Rightarrow> result (G_Decided key ok) }"
    by (simp_all add: gc_loop_body_def pre_def)
  then show ?thesis
    using pre used by (cases used) (auto simp: eval_nat_numeral op_defs run_perform split: prod.split)
qed

section \<open>The invariant\<close>

text \<open>A cache is registered for collection after it was started.\<close>

definition registered_since :: "clusterAndGVK \<Rightarrow> cacheAndCancel \<Rightarrow> call list \<Rightarrow> bool" where
  "registered_since k e tr \<longleftrightarrow>
     (\<exists>a b. tr = a @ CallRunCache (cc_cache e) # b \<and> CallQueueAdd (CacheItem k) \<in> set b)"

fun registering :: "clusterAndGVK \<Rightarrow> worker \<Rightarrow> bool" where
  "registering k (W_Register _ _ key _ _) \<longleftrightarrow> key = k"
| "registering k _ \<longleftrightarrow> False"

text \<open>The caches a worker holds.\<close>

fun holds :: "nat \<Rightarrow> worker \<Rightarrow> bool" where
  "holds h (W_Register _ _ _ e _) \<longleftrightarrow> cc_cache e = h"
| "holds h (W_Watch _ _ e _) \<longleftrightarrow> cc_cache e = h"
| "holds h (W_Done (Inr (r, _))) \<longleftrightarrow> r = h"
| "holds h _ \<longleftrightarrow> False"

text \<open>Every cache in the map was started, and is registered for collection or about to be; every
  cache in the hands of a worker was started; and the number of running caches, started and not
  cancelled, is the number of entries of the map.\<close>

definition cache_sys_inv :: "'w cache_system \<Rightarrow> bool" where
  "cache_sys_inv s \<longleftrightarrow>
     (\<forall>k e. cachesMap (cs_sys s) k = Some e \<longrightarrow> CallRunCache (cc_cache e) \<in> set (trace (cs_sys s)) \<and>
        (registered_since k e (trace (cs_sys s)) \<or> (\<exists>i. registering k (cs_workers s i)))) \<and>
     (\<forall>i h. holds h (cs_workers s i) \<longrightarrow> CallRunCache h \<in> set (trace (cs_sys s))) \<and>
     caches_balanced (cs_sys s)"

lemma registered_since_append: "registered_since k e tr \<Longrightarrow> registered_since k e (tr @ d)"
  unfolding registered_since_def by (metis Un_iff append.assoc append_Cons set_append)

lemma registered_since_add:
  assumes "CallRunCache (cc_cache e) \<in> set tr"
  shows "registered_since k e (tr @ [CallQueueAdd (CacheItem k)])"
proof -
  obtain a b where "tr = a @ CallRunCache (cc_cache e) # b" using assms by (meson split_list)
  then show ?thesis unfolding registered_since_def
    by (intro exI [of _ a] exI [of _ "b @ [CallQueueAdd (CacheItem k)]"]) simp
qed

text \<open>A step that leaves the map alone, starts and stops nothing, and in which no worker ceases to
  be about to register.\<close>

lemma cache_sys_inv_frame:
  assumes "cache_sys_inv s" and "cachesMap (cs_sys t) = cachesMap (cs_sys s)"
    and "trace (cs_sys t) = trace (cs_sys s) @ d" and "list_all no_start_stop d"
    and "\<And>i k. registering k (cs_workers s i) \<Longrightarrow> \<not> registering k (cs_workers t i) \<Longrightarrow> CallQueueAdd (CacheItem k) = last d \<and> d \<noteq> []"
    and "\<And>i h. holds h (cs_workers t i) \<Longrightarrow> CallRunCache h \<in> set (trace (cs_sys s))"
  shows "cache_sys_inv t"
proof -
  have calls: "calls_of is_run (cs_sys t) = calls_of is_run (cs_sys s)"
    "calls_of is_cancel (cs_sys t) = calls_of is_cancel (cs_sys s)"
    using assms(3,4) by (auto intro!: calls_of_append simp: list_all_iff)
  have entry: "CallRunCache (cc_cache e) \<in> set (trace (cs_sys t)) \<and>
      (registered_since k e (trace (cs_sys t)) \<or> (\<exists>i. registering k (cs_workers t i)))"
    if k: "cachesMap (cs_sys t) k = Some e" for k e
  proof -
    have old: "CallRunCache (cc_cache e) \<in> set (trace (cs_sys s))"
      "registered_since k e (trace (cs_sys s)) \<or> (\<exists>i. registering k (cs_workers s i))"
      using assms(1,2) k unfolding cache_sys_inv_def by auto
    have "registered_since k e (trace (cs_sys t))" if "registering k (cs_workers s i)" "\<not> registering k (cs_workers t i)" for i
    proof -
      from assms(5) [OF that] have "trace (cs_sys t) = (trace (cs_sys s) @ butlast d) @ [CallQueueAdd (CacheItem k)]"
        using assms(3) by (metis append.assoc append_butlast_last_id)
      then show ?thesis using registered_since_add [of e "trace (cs_sys s) @ butlast d" k] old(1) by simp
    qed
    with old show ?thesis using assms(3) registered_since_append by auto
  qed
  with calls assms(1,2,3,6) show ?thesis
    unfolding cache_sys_inv_def caches_balanced_def by auto
qed

lemma worker_run_frame:
  assumes "keeps cachesMap m" and "emits no_start_stop m" and "run_state m s = (a, t)"
  obtains d where "cachesMap t = cachesMap s" "trace t = trace s @ d" "list_all no_start_stop d"
  using emits_runE [OF assms(2,3)] keeps_runD [OF assms(1,3)] by blast

lemma watch_type_reader: "value_of (watch_type K ck gvk entry found) s = Inr (h, y) \<Longrightarrow> h = cc_cache entry"
  by (cases found) (auto simp: watch_type_def op_defs run_perform split: sum.splits)

text \<open>A worker's step that is neither the creation nor the registration.\<close>

lemma worker_frame:
  assumes "cache_sys_inv s" and "keeps cachesMap m" and "emits no_start_stop m"
    and "run_state m (cs_sys s) = (a, t)"
    and "\<And>k. \<not> registering k (cs_workers s i)"
    and "\<And>h. holds h w \<Longrightarrow> CallRunCache h \<in> set (trace (cs_sys s))"
  shows "cache_sys_inv (s\<lparr>cs_sys := t, cs_workers := (cs_workers s)(i := w)\<rparr>)"
proof -
  obtain d where d: "cachesMap t = cachesMap (cs_sys s)" "trace t = trace (cs_sys s) @ d" "list_all no_start_stop d"
    using worker_run_frame [OF assms(2-4)] .
  show ?thesis
    by (rule cache_sys_inv_frame [OF assms(1)])
       (use d assms(1,5,6) in \<open>auto simp: cache_sys_inv_def split: if_splits\<close>)
qed

lemma config_no_start_stop: "emits no_start_stop (cluster_config L K cfg c)"
  by (rule emits_mono [OF cluster_config_effects(1)]) (auto elim: is_config.elims)

lemma watch_no_start_stop: "emits no_start_stop (watch_type K ck g entry found)"
  by (rule emits_mono [OF watch_type_effects(1)]) (auto elim: is_watch.elims)

lemma work_Start_inv:
  assumes "cache_sys_inv s" and "cs_workers s i = W_Start c target"
    and "run_state (worker_step L K cfg (W_Start c target)) (cs_sys s) = (w, t)"
  shows "cache_sys_inv (s\<lparr>cs_sys := t, cs_workers := (cs_workers s)(i := w)\<rparr>)"
proof (rule worker_frame [OF assms(1), of "result ()" "()"])
  show "run_state (result ()) (cs_sys s) = ((), t)"
    using assms(3) by (auto simp: read_caches_def split: sum.splits option.splits)
  show "CallRunCache h \<in> set (trace (cs_sys s))" if "holds h w" for h
    using that assms(1,3) by (auto simp: read_caches_def cache_sys_inv_def split: sum.splits option.splits)
qed (auto simp: assms(2) keeps_return emits_return)

lemma work_Config_inv:
  assumes "cache_sys_inv s" and "cs_workers s i = W_Config c target key"
    and "run_state (worker_step L K cfg (W_Config c target key)) (cs_sys s) = (w, t)"
  shows "cache_sys_inv (s\<lparr>cs_sys := t, cs_workers := (cs_workers s)(i := w)\<rparr>)"
proof -
  obtain r u where run: "run_state (cluster_config L K cfg c) (cs_sys s) = (r, u)" by fastforce
  then have w: "t = u" "\<And>h. \<not> holds h w" using assms(3) by (auto split: sum.splits)
  from run w(1) have "run_state (cluster_config L K cfg c) (cs_sys s) = (r, t)" by simp
  then show ?thesis
    by (rule worker_frame [OF assms(1) cluster_config_effects(2) config_no_start_stop]) (simp_all add: assms(2) w(2))
qed

lemma work_Watch_inv:
  assumes "cache_sys_inv s" and "cs_workers s i = W_Watch c target entry found"
    and "run_state (worker_step L K cfg (W_Watch c target entry found)) (cs_sys s) = (w, t)"
  shows "cache_sys_inv (s\<lparr>cs_sys := t, cs_workers := (cs_workers s)(i := w)\<rparr>)"
proof -
  obtain r u where run: "run_state (watch_type K (cluster_key_of c) (u_GVK target) entry found) (cs_sys s) = (r, u)"
    by fastforce
  then have w: "t = u" "w = W_Done r" using assms(3) by auto
  have "h = cc_cache entry" if "r = Inr (h, y)" for h y
    using watch_type_reader [of K "cluster_key_of c" "u_GVK target" entry found "cs_sys s"] run that by simp
  moreover have "holds (cc_cache entry) (cs_workers s i)" by (simp add: assms(2))
  ultimately have held: "CallRunCache h \<in> set (trace (cs_sys s))" if "holds h w" for h
    using that assms(1) w(2) by (cases r) (auto simp: cache_sys_inv_def)
  from run w(1) have "run_state (watch_type K (cluster_key_of c) (u_GVK target) entry found) (cs_sys s) = (r, t)" by simp
  then show ?thesis
    by (rule worker_frame [OF assms(1) watch_type_effects(2) watch_no_start_stop]) (simp_all add: assms(2) held)
qed

lemma work_Register_inv:
  assumes "cache_sys_inv s" and "cs_workers s i = W_Register c target key entry found"
    and "run_state (worker_step L K cfg (W_Register c target key entry found)) (cs_sys s) = (w, t)"
  shows "cache_sys_inv (s\<lparr>cs_sys := t, cs_workers := (cs_workers s)(i := w)\<rparr>)"
proof (rule cache_sys_inv_frame [OF assms(1), where d = "[CallQueueAdd (CacheItem key)]"])
  have "holds (cc_cache entry) (cs_workers s i)" by (simp add: assms(2))
  then show "CallRunCache h \<in> set (trace (cs_sys s))"
    if "holds h (cs_workers (s\<lparr>cs_sys := t, cs_workers := (cs_workers s)(i := w)\<rparr>) j)" for j h
    using that assms(1,3) by (auto simp: cache_sys_inv_def gc_register_def op_defs run_perform split: if_splits)
  show "CallQueueAdd (CacheItem k) = last [CallQueueAdd (CacheItem key)] \<and> [CallQueueAdd (CacheItem key)] \<noteq> []"
    if "registering k (cs_workers s j)"
      "\<not> registering k (cs_workers (s\<lparr>cs_sys := t, cs_workers := (cs_workers s)(i := w)\<rparr>) j)" for j k
    using that assms(2) by (auto split: if_splits)
qed (use assms(3) in \<open>auto simp: gc_register_def op_defs run_perform\<close>)

lemma work_Create_inv:
  assumes "cache_sys_inv s" and "cs_workers s i = W_Create c target key config"
    and "run_state (worker_step L K cfg (W_Create c target key config)) (cs_sys s) = (w, t)"
  shows "cache_sys_inv (s\<lparr>cs_sys := t, cs_workers := (cs_workers s)(i := w)\<rparr>)"
proof (cases "cachesMap (cs_sys s) key")
  case (Some entry)
  have "run_state (result ()) (cs_sys s) = ((), t)" "w = W_Register c target key entry True"
    using assms(3) Some by (auto simp: create_cache_def read_caches_def)
  with assms(1,2) Some show ?thesis
    by (intro worker_frame [OF assms(1), of "result ()" "()"])
       (auto simp: keeps_return emits_return cache_sys_inv_def)
next
  case None
  obtain ca v where new: "pf_NewCache K config (world (cs_sys s)) = (ca, v)" by fastforce
  show ?thesis
  proof (cases ca)
    case (Inl err)
    with assms(3) None new
    have "run_state (perform (CallNewCache config) (pf_NewCache K config)) (cs_sys s) = (ca, t)" "w = W_Done (Inl err)"
      by (auto simp: create_cache_def read_caches_def op_defs run_perform)
    with assms(2) show ?thesis
      by (intro worker_frame [OF assms(1), of "perform (CallNewCache config) (pf_NewCache K config)" ca])
         (auto intro: keeps_intros emits_intros)
  next
    case (Inr h)
    obtain cancel v' where run: "pf_RunCache K h v = (cancel, v')" by fastforce
    let ?e = "\<lparr>cc_cache = h, cc_cancel = cancel\<rparr>"
    have t: "trace t = trace (cs_sys s) @ [CallNewCache config, CallRunCache h]"
      "cachesMap t = (cachesMap (cs_sys s))(key \<mapsto> ?e)" "w = W_Register c target key ?e False"
      using assms(3) None new run Inr
      by (auto simp: create_cache_def read_caches_def write_caches_def op_defs run_perform Let_def)
    have old: "\<not> registering k (cs_workers s i)" for k by (simp add: assms(2))
    have "registered_since k e (trace t) \<or> (\<exists>j. registering k (((cs_workers s)(i := w)) j))"
      if "cachesMap t k = Some e" for k e
    proof (cases "k = key")
      case True
      then have "registering k (((cs_workers s)(i := w)) i)" by (simp add: t(3))
      then show ?thesis by blast
    next
      case False
      with that t(2) assms(1) have "registered_since k e (trace (cs_sys s)) \<or> (\<exists>j. registering k (cs_workers s j))"
        by (simp add: cache_sys_inv_def)
      then show ?thesis unfolding t(1) using registered_since_append old by (metis fun_upd_other)
    qed
    then show ?thesis
      using assms(1) None t
      by (auto simp: cache_sys_inv_def caches_balanced_def calls_of_def domIff split: if_splits)
  qed
qed



lemma work_inv:
  assumes "cache_sys_inv s" and "run_state (worker_step L K cfg (cs_workers s i)) (cs_sys s) = (w, t)"
  shows "cache_sys_inv (s\<lparr>cs_sys := t, cs_workers := (cs_workers s)(i := w)\<rparr>)"
proof (cases "cs_workers s i")
  case W_Idle
  with assms have "s\<lparr>cs_sys := t, cs_workers := (cs_workers s)(i := w)\<rparr> = s" by (simp add: fun_upd_idem)
  with assms show ?thesis by simp
next
  case (W_Done r)
  with assms have "s\<lparr>cs_sys := t, cs_workers := (cs_workers s)(i := w)\<rparr> = s" by (simp add: fun_upd_idem)
  with assms show ?thesis by simp
next
  case (W_Start c target)
  show ?thesis by (rule work_Start_inv [OF assms(1) W_Start assms(2) [unfolded W_Start]])
next
  case (W_Config c target key)
  show ?thesis by (rule work_Config_inv [OF assms(1) W_Config assms(2) [unfolded W_Config]])
next
  case (W_Create c target key config)
  show ?thesis by (rule work_Create_inv [OF assms(1) W_Create assms(2) [unfolded W_Create]])
next
  case (W_Register c target key entry found)
  show ?thesis by (rule work_Register_inv [OF assms(1) W_Register assms(2) [unfolded W_Register]])
next
  case (W_Watch c target entry found)
  show ?thesis by (rule work_Watch_inv [OF assms(1) W_Watch assms(2) [unfolded W_Watch]])
qed

lemma collector_frame:
  assumes "cache_sys_inv s" and "keeps cachesMap m" and "emits no_start_stop m"
    and "run_state m (cs_sys s) = (a, t)"
  shows "cache_sys_inv (s\<lparr>cs_sys := t, cs_gc := g\<rparr>)"
proof -
  obtain d where d: "cachesMap t = cachesMap (cs_sys s)" "trace t = trace (cs_sys s) @ d" "list_all no_start_stop d"
    using worker_run_frame [OF assms(2-4)] .
  show ?thesis
    by (rule cache_sys_inv_frame [OF assms(1)]) (use d assms(1) in \<open>auto simp: cache_sys_inv_def\<close>)
qed

lemma gc_step_frame:
  assumes "\<And>key. g \<noteq> G_Remove key"
  shows "keeps cachesMap (gc_step K (caches_iface L K) g)" and "emits no_start_stop (gc_step K (caches_iface L K) g)"
proof -
  have used: "emits no_start_stop (ci_isCacheUsed (caches_iface L K) key)" for key
    by (rule emits_mono [OF target_caches.used_calls]) simp
  have check: "keeps cachesMap (gc_step K (caches_iface L K) (G_Check item))"
    "emits no_start_stop (gc_step K (caches_iface L K) (G_Check item))" for item
    by (cases item; simp, intro keeps_intros target_caches.used_map) (cases item; simp, intro emits_intros used; simp)
  have decided: "keeps cachesMap (gc_step K (caches_iface L K) (G_Decided key ok))"
    "emits no_start_stop (gc_step K (caches_iface L K) (G_Decided key ok))" for key ok
    unfolding gc_step.simps by (intro keeps_intros) (intro emits_intros; simp)
  have wait: "keeps cachesMap (gc_step K (caches_iface L K) G_Wait)" "emits no_start_stop (gc_step K (caches_iface L K) G_Wait)"
    unfolding gc_step.simps by (intro keeps_intros) (intro emits_intros; simp)
  show "keeps cachesMap (gc_step K (caches_iface L K) g)" "emits no_start_stop (gc_step K (caches_iface L K) g)"
    using assms check decided wait by (cases g; simp add: keeps_return emits_return)+
qed

lemma collect_inv:
  assumes "cache_sys_inv s" and "run_state (gc_step K (caches_iface L K) (cs_gc s)) (cs_sys s) = (g, t)"
  shows "cache_sys_inv (s\<lparr>cs_sys := t, cs_gc := g\<rparr>)"
proof (cases "\<exists>key. cs_gc s = G_Remove key")
  case False
  then show ?thesis using collector_frame [OF assms(1) gc_step_frame assms(2)] by simp
next
  case True
  then obtain key where "cs_gc s = G_Remove key" by blast
  with assms(2) have t: "t = exec (removeCache K key) (cs_sys s)"
    by (auto simp: caches_iface_def split: prod.splits)
  show ?thesis
  proof (cases "cachesMap (cs_sys s) key")
    case None
    with t have "t = cs_sys s" by (simp add: removeCache_def read_caches_def)
    with assms(1) show ?thesis by (simp add: cache_sys_inv_def)
  next
    case (Some e)
    then have "card (dom (cachesMap (cs_sys s))) = Suc (card (dom (cachesMap (cs_sys s)) - {key}))"
      using assms(1) by (intro card.remove) (auto simp: cache_sys_inv_def caches_balanced_def)
    with assms(1) Some show ?thesis
      by (auto simp: t cache_sys_inv_def caches_balanced_def calls_of_def removeCache_run intro: registered_since_append)
  qed
qed

lemma cache_sys_step_inv: "cache_sys_step L K cfg s t \<Longrightarrow> cache_sys_inv s \<Longrightarrow> cache_sys_inv t"
proof (induction rule: cache_sys_step.induct)
  case (call s i c target)
  then show ?case
    using worker_frame [of s "result ()" "()" "cs_sys s" i "W_Start c target"] by (simp add: keeps_return emits_return)
next
  case (return_result s i r)
  then show ?case
    using worker_frame [of s "result ()" "()" "cs_sys s" i "W_Idle"] by (simp add: keeps_return emits_return)
next
  case (app_event s ck obj)
  have "emits no_start_stop (enqueuePipelinesForTarget L K ck obj)"
    by (rule emits_mono [OF enqueue_effects(1)]) simp
  from collector_frame [OF app_event enqueue_effects(2) this prod.collapse [symmetric], of "cs_gc s"] show ?case by simp
next
  case (outside s w)
  then show ?case by (auto simp: cache_sys_inv_def caches_balanced_def calls_of_def)
qed (auto intro: work_inv collect_inv)

lemma cache_sys_reach_inv: "cache_sys_reach L K cfg s \<Longrightarrow> cache_sys_inv s"
proof (induction rule: cache_sys_reach.induct)
  case (start s)
  then show ?case by (simp add: cache_sys_start_def cache_sys_inv_def caches_balanced_def calls_of_def)
qed (rule cache_sys_step_inv)

section \<open>Properties\<close>

text \<open>C13. However the calls of several reconciliations, the collector's turns, application events
  and changes of the world interleave between the lock sections, the caches stay consistent: every
  cache in the map has been started, and registered for collection since, or the worker that is
  about to register it exists; every reader in the hands of a worker is of a cache that was started;
  and exactly as many caches run, started and not cancelled, as the map has entries, so that no cache
  is started twice for a key and none leaks.\<close>

theorem cache_interleaving_invariant:
  assumes "cache_sys_reach L K cfg s"
  shows "(\<forall>k e. cachesMap (cs_sys s) k = Some e \<longrightarrow> CallRunCache (cc_cache e) \<in> set (trace (cs_sys s)) \<and>
        (registered_since k e (trace (cs_sys s)) \<or> (\<exists>i. registering k (cs_workers s i)))) \<and>
     (\<forall>i h. holds h (cs_workers s i) \<longrightarrow> CallRunCache h \<in> set (trace (cs_sys s))) \<and>
     finite (dom (cachesMap (cs_sys s))) \<and>
     length (calls_of is_run (cs_sys s)) = card (dom (cachesMap (cs_sys s))) + length (calls_of is_cancel (cs_sys s))"
  using cache_sys_reach_inv [OF assms] by (simp add: cache_sys_inv_def caches_balanced_def)

text \<open>Runs of single steps.\<close>

definition do_work :: "Lib \<Rightarrow> 'w Platform \<Rightarrow> string \<Rightarrow> nat \<Rightarrow> 'w cache_system \<Rightarrow> 'w cache_system" where
  "do_work L K cfg i s =
     (case run_state (worker_step L K cfg (cs_workers s i)) (cs_sys s) of
        (w, t) \<Rightarrow> s\<lparr>cs_sys := t, cs_workers := (cs_workers s)(i := w)\<rparr>)"

definition do_collect :: "Lib \<Rightarrow> 'w Platform \<Rightarrow> 'w cache_system \<Rightarrow> 'w cache_system" where
  "do_collect L K s =
     (case run_state (gc_step K (caches_iface L K) (cs_gc s)) (cs_sys s) of (g, t) \<Rightarrow> s\<lparr>cs_sys := t, cs_gc := g\<rparr>)"

lemma reach_do_work: "cache_sys_reach L K cfg s \<Longrightarrow> cache_sys_reach L K cfg (do_work L K cfg i s)"
  unfolding do_work_def by (auto intro: cache_sys_reach.step cache_sys_step.work split: prod.split)

lemma reach_do_collect: "cache_sys_reach L K cfg s \<Longrightarrow> cache_sys_reach L K cfg (do_collect L K s)"
  unfolding do_collect_def by (auto intro: cache_sys_reach.step cache_sys_step.collect split: prod.split)

definition race_start :: "store cache_system" where
  "race_start = \<lparr>cs_sys = \<lparr>world = sample_store\<lparr>mem_Pipelines := []\<rparr>, trace = [], cachesMap = Map.empty\<rparr>,
     cs_workers = (\<lambda>_. W_Idle)(0 := W_Start None sample_target), cs_gc = G_Wait\<rparr>"

lemma race_start_reach: "cache_sys_reach L K cfg race_start"
proof -
  let ?s = "race_start\<lparr>cs_workers := \<lambda>_. W_Idle\<rparr>"
  have "cache_sys_reach L K cfg ?s"
    by (rule cache_sys_reach.start) (simp add: race_start_def cache_sys_start_def)
  moreover have "cache_sys_step L K cfg ?s (?s\<lparr>cs_workers := (cs_workers ?s)(0 := W_Start None sample_target)\<rparr>)"
    by (rule cache_sys_step.call) simp
  ultimately show ?thesis using cache_sys_reach.step by (fastforce simp: race_start_def)
qed

text \<open>Up to the creation and registration of a cache; then a turn of the collector; then the end of
  the call.\<close>

abbreviation race_created :: "store cache_system" where
  "race_created \<equiv> ((do_work mem_lib mem_platform ''local'' 0) ^^ 4) race_start"

abbreviation race_end :: "store cache_system" where
  "race_end \<equiv> do_work mem_lib mem_platform ''local'' 0 (((do_collect mem_lib mem_platform) ^^ 4) race_created)"

lemma race_reach: "cache_sys_reach mem_lib mem_platform ''local'' race_created"
  "cache_sys_reach mem_lib mem_platform ''local'' race_end"
  by (simp_all add: eval_nat_numeral reach_do_work reach_do_collect race_start_reach)

lemma race_created_state:
  "race_created = \<lparr>cs_sys = \<lparr>world = sample_store\<lparr>mem_Pipelines := [], mem_Fresh := 2, mem_Queue := [CacheItem sample_cache_key]\<rparr>,
       trace = [CallNewCache ''local'', CallRunCache 0, CallQueueAdd (CacheItem sample_cache_key)],
       cachesMap = [sample_cache_key \<mapsto> \<lparr>cc_cache = 0, cc_cancel = 1\<rparr>]\<rparr>,
     cs_workers = (\<lambda>_. W_Idle)(0 := W_Watch None sample_target \<lparr>cc_cache = 0, cc_cancel = 1\<rparr> False), cs_gc = G_Wait\<rparr>"
  by (simp add: do_work_def race_start_def eval_nat_numeral sample_target_def cluster_key_of_def read_caches_def
      cluster_config_def create_cache_def gc_register_def write_caches_def op_defs run_perform mem_new_def Let_def)

theorem cache_interleaving_invariant_witness:
  "CallRunCache 0 \<in> set (trace (cs_sys race_created)) \<and>
   length (calls_of is_run (cs_sys race_created)) =
     card (dom (cachesMap (cs_sys race_created))) + length (calls_of is_cancel (cs_sys race_created))"
proof -
  have "cachesMap (cs_sys race_created) sample_cache_key = Some \<lparr>cc_cache = 0, cc_cancel = 1\<rparr>"
    by (simp only: race_created_state) simp
  with cache_interleaving_invariant [OF race_reach(1)] show ?thesis by (metis cacheAndCancel.select_convs(1))
qed



end

