(* ===== verification/Cache_Runner.thy ===== *)
theory Cache_Runner
  imports Target_Caches
begin

text \<open>
  \<open>runner.go\<close>: the goroutine that starts the target caches with contexts derived from the
  manager's. \<open>run\<close> waits until \<open>Start\<close> has closed the channel \<open>ready\<close>, derives a
  context, and hands function and context over on the unbuffered channel \<open>tostart\<close>;
  \<open>Start\<close> receives in a loop until its own context is done. The only caller of \<open>run\<close> is
  \<open>watchTargetAndGetReader\<close>, which holds \<open>cachesMu\<close> meanwhile; the lock is part of the
  model, since who waits for whom is what can go wrong here. The sequential model of the caches
  has the outcome of a run, \<open>CallRunCache\<close>, as one call.
\<close>

section \<open>The runner\<close>

text \<open>A channel that only gets closed is a flag; the unbuffered channel \<open>tostart\<close> has no state
  of its own, a send is a step that sender and receiver make together. Contexts are numbers.\<close>

record runner =
  r_rootContext :: "nat option"
  r_ready :: bool

definition newRunner :: runner where
  "newRunner = \<lparr>r_rootContext = None, r_ready = False\<rparr>"

text \<open>The beginning of \<open>Start\<close>; closing a closed channel panics.\<close>

definition Start_open :: "nat \<Rightarrow> runner \<Rightarrow> runner outcome" where
  "Start_open ctx r =
     (if r_ready r then Panicked ''close of closed channel''
      else Returned (r\<lparr>r_rootContext := Some ctx, r_ready := True\<rparr>))"

text \<open>Where the loop of \<open>Start\<close> is, and where a call of \<open>run\<close> for the cache \<open>fn\<close> is:
  before the lock, at \<open>\<leftarrow>r.ready\<close>, at the send, back with the cancel function and still in the
  locked section, or after it. From the receive on, the call knows its context.\<close>

datatype service = S_Created | S_Loop | S_Returned

datatype run_call =
    R_Idle
  | R_Lock nat
  | R_Ready nat
  | R_Send nat nat
  | R_Started nat nat
  | R_Unlocked nat nat

record runner_system =
  rs_runner :: runner
  rs_service :: service
  rs_calls :: "nat \<Rightarrow> run_call"
  rs_cachesMu :: "nat option"
  rs_parent :: "nat \<Rightarrow> nat option"
  rs_cancelled :: "nat set"
  rs_next :: nat
  rs_goroutines :: "(nat \<times> nat) list"

text \<open>A context is done when it or the context it was derived from has been cancelled.\<close>

definition ctx_Done :: "runner_system \<Rightarrow> nat \<Rightarrow> bool" where
  "ctx_Done s ctx \<longleftrightarrow> ctx \<in> rs_cancelled s \<or> (case rs_parent s ctx of None \<Rightarrow> False | Some p \<Rightarrow> p \<in> rs_cancelled s)"

abbreviation set_call :: "nat \<Rightarrow> run_call \<Rightarrow> runner_system \<Rightarrow> runner_system" where
  "set_call i c s \<equiv> s\<lparr>rs_calls := (rs_calls s)(i := c)\<rparr>"

text \<open>\<open>context.WithCancel(r.rootContext)\<close>: a fresh context below the root.\<close>

definition WithCancel :: "nat option \<Rightarrow> runner_system \<Rightarrow> nat \<times> runner_system" where
  "WithCancel parent s =
     (rs_next s, s\<lparr>rs_next := Suc (rs_next s), rs_parent := (rs_parent s)(rs_next s := parent)\<rparr>)"

section \<open>Steps\<close>

text \<open>The manager cancels its context at any time (\<open>shutdown\<close>); whoever has a cancel function
  may call it. At the select, a receive may win against a context that is done.\<close>

inductive runner_step :: "nat \<Rightarrow> runner_system \<Rightarrow> runner_system \<Rightarrow> bool" for root where
  enter: "rs_calls s i = R_Idle \<Longrightarrow> runner_step root s (set_call i (R_Lock fn) s)"
| lock: "rs_calls s i = R_Lock fn \<Longrightarrow> rs_cachesMu s = None \<Longrightarrow>
    runner_step root s (set_call i (R_Ready fn) (s\<lparr>rs_cachesMu := Some i\<rparr>))"
| derive: "rs_calls s i = R_Ready fn \<Longrightarrow> r_ready (rs_runner s) \<Longrightarrow>
    WithCancel (r_rootContext (rs_runner s)) s = (ctx, t) \<Longrightarrow> runner_step root s (set_call i (R_Send fn ctx) t)"
| handover: "rs_calls s i = R_Send fn ctx \<Longrightarrow> rs_service s = S_Loop \<Longrightarrow>
    runner_step root s (set_call i (R_Started fn ctx) (s\<lparr>rs_goroutines := rs_goroutines s @ [(fn, ctx)]\<rparr>))"
| unlock: "rs_calls s i = R_Started fn ctx \<Longrightarrow>
    runner_step root s (set_call i (R_Unlocked fn ctx) (s\<lparr>rs_cachesMu := None\<rparr>))"
| cancel: "rs_calls s i = R_Unlocked fn ctx \<Longrightarrow>
    runner_step root s (s\<lparr>rs_cancelled := insert ctx (rs_cancelled s)\<rparr>)"
| start: "rs_service s = S_Created \<Longrightarrow> Start_open root (rs_runner s) = Returned r \<Longrightarrow>
    runner_step root s (s\<lparr>rs_runner := r, rs_service := S_Loop\<rparr>)"
| return: "rs_service s = S_Loop \<Longrightarrow> r_rootContext (rs_runner s) = Some ctx \<Longrightarrow> ctx_Done s ctx \<Longrightarrow>
    runner_step root s (s\<lparr>rs_service := S_Returned\<rparr>)"
| shutdown: "runner_step root s (s\<lparr>rs_cancelled := insert root (rs_cancelled s)\<rparr>)"

text \<open>The start: the manager's context exists, nothing else does.\<close>

definition runner_init :: "nat \<Rightarrow> runner_system" where
  "runner_init root =
     \<lparr>rs_runner = newRunner, rs_service = S_Created, rs_calls = (\<lambda>_. R_Idle), rs_cachesMu = None,
      rs_parent = (\<lambda>_. None), rs_cancelled = {}, rs_next = Suc root, rs_goroutines = []\<rparr>"

abbreviation runner_steps :: "nat \<Rightarrow> runner_system \<Rightarrow> runner_system \<Rightarrow> bool" where
  "runner_steps root \<equiv> (runner_step root)\<^sup>*\<^sup>*"

section \<open>Invariant\<close>

fun in_section :: "run_call \<Rightarrow> bool" where
  "in_section (R_Ready _) = True"
| "in_section (R_Send _ _) = True"
| "in_section (R_Started _ _) = True"
| "in_section _ = False"

fun call_ctx :: "run_call \<Rightarrow> nat option" where
  "call_ctx (R_Send _ ctx) = Some ctx"
| "call_ctx (R_Started _ ctx) = Some ctx"
| "call_ctx (R_Unlocked _ ctx) = Some ctx"
| "call_ctx _ = None"

fun has_started :: "nat \<Rightarrow> nat \<Rightarrow> run_call \<Rightarrow> bool" where
  "has_started fn ctx (R_Started fn' ctx') \<longleftrightarrow> fn' = fn \<and> ctx' = ctx"
| "has_started fn ctx (R_Unlocked fn' ctx') \<longleftrightarrow> fn' = fn \<and> ctx' = ctx"
| "has_started fn ctx _ \<longleftrightarrow> False"

text \<open>The lock is held by exactly the call in the section; the channel is closed exactly once the
  loop has begun, with the manager's context as the root.\<close>

definition section_inv :: "runner_system \<Rightarrow> bool" where
  "section_inv s \<longleftrightarrow> (\<forall>i. in_section (rs_calls s i) \<longleftrightarrow> rs_cachesMu s = Some i)"

definition service_inv :: "nat \<Rightarrow> runner_system \<Rightarrow> bool" where
  "service_inv root s \<longleftrightarrow>
     (if rs_service s = S_Created then rs_runner s = newRunner
      else rs_runner s = \<lparr>r_rootContext = Some root, r_ready = True\<rparr>)"

text \<open>The contexts of the calls are derived from the root, each for its call alone.\<close>

definition context_inv :: "nat \<Rightarrow> runner_system \<Rightarrow> bool" where
  "context_inv root s \<longleftrightarrow>
     root < rs_next s \<and> rs_parent s root = None \<and>
     (\<forall>i ctx. call_ctx (rs_calls s i) = Some ctx \<longrightarrow>
        rs_service s \<noteq> S_Created \<and> root < ctx \<and> ctx < rs_next s \<and> rs_parent s ctx = Some root) \<and>
     (\<forall>i j ctx. call_ctx (rs_calls s i) = Some ctx \<longrightarrow> call_ctx (rs_calls s j) = Some ctx \<longrightarrow> i = j)"

text \<open>The goroutines are those of the calls that are past the send, one each.\<close>

definition started_inv :: "runner_system \<Rightarrow> bool" where
  "started_inv s \<longleftrightarrow>
     (\<forall>fn ctx. (fn, ctx) \<in> set (rs_goroutines s) \<longleftrightarrow> (\<exists>i. has_started fn ctx (rs_calls s i))) \<and>
     distinct (map snd (rs_goroutines s))"

definition runner_inv :: "nat \<Rightarrow> runner_system \<Rightarrow> bool" where
  "runner_inv root s \<longleftrightarrow> section_inv s \<and> service_inv root s \<and> context_inv root s \<and> started_inv s"

lemmas step_defs = WithCancel_def Start_open_def newRunner_def

lemma has_started_ctx: "has_started fn ctx c \<Longrightarrow> call_ctx c = Some ctx"
  by (cases c) auto

lemma section_step:
  assumes "runner_step root s t" and "section_inv s"
  shows "section_inv t"
  unfolding section_inv_def
proof
  fix j
  note inv = assms(2) [unfolded section_inv_def, rule_format]
  from assms(1) show "in_section (rs_calls t j) \<longleftrightarrow> rs_cachesMu t = Some j"
  proof cases
    case (unlock i fn ctx)
    then show ?thesis using inv [of i] inv [of j] by simp
  next
    case (derive i fn ctx u)
    then show ?thesis using inv [of i] inv [of j] by (auto simp: WithCancel_def)
  next
    case (handover i fn ctx)
    then show ?thesis using inv [of i] inv [of j] by auto
  qed (use inv [of j] in auto)
qed

lemma service_step: "runner_step root s t \<Longrightarrow> service_inv root s \<Longrightarrow> service_inv root t"
  by (erule runner_step.cases) (simp_all add: service_inv_def step_defs split: if_splits)

lemma context_step:
  assumes "runner_step root s t" and "service_inv root s" and "context_inv root s"
  shows "context_inv root t"
  using assms
proof cases
  case (derive i fn ctx u)
  have new: "call_ctx (rs_calls s j) \<noteq> Some (rs_next s)" for j using assms(3) by (auto simp: context_inv_def)
  from derive have "rs_service s \<noteq> S_Created" "r_rootContext (rs_runner s) = Some root"
    using assms(2) by (auto simp: service_inv_def newRunner_def split: if_splits)
  with derive assms(3) new show ?thesis by (auto simp: context_inv_def WithCancel_def less_Suc_eq)
next
  case (handover i fn ctx)
  then have "call_ctx (rs_calls t j) = call_ctx (rs_calls s j)" for j by simp
  with handover assms(3) show ?thesis by (auto simp: context_inv_def)
next
  case (unlock i fn ctx)
  then have "call_ctx (rs_calls t j) = call_ctx (rs_calls s j)" for j by simp
  with unlock assms(3) show ?thesis by (auto simp: context_inv_def)
qed (auto simp: context_inv_def split: if_splits)

lemma started_step:
  assumes "runner_step root s t" and "context_inv root s" and "started_inv s"
  shows "started_inv t"
  using assms
proof cases
  case (handover i fn ctx)
  have "ctx \<notin> snd ` set (rs_goroutines s)"
  proof
    assume "ctx \<in> snd ` set (rs_goroutines s)"
    then obtain fn' j where j: "has_started fn' ctx (rs_calls s j)" using assms(3) by (auto simp: started_inv_def)
    then have "i = j" using handover(2) assms(2) has_started_ctx [OF j] by (auto simp: context_inv_def)
    with j handover(2) show False by simp
  qed
  moreover have "has_started fn' ctx' (rs_calls t j) \<longleftrightarrow>
      has_started fn' ctx' (rs_calls s j) \<or> j = i \<and> fn' = fn \<and> ctx' = ctx" for fn' ctx' j
    using handover by auto
  ultimately show ?thesis using handover assms(3) by (auto simp: started_inv_def)
next
  case (unlock i fn ctx)
  then have "has_started fn' ctx' (rs_calls t j) \<longleftrightarrow> has_started fn' ctx' (rs_calls s j)" for fn' ctx' j by simp
  with unlock assms(3) show ?thesis by (simp add: started_inv_def)
next
  case (enter i fn)
  then have "has_started fn' ctx' (rs_calls t j) \<longleftrightarrow> has_started fn' ctx' (rs_calls s j)" for fn' ctx' j by simp
  with enter assms(3) show ?thesis by (simp add: started_inv_def)
next
  case (lock i fn)
  then have "has_started fn' ctx' (rs_calls t j) \<longleftrightarrow> has_started fn' ctx' (rs_calls s j)" for fn' ctx' j by simp
  with lock assms(3) show ?thesis by (simp add: started_inv_def)
next
  case (derive i fn ctx u)
  then have "has_started fn' ctx' (rs_calls t j) \<longleftrightarrow> has_started fn' ctx' (rs_calls s j)" for fn' ctx' j
    by (auto simp: WithCancel_def)
  moreover from derive have "rs_goroutines t = rs_goroutines s" by (auto simp: WithCancel_def)
  ultimately show ?thesis using assms(3) by (simp add: started_inv_def)
qed (auto simp: started_inv_def)

lemma runner_init_inv: "runner_inv root (runner_init root)"
  by (simp add: runner_inv_def runner_init_def section_inv_def service_inv_def context_inv_def started_inv_def)

lemma runner_step_inv: "runner_step root s t \<Longrightarrow> runner_inv root s \<Longrightarrow> runner_inv root t"
  unfolding runner_inv_def using section_step service_step context_step started_step by blast

lemma runner_steps_inv: "runner_steps root s t \<Longrightarrow> runner_inv root s \<Longrightarrow> runner_inv root t"
  by (induction rule: rtranclp_induct) (auto intro: runner_step_inv)

lemmas runner_reach_inv = runner_steps_inv [OF _ runner_init_inv]

section \<open>Progress and blocking\<close>

text \<open>While the loop runs, the call in the section gets through it, and the others stay where they are.\<close>

definition passes :: "nat \<Rightarrow> runner_system \<Rightarrow> runner_system \<Rightarrow> bool" where
  "passes i s t \<longleftrightarrow> rs_cachesMu t = None \<and> rs_service t = rs_service s \<and> (\<forall>j. j \<noteq> i \<longrightarrow> rs_calls t j = rs_calls s j)"

lemma started_passes:
  assumes "rs_calls s i = R_Started fn ctx"
  shows "\<exists>t. runner_steps root s t \<and> passes i s t \<and> rs_calls t i = R_Unlocked fn ctx"
proof -
  let ?t = "set_call i (R_Unlocked fn ctx) (s\<lparr>rs_cachesMu := None\<rparr>)"
  have "runner_step root s ?t" by (rule runner_step.unlock [OF assms])
  then have "runner_steps root s ?t" by (rule r_into_rtranclp)
  then show ?thesis by (auto simp: passes_def intro!: exI [of _ ?t])
qed

lemma send_passes:
  assumes "rs_calls s i = R_Send fn ctx" and "rs_service s = S_Loop"
  shows "\<exists>t. runner_steps root s t \<and> passes i s t \<and> rs_calls t i = R_Unlocked fn ctx"
proof -
  let ?u = "set_call i (R_Started fn ctx) (s\<lparr>rs_goroutines := rs_goroutines s @ [(fn, ctx)]\<rparr>)"
  have "runner_step root s ?u" by (rule runner_step.handover [OF assms])
  moreover obtain t where "runner_steps root ?u t" "passes i ?u t" "rs_calls t i = R_Unlocked fn ctx"
    using started_passes [of ?u i fn ctx root] by auto
  ultimately show ?thesis by (auto simp: passes_def intro: converse_rtranclp_into_rtranclp)
qed

lemma ready_passes:
  assumes "rs_calls s i = R_Ready fn" and "rs_service s = S_Loop" and "service_inv root s"
  shows "\<exists>t ctx. runner_steps root s t \<and> passes i s t \<and> rs_calls t i = R_Unlocked fn ctx"
proof -
  obtain ctx u where u: "WithCancel (r_rootContext (rs_runner s)) s = (ctx, u)" by fastforce
  have "runner_step root s (set_call i (R_Send fn ctx) u)"
    using assms u by (intro runner_step.derive) (auto simp: service_inv_def)
  moreover obtain t where "runner_steps root (set_call i (R_Send fn ctx) u) t" "passes i (set_call i (R_Send fn ctx) u) t"
      "rs_calls t i = R_Unlocked fn ctx"
    using send_passes [of "set_call i (R_Send fn ctx) u" i fn ctx root] assms(2) u by (auto simp: WithCancel_def)
  moreover have "rs_service u = rs_service s" "rs_calls u = rs_calls s" using u by (auto simp: WithCancel_def)
  ultimately show ?thesis by (auto simp: passes_def intro: converse_rtranclp_into_rtranclp)
qed

lemma section_passes:
  assumes "in_section (rs_calls s i)" and "rs_service s = S_Loop" and "service_inv root s"
  shows "\<exists>t. runner_steps root s t \<and> passes i s t"
proof (cases "rs_calls s i")
  case (R_Ready fn)
  with ready_passes assms show ?thesis by blast
next
  case (R_Send fn ctx)
  with send_passes assms show ?thesis by blast
next
  case (R_Started fn ctx)
  with started_passes show ?thesis by blast
qed (use assms(1) in auto)

lemma lock_free_eventually:
  assumes "runner_inv root s" and "rs_service s = S_Loop" and "rs_calls s i = R_Lock fn"
  shows "\<exists>t. runner_steps root s t \<and> rs_service t = S_Loop \<and> rs_cachesMu t = None \<and> rs_calls t i = R_Lock fn"
proof (cases "rs_cachesMu s")
  case None
  with assms show ?thesis by blast
next
  case (Some j)
  with assms(1) have "in_section (rs_calls s j)" by (auto simp: runner_inv_def section_inv_def)
  moreover from this assms(3) have "i \<noteq> j" by auto
  ultimately show ?thesis
    using section_passes [of s j root] assms by (fastforce simp: passes_def runner_inv_def)
qed

text \<open>After the loop has returned, a call before its send stays there, with the lock.\<close>

definition stuck :: "nat \<Rightarrow> nat \<Rightarrow> runner_system \<Rightarrow> bool" where
  "stuck i fn s \<longleftrightarrow> rs_service s = S_Returned \<and> rs_cachesMu s = Some i \<and>
     (rs_calls s i = R_Ready fn \<or> (\<exists>ctx. rs_calls s i = R_Send fn ctx))"

lemma stuck_step:
  assumes "runner_step root s t" and "stuck i fn s" and "section_inv s"
  shows "stuck i fn t \<and> rs_goroutines t = rs_goroutines s \<and>
    (\<forall>j fn'. rs_calls s j = R_Lock fn' \<longrightarrow> rs_calls t j = R_Lock fn')"
  using assms(1)
proof cases
  case (derive j fn' ctx u)
  then have "j = i" using assms(2,3)
    by (metis in_section.simps(1) option.inject section_inv_def stuck_def)
  with derive assms(2) show ?thesis by (auto simp: stuck_def WithCancel_def)
next
  case (unlock j fn' ctx)
  then have "rs_cachesMu s = Some j" using assms(3) by (metis in_section.simps(3) section_inv_def)
  with unlock assms(2) show ?thesis by (auto simp: stuck_def)
qed (use assms(2) in \<open>auto simp: stuck_def\<close>)

lemma stuck_steps:
  assumes "runner_steps root s t" and "stuck i fn s" and "section_inv s"
  shows "stuck i fn t \<and> rs_goroutines t = rs_goroutines s \<and>
    (\<forall>j fn'. rs_calls s j = R_Lock fn' \<longrightarrow> rs_calls t j = R_Lock fn')"
proof -
  have "stuck i fn t \<and> section_inv t \<and> rs_goroutines t = rs_goroutines s \<and>
    (\<forall>j fn'. rs_calls s j = R_Lock fn' \<longrightarrow> rs_calls t j = R_Lock fn')"
    using assms(1)
  proof (induction rule: rtranclp_induct)
    case base
    with assms(2,3) show ?case by simp
  next
    case (step u v)
    then show ?case using stuck_step [OF step(2), of i fn] section_step [OF step(2)] by auto
  qed
  then show ?thesis by blast
qed

section \<open>A run\<close>

text \<open>Call 0 of \<open>run\<close> at the point \<open>c\<close>, call 1 waiting for the lock.\<close>

definition demo :: "service \<Rightarrow> run_call \<Rightarrow> nat option \<Rightarrow> nat set \<Rightarrow> (nat \<times> nat) list \<Rightarrow> runner_system" where
  "demo service c mu cancelled started =
     \<lparr>rs_runner = (if service = S_Created then newRunner else \<lparr>r_rootContext = Some 0, r_ready = True\<rparr>),
      rs_service = service, rs_calls = (\<lambda>_. R_Idle)(0 := c, 1 := R_Lock 8), rs_cachesMu = mu,
      rs_parent = (if call_ctx c = None then Map.empty else [1 \<mapsto> 0]), rs_cancelled = cancelled,
      rs_next = (if call_ctx c = None then 1 else 2), rs_goroutines = started\<rparr>"

lemmas demo_simps = demo_def runner_init_def step_defs

lemma demo_waiting: "runner_steps 0 (runner_init 0) (demo S_Loop (R_Ready 7) (Some 0) {} [])"
proof -
  let ?s1 = "set_call 0 (R_Lock 7) (runner_init 0)" and ?s2 = "demo S_Created (R_Lock 7) None {} []"
  have "runner_steps 0 (runner_init 0) ?s1"
    by (rule r_into_rtranclp, rule runner_step.enter) (simp add: demo_simps)
  also have "runner_step 0 ?s1 ?s2"
    using runner_step.enter [of ?s1 1 0 8] by (simp add: demo_simps)
  also have "runner_step 0 ?s2 (demo S_Created (R_Ready 7) (Some 0) {} [])"
    using runner_step.lock [of ?s2 0 7 0] by (simp add: demo_simps fun_upd_twist)
  also have "runner_step 0 (demo S_Created (R_Ready 7) (Some 0) {} []) (demo S_Loop (R_Ready 7) (Some 0) {} [])"
    using runner_step.start [of "demo S_Created (R_Ready 7) (Some 0) {} []" 0] by (simp add: demo_simps)
  finally show ?thesis .
qed

lemma demo_unlocked: "runner_steps 0 (runner_init 0) (demo S_Loop (R_Unlocked 7 1) None {} [(7, 1)])"
proof -
  let ?s0 = "demo S_Loop (R_Ready 7) (Some 0) {} []" and ?s1 = "demo S_Loop (R_Send 7 1) (Some 0) {} []"
  let ?s2 = "demo S_Loop (R_Started 7 1) (Some 0) {} [(7, 1)]"
  note demo_waiting
  also have "runner_step 0 ?s0 ?s1"
    using runner_step.derive [of ?s0 0 7 1 "snd (WithCancel (Some 0) ?s0)" 0]
    by (simp add: demo_simps fun_upd_twist numeral_2_eq_2)
  also have "runner_step 0 ?s1 ?s2"
    using runner_step.handover [of ?s1 0 7 1 0] by (simp add: demo_simps fun_upd_twist)
  also have "runner_step 0 ?s2 (demo S_Loop (R_Unlocked 7 1) None {} [(7, 1)])"
    using runner_step.unlock [of ?s2 0 7 1 0] by (simp add: demo_simps fun_upd_twist)
  finally show ?thesis .
qed

lemma demo_stuck: "runner_steps 0 (runner_init 0) (demo S_Returned (R_Ready 7) (Some 0) {0} [])"
proof -
  let ?s0 = "demo S_Loop (R_Ready 7) (Some 0) {} []" and ?s1 = "demo S_Loop (R_Ready 7) (Some 0) {0} []"
  note demo_waiting
  also have "runner_step 0 ?s0 ?s1" using runner_step.shutdown [of 0 ?s0] by (simp add: demo_simps)
  also have "runner_step 0 ?s1 (demo S_Returned (R_Ready 7) (Some 0) {0} [])"
    using runner_step.return [of ?s1 0 0] by (simp add: demo_simps ctx_Done_def)
  finally show ?thesis .
qed

lemma demo_derive:
  "runner_step 0 (demo S_Returned (R_Ready 7) (Some 0) {0} []) (demo S_Returned (R_Send 7 1) (Some 0) {0} [])"
  using runner_step.derive [of "demo S_Returned (R_Ready 7) (Some 0) {0} []" 0 7 1
      "snd (WithCancel (Some 0) (demo S_Returned (R_Ready 7) (Some 0) {0} []))" 0]
  by (simp add: demo_simps fun_upd_twist numeral_2_eq_2)

section \<open>Properties\<close>

text \<open>C17. Every cache is started once, with a context of its own. In every reachable state the
  goroutines started are exactly those of the calls of \<open>run\<close> that are past their send, with
  pairwise different contexts, and there is none before \<open>Start\<close>; at most one call is in the
  section of the lock; the context of a goroutine is done exactly if the manager's context or just
  this one has been cancelled.\<close>

theorem runner_starts_once:
  assumes "runner_steps root (runner_init root) s"
  shows "distinct (map snd (rs_goroutines s)) \<and>
    (\<forall>fn ctx. (fn, ctx) \<in> set (rs_goroutines s) \<longleftrightarrow> (\<exists>i. has_started fn ctx (rs_calls s i))) \<and>
    (rs_service s = S_Created \<longrightarrow> rs_goroutines s = []) \<and>
    (\<forall>i j. in_section (rs_calls s i) \<longrightarrow> in_section (rs_calls s j) \<longrightarrow> i = j) \<and>
    (\<forall>(fn, ctx) \<in> set (rs_goroutines s). ctx_Done s ctx \<longleftrightarrow> root \<in> rs_cancelled s \<or> ctx \<in> rs_cancelled s)"
proof -
  from runner_reach_inv [OF assms] have inv: "section_inv s" "context_inv root s" "started_inv s"
    by (auto simp: runner_inv_def)
  have ctx: "rs_service s \<noteq> S_Created \<and> rs_parent s ctx = Some root" if "(fn, ctx) \<in> set (rs_goroutines s)" for fn ctx
    using that inv(2,3) has_started_ctx unfolding started_inv_def context_inv_def by blast
  then have "rs_service s = S_Created \<longrightarrow> rs_goroutines s = []" by (cases "rs_goroutines s") auto
  moreover have "\<forall>(fn, ctx) \<in> set (rs_goroutines s). ctx_Done s ctx \<longleftrightarrow> root \<in> rs_cancelled s \<or> ctx \<in> rs_cancelled s"
    using ctx by (fastforce simp: ctx_Done_def)
  ultimately show ?thesis using inv(1,3) by (auto simp: section_inv_def started_inv_def)
qed

theorem runner_starts_once_witness:
  "distinct (map snd (rs_goroutines (demo S_Loop (R_Unlocked 7 1) None {} [(7, 1)]))) \<and>
   (\<exists>i. has_started 7 1 (rs_calls (demo S_Loop (R_Unlocked 7 1) None {} [(7, 1)]) i))"
proof -
  have "(7, 1) \<in> set (rs_goroutines (demo S_Loop (R_Unlocked 7 1) None {} [(7, 1)]))" by (simp add: demo_def)
  with runner_starts_once [OF demo_unlocked] show ?thesis by blast
qed

text \<open>C18. While the manager runs, \<open>run\<close> is never stuck. From every reachable state in which the loop
  of \<open>Start\<close> is running, a call that waits for the lock or is in its section can still get to the end
  of it, and its function has then been started.\<close>

theorem run_returns:
  assumes "runner_steps root (runner_init root) s" and "rs_service s = S_Loop"
    and "rs_calls s i = R_Lock fn \<or> rs_calls s i = R_Ready fn \<or> rs_calls s i = R_Send fn c"
  shows "\<exists>t ctx. runner_steps root s t \<and> rs_calls t i = R_Unlocked fn ctx \<and> (fn, ctx) \<in> set (rs_goroutines t)"
proof -
  note inv = runner_reach_inv [OF assms(1)]
  have "\<exists>t ctx. runner_steps root s t \<and> rs_calls t i = R_Unlocked fn ctx"
    using assms(3)
  proof (elim disjE)
    assume "rs_calls s i = R_Lock fn"
    with lock_free_eventually [OF inv assms(2)] obtain u where
      u: "runner_steps root s u" "rs_service u = S_Loop" "rs_cachesMu u = None" "rs_calls u i = R_Lock fn" by blast
    let ?v = "set_call i (R_Ready fn) (u\<lparr>rs_cachesMu := Some i\<rparr>)"
    have v: "runner_step root u ?v" by (rule runner_step.lock [OF u(4,3)])
    have "runner_inv root ?v" by (rule runner_step_inv [OF v runner_steps_inv [OF u(1) inv]])
    then obtain t ctx where t: "runner_steps root ?v t" "rs_calls t i = R_Unlocked fn ctx"
      using ready_passes [of ?v i fn root] u(2) by (auto simp: runner_inv_def)
    have "runner_steps root s t" using u(1) v t(1) by (meson converse_rtranclp_into_rtranclp rtranclp_trans)
    with t(2) show ?thesis by blast
  next
    assume "rs_calls s i = R_Ready fn"
    with ready_passes [of s i fn root] assms(2) inv show ?thesis by (auto simp: runner_inv_def)
  next
    assume "rs_calls s i = R_Send fn c"
    with send_passes [of s i fn c root] assms(2) show ?thesis by auto
  qed
  then obtain t ctx where t: "runner_steps root s t" "rs_calls t i = R_Unlocked fn ctx" by blast
  have "started_inv t" using runner_steps_inv [OF t(1) inv] by (simp add: runner_inv_def)
  moreover have "has_started fn ctx (rs_calls t i)" using t(2) by simp
  ultimately have "(fn, ctx) \<in> set (rs_goroutines t)" unfolding started_inv_def by blast
  with t show ?thesis by blast
qed

theorem run_returns_witness:
  "\<exists>t ctx. runner_steps 0 (demo S_Loop (R_Ready 7) (Some 0) {} []) t \<and> rs_calls t 1 = R_Unlocked 8 ctx \<and>
     (8, ctx) \<in> set (rs_goroutines t)"
  by (rule run_returns [OF demo_waiting]) (simp_all add: demo_def)

text \<open>C39. After shutdown, \<open>run\<close> never returns and keeps the lock. Once the loop of \<open>Start\<close> has
  returned, a call that is before its send stays there for ever: it holds \<open>cachesMu\<close>, no cache is
  started any more, and every call that waits for the lock goes on waiting.\<close>

theorem run_blocks_after_shutdown:
  assumes "runner_steps root (runner_init root) s" and "rs_service s = S_Returned"
    and "rs_calls s i = R_Ready fn \<or> rs_calls s i = R_Send fn c" and "runner_steps root s t"
  shows "rs_cachesMu t = Some i \<and> rs_goroutines t = rs_goroutines s \<and>
    (rs_calls t i = R_Ready fn \<or> (\<exists>ctx. rs_calls t i = R_Send fn ctx)) \<and>
    (\<forall>j fn'. rs_calls s j = R_Lock fn' \<longrightarrow> rs_calls t j = R_Lock fn')"
proof -
  have inv: "section_inv s" using runner_reach_inv [OF assms(1)] by (simp add: runner_inv_def)
  then have "rs_cachesMu s = Some i" using assms(3) by (metis in_section.simps(1,2) section_inv_def)
  then have "stuck i fn s" using assms(2,3) by (auto simp: stuck_def)
  from stuck_steps [OF assms(4) this inv] show ?thesis by (auto simp: stuck_def)
qed

theorem run_blocks_after_shutdown_witness:
  "rs_cachesMu (demo S_Returned (R_Send 7 1) (Some 0) {0} []) = Some 0 \<and>
   rs_calls (demo S_Returned (R_Send 7 1) (Some 0) {0} []) 1 = R_Lock 8"
proof -
  have "runner_steps 0 (demo S_Returned (R_Ready 7) (Some 0) {0} []) (demo S_Returned (R_Send 7 1) (Some 0) {0} [])"
    using demo_derive by (rule r_into_rtranclp)
  from run_blocks_after_shutdown [OF demo_stuck _ _ this, of 0 7 0]
  show ?thesis by (simp add: demo_def)
qed

end
