(* ===== verification/Cache_Collector.thy ===== *)
theory Cache_Collector
  imports Cache_Runner
begin

text \<open>
  The life of the cache garbage collector (\<open>newGC\<close> and \<open>gc.Start\<close> of \<open>caching.go\<close>).
  \<open>Start\<close> checks its fields, runs \<open>gc.loop\<close> in a goroutine of its own, waits until its
  context is done, shuts the work queue down and returns; the goroutine is left to find out from
  the queue. Manager, goroutine and the callers of \<open>register\<close> run concurrently and are a step
  relation here; \<open>Target_Caches\<close> has what one turn of the loop does to the caches, and
  \<open>Cache_Concurrency\<close> its interleaving with the reconcilers. The work queue belongs to
  client-go and is a parameter with its documented contract.
\<close>

section \<open>The work queue\<close>

text \<open>\<open>Get\<close> blocks (\<open>None\<close>), returns an item, or reports the shutdown (\<open>Some (None, q)\<close>).
  \<open>Due\<close> is the queue's own timer: a rate-limited item becomes ready.\<close>

record 'q workqueue =
  wq_Get :: "'q \<Rightarrow> (queue_item option \<times> 'q) option"
  wq_Add :: "queue_item \<Rightarrow> 'q \<Rightarrow> 'q"
  wq_AddRateLimited :: "queue_item \<Rightarrow> 'q \<Rightarrow> 'q"
  wq_Done :: "queue_item \<Rightarrow> 'q \<Rightarrow> 'q"
  wq_Forget :: "queue_item \<Rightarrow> 'q \<Rightarrow> 'q"
  wq_ShutDown :: "'q \<Rightarrow> 'q"
  wq_Due :: "'q \<Rightarrow> 'q"

text \<open>The documented contract of \<open>ShutDown\<close>: from then on new items are ignored, and once the
  existing items are drained \<open>Get\<close> tells its callers to exit. \<open>backlog\<close> counts the items
  still to be handed out.\<close>

definition stays_shut :: "('q \<Rightarrow> bool) \<Rightarrow> ('q \<Rightarrow> nat) \<Rightarrow> ('q \<Rightarrow> 'q) \<Rightarrow> bool" where
  "stays_shut shut backlog f \<longleftrightarrow> (\<forall>q. shut q \<longrightarrow> shut (f q) \<and> backlog (f q) \<le> backlog q)"

definition shutdown_contract :: "'q workqueue \<Rightarrow> ('q \<Rightarrow> bool) \<Rightarrow> ('q \<Rightarrow> nat) \<Rightarrow> bool" where
  "shutdown_contract Q shut backlog \<longleftrightarrow>
     (\<forall>q. shut (wq_ShutDown Q q)) \<and>
     (\<forall>q. shut q \<longrightarrow>
        (case wq_Get Q q of
           None \<Rightarrow> False
         | Some (None, q') \<Rightarrow> shut q' \<and> backlog q' \<le> backlog q
         | Some (Some it, q') \<Rightarrow> shut q' \<and> backlog q' < backlog q)) \<and>
     (\<forall>it. stays_shut shut backlog (wq_Add Q it) \<and> stays_shut shut backlog (wq_AddRateLimited Q it) \<and>
        stays_shut shut backlog (wq_Done Q it) \<and> stays_shut shut backlog (wq_Forget Q it)) \<and>
     stays_shut shut backlog (wq_Due Q)"

section \<open>The collector\<close>

text \<open>Both fields may be nil. \<open>'c\<close> is whoever implements \<open>cachesInterface\<close>.\<close>

record ('c, 'q) gc =
  gc_caches :: "'c option"
  gc_queue :: "'q option"

definition gc_second :: int where
  "gc_second = 1000000000"

text \<open>The queue is made by the library from the limits of the exponential back-off.\<close>

definition newGC :: "(int \<Rightarrow> int \<Rightarrow> 'q) \<Rightarrow> 'c \<Rightarrow> ('c, 'q) gc" where
  "newGC NewRateLimitingQueue caches =
     \<lparr>gc_caches = Some caches, gc_queue = Some (NewRateLimitingQueue (2 * gc_second) (512 * gc_second))\<rparr>"

section \<open>The struct of the caches\<close>

text \<open>\<open>caches\<close>, whose map the other theories keep in the state of the process, as \<open>newCaches\<close>
  makes it, and the assignments of \<open>setupWithManager\<close>; the calls to the manager that go with them
  are in \<open>Startup\<close>. The channel of events and the scheme are given and never change.\<close>

record 'q caches =
  ca_cachesMap :: "clusterAndGVK \<rightharpoonup> cacheAndCancel"
  ca_localClusterConfig :: "string option"
  ca_reader :: bool
  ca_cachesGC :: "(unit, 'q) gc option"
  ca_runner :: "runner option"

definition newCaches :: "'q caches" where
  "newCaches =
     \<lparr>ca_cachesMap = Map.empty, ca_localClusterConfig = None, ca_reader = False, ca_cachesGC = None,
      ca_runner = None\<rparr>"

definition caches_assignments :: "(int \<Rightarrow> int \<Rightarrow> 'q) \<Rightarrow> string \<Rightarrow> 'q caches \<Rightarrow> 'q caches" where
  "caches_assignments NewRateLimitingQueue config c =
     c\<lparr>ca_localClusterConfig := Some config, ca_reader := True, ca_runner := Some newRunner,
        ca_cachesGC := Some (newGC NewRateLimitingQueue ())\<rparr>"

section \<open>Steps\<close>

text \<open>Where \<open>Start\<close> is: not called, at \<open>\<leftarrow>ctx.Done()\<close>, or returned; where the goroutine is: not
  started, at \<open>queue.Get\<close>, at work on an item, or at its end.\<close>

datatype start_call = Start_Pending | Start_Waiting | Start_Returned "go_error option"

datatype loop_state = Loop_Absent | Loop_Get | Loop_Item queue_item | Loop_Ended

record ('c, 'q) collector =
  col_gc :: "('c, 'q) gc"
  col_start :: start_call
  col_loop :: loop_state
  col_done :: bool
  col_removed :: "clusterAndGVK list"

definition nil_fields :: go_error where
  "nil_fields = PlainError ''neither of caches nor queue can be nil''"

definition gc_Start_check :: "('c, 'q) gc \<Rightarrow> go_error option" where
  "gc_Start_check g = (if gc_caches g = None \<or> gc_queue g = None then Some nil_fields else None)"

text \<open>The key a turn works with, and the calls it makes to the queue for an answer of
  \<open>isCacheUsed\<close>.\<close>

fun item_key :: "queue_item \<Rightarrow> clusterAndGVK" where
  "item_key (CacheItem k) = k"
| "item_key (OtherItem n) = zero_clusterAndGVK"

definition turn_calls :: "go_error + bool \<Rightarrow> queue_item \<Rightarrow> call list" where
  "turn_calls used item =
     (case item of CacheItem k \<Rightarrow> [] | OtherItem n \<Rightarrow> [CallQueueForget item, CallQueueDone item]) @
     (let key = CacheItem (item_key item)
      in case used of
           Inl err \<Rightarrow> []
         | Inr ok \<Rightarrow>
             if ok then [CallQueueDone key, CallQueueAddRateLimited key]
             else [CallQueueForget key, CallQueueDone key])"

definition apply_call :: "'q workqueue \<Rightarrow> call \<Rightarrow> 'q \<Rightarrow> 'q" where
  "apply_call Q c q =
     (case c of
        CallQueueAdd it \<Rightarrow> wq_Add Q it q
      | CallQueueAddRateLimited it \<Rightarrow> wq_AddRateLimited Q it q
      | CallQueueDone it \<Rightarrow> wq_Done Q it q
      | CallQueueForget it \<Rightarrow> wq_Forget Q it q
      | _ \<Rightarrow> q)"

abbreviation set_queue :: "'q \<Rightarrow> ('c, 'q) collector \<Rightarrow> ('c, 'q) collector" where
  "set_queue q s \<equiv> s\<lparr>col_gc := (col_gc s)\<lparr>gc_queue := Some q\<rparr>\<rparr>"

text \<open>The steps of the goroutine. \<open>isCacheUsed\<close> may answer anything.\<close>

inductive loop_step :: "'q workqueue \<Rightarrow> ('c, 'q) collector \<Rightarrow> ('c, 'q) collector \<Rightarrow> bool" for Q where
  take: "col_loop s = Loop_Get \<Longrightarrow> gc_queue (col_gc s) = Some q \<Longrightarrow> wq_Get Q q = Some (Some it, q') \<Longrightarrow>
    loop_step Q s (set_queue q' (s\<lparr>col_loop := Loop_Item it\<rparr>))"
| exit: "col_loop s = Loop_Get \<Longrightarrow> gc_queue (col_gc s) = Some q \<Longrightarrow> wq_Get Q q = Some (None, q') \<Longrightarrow>
    loop_step Q s (set_queue q' (s\<lparr>col_loop := Loop_Ended\<rparr>))"
| turn: "col_loop s = Loop_Item it \<Longrightarrow> gc_queue (col_gc s) = Some q \<Longrightarrow>
    loop_step Q s (set_queue (fold (apply_call Q) (turn_calls used it) q)
      (s\<lparr>col_loop := Loop_Get,
         col_removed := col_removed s @ (if used = Inr False then [item_key it] else [])\<rparr>))"

text \<open>Everyone else: the manager calls \<open>Start\<close> and cancels its context, reconcilers register
  caches, the queue's timer fires.\<close>

inductive other_step :: "'q workqueue \<Rightarrow> ('c, 'q) collector \<Rightarrow> ('c, 'q) collector \<Rightarrow> bool" for Q where
  refuse: "col_start s = Start_Pending \<Longrightarrow> gc_Start_check (col_gc s) = Some err \<Longrightarrow>
    other_step Q s (s\<lparr>col_start := Start_Returned (Some err)\<rparr>)"
| start: "col_start s = Start_Pending \<Longrightarrow> gc_Start_check (col_gc s) = None \<Longrightarrow>
    other_step Q s (s\<lparr>col_start := Start_Waiting, col_loop := Loop_Get\<rparr>)"
| cancel: "other_step Q s (s\<lparr>col_done := True\<rparr>)"
| shutdown: "col_start s = Start_Waiting \<Longrightarrow> col_done s \<Longrightarrow> gc_queue (col_gc s) = Some q \<Longrightarrow>
    other_step Q s (set_queue (wq_ShutDown Q q) (s\<lparr>col_start := Start_Returned None\<rparr>))"
| register: "gc_queue (col_gc s) = Some q \<Longrightarrow>
    other_step Q s (set_queue (wq_Add Q (CacheItem key) q) s)"
| due: "gc_queue (col_gc s) = Some q \<Longrightarrow> other_step Q s (set_queue (wq_Due Q q) s)"

text \<open>Runs, with the number of steps the goroutine makes.\<close>

inductive collector_run :: "'q workqueue \<Rightarrow> nat \<Rightarrow> ('c, 'q) collector \<Rightarrow> ('c, 'q) collector \<Rightarrow> bool" for Q where
  here: "collector_run Q 0 s s"
| loop: "collector_run Q n s t \<Longrightarrow> loop_step Q t u \<Longrightarrow> collector_run Q (Suc n) s u"
| other: "collector_run Q n s t \<Longrightarrow> other_step Q t u \<Longrightarrow> collector_run Q n s u"

definition collector_init :: "('c, 'q) gc \<Rightarrow> ('c, 'q) collector" where
  "collector_init g =
     \<lparr>col_gc = g, col_start = Start_Pending, col_loop = Loop_Absent, col_done = False, col_removed = []\<rparr>"

text \<open>The calls of a turn are those the sequential model of \<open>gc.loop\<close> makes.\<close>

lemma turn_calls_sequential:
  "calls_of is_queue (exec (gc_loop_body K (caches_iface L K) (CacheItem key)) s) =
     calls_of is_queue s @ turn_calls (value_of (ci_isCacheUsed (caches_iface L K) key) s) (CacheItem key)"
  by (simp add: target_caches.turn_queue turn_calls_def Let_def split: sum.splits bool.splits)

inductive_cases loop_stepE: "loop_step Q s t"
inductive_cases other_stepE: "other_step Q s t"

section \<open>Shutting down\<close>

lemma stays_shut_comp: "stays_shut shut b f \<Longrightarrow> stays_shut shut b g \<Longrightarrow> stays_shut shut b (g \<circ> f)"
  unfolding stays_shut_def by (metis comp_apply le_trans)

lemma stays_shut_id [simp]: "stays_shut shut b id" "stays_shut shut b (\<lambda>q. q)"
  by (simp_all add: stays_shut_def)

lemma apply_call_shut: "shutdown_contract Q shut b \<Longrightarrow> stays_shut shut b (apply_call Q c)"
  by (cases c) (simp_all add: shutdown_contract_def apply_call_def [abs_def])

lemma apply_calls_shut: "shutdown_contract Q shut b \<Longrightarrow> stays_shut shut b (fold (apply_call Q) cs)"
  by (induction cs) (simp_all add: apply_call_shut stays_shut_comp)

text \<open>What is known of the collector in every state, and what holds once \<open>Start\<close> has returned
  because its context was done.\<close>

fun start_inv :: "('q \<Rightarrow> bool) \<Rightarrow> ('c, 'q) collector \<Rightarrow> bool" where
  "start_inv shut s =
     (case col_start s of
        Start_Pending \<Rightarrow> col_loop s = Loop_Absent
      | Start_Waiting \<Rightarrow> col_loop s \<noteq> Loop_Absent
      | Start_Returned (Some e) \<Rightarrow> col_loop s = Loop_Absent
      | Start_Returned None \<Rightarrow> col_loop s \<noteq> Loop_Absent \<and> col_done s \<and>
          (\<exists>q. gc_queue (col_gc s) = Some q \<and> shut q))"

definition winding_down :: "('q \<Rightarrow> bool) \<Rightarrow> ('c, 'q) collector \<Rightarrow> bool" where
  "winding_down shut s \<longleftrightarrow> start_inv shut s \<and> col_start s = Start_Returned None"

lemma winding_downE:
  assumes "winding_down shut s"
  obtains q where "gc_queue (col_gc s) = Some q" "shut q" "col_loop s \<noteq> Loop_Absent" "col_done s"
    "col_start s = Start_Returned None"
  using assms by (auto simp: winding_down_def)

text \<open>The steps left to the goroutine: two per item of the backlog, one to finish the item in
  hand and one to see the shutdown.\<close>

definition steps_left :: "('q \<Rightarrow> nat) \<Rightarrow> ('c, 'q) collector \<Rightarrow> nat" where
  "steps_left backlog s =
     (let b = (case gc_queue (col_gc s) of None \<Rightarrow> 0 | Some q \<Rightarrow> backlog q)
      in case col_loop s of
           Loop_Absent \<Rightarrow> 0
         | Loop_Get \<Rightarrow> 2 * b + 1
         | Loop_Item it \<Rightarrow> 2 * b + 2
         | Loop_Ended \<Rightarrow> 0)"

lemma loop_step_inv:
  assumes contract: "shutdown_contract Q shut backlog" and step: "loop_step Q s t" and inv: "start_inv shut s"
  shows "start_inv shut t"
  using step
proof cases
  case (turn it q used)
  then show ?thesis
    using inv apply_calls_shut [OF contract, of "turn_calls used it"]
    by (auto simp: stays_shut_def split: start_call.splits option.splits)
qed (use inv contract in
      \<open>fastforce simp: shutdown_contract_def split: start_call.splits option.splits\<close>)+

lemma other_step_inv:
  assumes contract: "shutdown_contract Q shut backlog" and step: "other_step Q s t" and inv: "start_inv shut s"
  shows "start_inv shut t"
  using step
proof cases
  case refuse
  then show ?thesis using inv by simp
next
  case start
  then show ?thesis by simp
next
  case cancel
  then show ?thesis using inv by (simp split: start_call.splits option.splits)
next
  case (shutdown q)
  then show ?thesis using inv contract by (simp add: shutdown_contract_def)
next
  case (register q key)
  then show ?thesis
    using inv contract by (auto simp: shutdown_contract_def stays_shut_def split: start_call.splits option.splits)
next
  case (due q)
  then show ?thesis
    using inv contract by (auto simp: shutdown_contract_def stays_shut_def split: start_call.splits option.splits)
qed

lemma run_inv:
  assumes "collector_run Q n s t" "shutdown_contract Q shut backlog" "start_inv shut s"
  shows "start_inv shut t"
  using assms by induction (blast intro: loop_step_inv other_step_inv)+

lemma steps_keep_return:
  "loop_step Q s t \<Longrightarrow> col_start t = col_start s"
  "other_step Q s t \<Longrightarrow> col_start s = Start_Returned r \<Longrightarrow> col_start t = col_start s"
  by (auto elim: loop_stepE other_stepE)

lemma loop_step_left:
  assumes contract: "shutdown_contract Q shut backlog" and step: "loop_step Q s t"
    and down: "winding_down shut s"
  shows "steps_left backlog t < steps_left backlog s"
  using step
proof cases
  case (take q it q')
  have "shut q" using winding_downE [OF down] take by (metis option.inject)
  then have "backlog q' < backlog q"
    using take(4) contract unfolding shutdown_contract_def by (fastforce dest: spec [of _ q])
  then show ?thesis using take by (simp add: steps_left_def)
next
  case (exit q q')
  then show ?thesis by (simp add: steps_left_def)
next
  case (turn it q used)
  then have "backlog (fold (apply_call Q) (turn_calls used it) q) \<le> backlog q"
    using winding_downE [OF down] apply_calls_shut [OF contract, of "turn_calls used it"]
    by (metis option.inject stays_shut_def)
  then show ?thesis using turn by (simp add: steps_left_def)
qed

lemma other_step_left:
  assumes contract: "shutdown_contract Q shut backlog" and step: "other_step Q s t"
    and down: "winding_down shut s"
  shows "steps_left backlog t \<le> steps_left backlog s"
proof -
  obtain q where q: "gc_queue (col_gc s) = Some q" "shut q"
    using down by (auto simp: winding_down_def)
  have le: "steps_left backlog (set_queue q' s) \<le> steps_left backlog s" if "backlog q' \<le> backlog q" for q'
    using that by (auto simp: steps_left_def q Let_def split: loop_state.splits)
  show ?thesis
    using step
  proof cases
    case cancel
    then show ?thesis by (simp add: steps_left_def)
  next
    case (register q1 key)
    then have t: "t = set_queue (wq_Add Q (CacheItem key) q) s" by (simp add: q)
    show ?thesis
      unfolding t by (rule le) (use contract q(2) in \<open>simp add: shutdown_contract_def stays_shut_def\<close>)
  next
    case (due q1)
    then have t: "t = set_queue (wq_Due Q q) s" by (simp add: q)
    show ?thesis
      unfolding t by (rule le) (use contract q(2) in \<open>simp add: shutdown_contract_def stays_shut_def\<close>)
  qed (use down in \<open>simp_all add: winding_down_def\<close>)
qed

lemma winding_down_step:
  assumes "shutdown_contract Q shut backlog" "winding_down shut s"
  shows "loop_step Q s t \<Longrightarrow> winding_down shut t" "other_step Q s t \<Longrightarrow> winding_down shut t"
  using assms steps_keep_return [of Q s t] loop_step_inv [OF assms(1), of s t] other_step_inv [OF assms(1), of s t]
  unfolding winding_down_def by auto

lemma winding_down_run:
  assumes "collector_run Q n s t" "shutdown_contract Q shut backlog" "winding_down shut s"
  shows "winding_down shut t \<and> n + steps_left backlog t \<le> steps_left backlog s"
  using assms
proof induction
  case (loop n s t u)
  then show ?case
    using loop_step_left [of Q shut backlog t u] winding_down_step(1) [of Q shut backlog t u] by fastforce
next
  case (other n s t u)
  then show ?case
    using other_step_left [of Q shut backlog t u] winding_down_step(2) [of Q shut backlog t u] by fastforce
qed simp

lemma winding_down_progress:
  assumes contract: "shutdown_contract Q shut backlog" and down: "winding_down shut s"
  shows "col_loop s = Loop_Ended \<or> (\<exists>t. loop_step Q s t)"
proof -
  obtain q where q: "gc_queue (col_gc s) = Some q" "shut q" "col_loop s \<noteq> Loop_Absent"
    using down by (auto simp: winding_down_def)
  show ?thesis
  proof (cases "col_loop s")
    case Loop_Get
    obtain it q' where "wq_Get Q q = Some (it, q')"
      using contract q(2) by (fastforce simp: shutdown_contract_def split: option.splits)
    then show ?thesis using Loop_Get q by (cases it) (auto intro: loop_step.intros)
  next
    case (Loop_Item it)
    then show ?thesis using q by (blast intro: loop_step.turn)
  qed (use q in simp_all)
qed

section \<open>The collector of the target caches\<close>

text \<open>After the setup nothing the caches need is nil, and the runner and the collector are in
  their initial states.\<close>

lemma caches_setup_complete:
  "let c = caches_assignments mk config newCaches
   in ca_cachesMap c = Map.empty \<and> ca_runner c = Some newRunner \<and>
      (\<exists>g. ca_cachesGC c = Some g \<and> gc_Start_check g = None)"
  by (simp add: caches_assignments_def newCaches_def newGC_def gc_Start_check_def)

lemma run_check:
  assumes "collector_run Q n s t" "gc_Start_check (col_gc s) = None" "\<And>e. col_start s \<noteq> Start_Returned (Some e)"
  shows "gc_Start_check (col_gc t) = None \<and> (\<forall>e. col_start t \<noteq> Start_Returned (Some e))"
  using assms
  by induction (auto simp: gc_Start_check_def split: if_splits elim!: loop_stepE other_stepE)

text \<open>C19. The collector shuts down with the manager: \<open>Start\<close> of a collector made by \<open>newGC\<close>
  never fails, and returns only after its context is done. From then on, whatever the rest of the
  program registers, the goroutine it has started makes at most two steps for each item the
  queue still holds and two more, it never blocks, and so it ends; it is not left running behind
  the manager, provided that the work queue keeps its documented contract.\<close>

theorem collector_shuts_down:
  assumes "shutdown_contract Q shut backlog"
    and "collector_run Q m (collector_init (newGC NewQueue caches)) s"
  shows "(\<forall>e. col_start s \<noteq> Start_Returned (Some e)) \<and>
    (col_start s = Start_Returned None \<longrightarrow>
       col_done s \<and>
       (\<exists>q. gc_queue (col_gc s) = Some q \<and>
          (\<forall>n t. collector_run Q n s t \<longrightarrow>
             n \<le> 2 * backlog q + 2 \<and> (col_loop t = Loop_Ended \<or> (\<exists>u. loop_step Q t u)))))"
proof (intro conjI impI)
  show "\<forall>e. col_start s \<noteq> Start_Returned (Some e)"
    using run_check [OF assms(2)] by (simp add: collector_init_def newGC_def gc_Start_check_def)
  assume ret: "col_start s = Start_Returned None"
  have "start_inv shut s"
    by (rule run_inv [OF assms(2,1)]) (simp add: collector_init_def)
  then have down: "winding_down shut s" using ret by (simp add: winding_down_def)
  then show "col_done s" by (rule winding_downE)
  obtain q where q: "gc_queue (col_gc s) = Some q" using down by (auto simp: winding_down_def)
  have "n \<le> 2 * backlog q + 2 \<and> (col_loop t = Loop_Ended \<or> (\<exists>u. loop_step Q t u))"
    if "collector_run Q n s t" for n t
  proof
    have run: "winding_down shut t" "n + steps_left backlog t \<le> steps_left backlog s"
      using winding_down_run [OF that assms(1) down] by auto
    have "steps_left backlog s \<le> 2 * backlog q + 2"
      by (auto simp: steps_left_def q Let_def split: loop_state.splits)
    then show "n \<le> 2 * backlog q + 2" using run(2) by simp
    show "col_loop t = Loop_Ended \<or> (\<exists>u. loop_step Q t u)"
      by (rule winding_down_progress [OF assms(1) run(1)])
  qed
  then show "\<exists>q. gc_queue (col_gc s) = Some q \<and> (\<forall>n t. collector_run Q n s t \<longrightarrow>
      n \<le> 2 * backlog q + 2 \<and> (col_loop t = Loop_Ended \<or> (\<exists>u. loop_step Q t u)))"
    using q by blast
qed

text \<open>A work queue that keeps the contract: the items ready to be handed out, the rate-limited
  ones, and whether it is shut down.\<close>

record demo_queue =
  dq_ready :: "queue_item list"
  dq_delayed :: "queue_item list"
  dq_shut :: bool

definition demo_workqueue :: "demo_queue workqueue" where
  "demo_workqueue =
     \<lparr>wq_Get = (\<lambda>q. case dq_ready q of
          [] \<Rightarrow> if dq_shut q then Some (None, q) else None
        | it # its \<Rightarrow> Some (Some it, q\<lparr>dq_ready := its\<rparr>)),
      wq_Add = (\<lambda>it q. if dq_shut q then q else q\<lparr>dq_ready := dq_ready q @ [it]\<rparr>),
      wq_AddRateLimited = (\<lambda>it q. if dq_shut q then q else q\<lparr>dq_delayed := dq_delayed q @ [it]\<rparr>),
      wq_Done = (\<lambda>it q. q),
      wq_Forget = (\<lambda>it q. q),
      wq_ShutDown = (\<lambda>q. q\<lparr>dq_shut := True\<rparr>),
      wq_Due = (\<lambda>q. if dq_shut q then q
                    else q\<lparr>dq_ready := dq_ready q @ dq_delayed q, dq_delayed := []\<rparr>)\<rparr>"

lemma demo_workqueue_contract: "shutdown_contract demo_workqueue dq_shut (length \<circ> dq_ready)"
  by (auto simp: shutdown_contract_def stays_shut_def demo_workqueue_def split: list.splits)

definition demo_new_queue :: "int \<Rightarrow> int \<Rightarrow> demo_queue" where
  "demo_new_queue base limit = \<lparr>dq_ready = [], dq_delayed = [], dq_shut = False\<rparr>"

definition demo_collector :: "(unit, demo_queue) collector" where
  "demo_collector =
     \<lparr>col_gc = \<lparr>gc_caches = Some (), gc_queue = Some \<lparr>dq_ready = [CacheItem zero_clusterAndGVK],
        dq_delayed = [], dq_shut = True\<rparr>\<rparr>,
      col_start = Start_Returned None, col_loop = Loop_Get, col_done = True, col_removed = []\<rparr>"

lemma demo_collector_run:
  "collector_run demo_workqueue 0 (collector_init (newGC demo_new_queue ())) demo_collector"
proof -
  let ?g0 = "newGC demo_new_queue ()"
  let ?s1 = "(collector_init ?g0)\<lparr>col_start := Start_Waiting, col_loop := Loop_Get\<rparr>"
  let ?q = "\<lparr>dq_ready = [CacheItem zero_clusterAndGVK], dq_delayed = [], dq_shut = False\<rparr>"
  let ?s2 = "set_queue ?q ?s1"
  let ?s3 = "?s2\<lparr>col_done := True\<rparr>"
  have 1: "collector_run demo_workqueue 0 (collector_init ?g0) ?s1"
    by (rule collector_run.other [OF collector_run.here], rule other_step.start)
       (simp_all add: collector_init_def newGC_def gc_Start_check_def)
  have "other_step demo_workqueue ?s1 (set_queue (wq_Add demo_workqueue (CacheItem zero_clusterAndGVK)
      \<lparr>dq_ready = [], dq_delayed = [], dq_shut = False\<rparr>) ?s1)"
    by (rule other_step.register) (simp add: collector_init_def newGC_def demo_new_queue_def)
  then have "other_step demo_workqueue ?s1 ?s2" by (simp add: demo_workqueue_def)
  with 1 have 2: "collector_run demo_workqueue 0 (collector_init ?g0) ?s2" by (rule collector_run.other)
  have 3: "collector_run demo_workqueue 0 (collector_init ?g0) ?s3"
    by (rule collector_run.other [OF 2]) (rule other_step.cancel)
  have "other_step demo_workqueue ?s3
      (set_queue (wq_ShutDown demo_workqueue ?q) (?s3\<lparr>col_start := Start_Returned None\<rparr>))"
    by (rule other_step.shutdown) simp_all
  then have "other_step demo_workqueue ?s3 demo_collector"
    by (simp add: demo_workqueue_def demo_collector_def collector_init_def newGC_def)
  with 3 show ?thesis by (rule collector_run.other)
qed

theorem collector_shuts_down_witness:
  "collector_run demo_workqueue 0 (collector_init (newGC demo_new_queue ())) demo_collector \<and>
   col_done demo_collector \<and>
   \<not> (\<exists>n t. collector_run demo_workqueue n demo_collector t \<and> n > 4) \<and>
   (\<exists>u. loop_step demo_workqueue demo_collector u)"
proof -
  have "col_done demo_collector \<and>
    (\<forall>n t. collector_run demo_workqueue n demo_collector t \<longrightarrow>
       n \<le> 4 \<and> (col_loop t = Loop_Ended \<or> (\<exists>u. loop_step demo_workqueue t u)))"
    using collector_shuts_down [OF demo_workqueue_contract demo_collector_run]
    by (simp add: demo_collector_def)
  moreover have "col_loop demo_collector \<noteq> Loop_Ended"
    by (simp add: demo_collector_def)
  ultimately show ?thesis
    using demo_collector_run collector_run.here by (metis not_le)
qed

end
