(* ===== verification/Rate_Limiter.thy ===== *)
theory Rate_Limiter
  imports PC_Prelude "HOL-Library.Word"
begin

text \<open>
  \<open>pkg/ratelimiter\<close>: hits per key, counted in a window that starts with the key's first
  hit; a goroutine removes windows older than the configured duration twice a second. Every
  access happens under the limiter's mutex, so the goroutines' interleavings are sequences of
  whole steps (\<open>limiter_event\<close>); the cleaner computes its cut-off before it takes the
  lock, so the cut-off of a cleaning step may belong to an earlier moment. Times and durations
  are nanoseconds. \<open>Hits\<close> and \<open>Limit\<close> are 64-bit integers, compared as signed.
\<close>

section \<open>The limiter\<close>

record Limit =
  li_Created :: int
  li_Key :: string
  li_Hits :: "64 word"

record Limiter =
  rl_Limit :: "64 word"
  rl_Duration :: int
  rl_limits :: "string \<rightharpoonup> Limit"

definition DefaultDuration :: int where
  "DefaultDuration = 1000000000 * 30"

definition DefaultLimit :: "64 word" where
  "DefaultLimit = 20"

type_synonym LimiterOpt = "Limiter \<Rightarrow> Limiter"

definition WithLimit :: "64 word \<Rightarrow> LimiterOpt" where
  "WithLimit limit rl = rl\<lparr>rl_Limit := limit\<rparr>"

definition WithDuration :: "int \<Rightarrow> LimiterOpt" where
  "WithDuration duration rl = rl\<lparr>rl_Duration := duration\<rparr>"

definition New_Limiter :: "LimiterOpt list \<Rightarrow> Limiter" where
  "New_Limiter opts =
     foldl (\<lambda>l opt. opt l)
       \<lparr>rl_Limit = DefaultLimit, rl_Duration = DefaultDuration, rl_limits = Map.empty\<rparr> opts"

definition newLimit :: "int \<Rightarrow> string \<Rightarrow> Limit" where
  "newLimit now key = \<lparr>li_Created = now, li_Key = key, li_Hits = 0\<rparr>"

definition Limit_Hit :: "Limit \<Rightarrow> Limit" where
  "Limit_Hit limit = limit\<lparr>li_Hits := li_Hits limit + 1\<rparr>"

definition Limiter_Hit :: "int \<Rightarrow> string \<Rightarrow> Limiter \<Rightarrow> (Limit \<times> go_error option) \<times> Limiter" where
  "Limiter_Hit now key limiter =
     (let limit = Limit_Hit (case rl_limits limiter key of None \<Rightarrow> newLimit now key | Some l \<Rightarrow> l);
          limiter' = limiter\<lparr>rl_limits := (rl_limits limiter)(key \<mapsto> limit)\<rparr>
      in if sint (li_Hits limit) > sint (rl_Limit limiter) then
           ((limit, Some (PlainError (key @ '' has reached max requests '' @ Itoa (sint (rl_Limit limiter))))),
            limiter')
         else ((limit, None), limiter'))"

text \<open>One tick of the cleaner, with the cut-off \<open>base\<close> it computed.\<close>

definition clean_base :: "int \<Rightarrow> Limiter \<Rightarrow> int" where
  "clean_base now limiter = now - rl_Duration limiter"

definition Limiter_clean :: "int \<Rightarrow> Limiter \<Rightarrow> Limiter" where
  "Limiter_clean base limiter =
     limiter\<lparr>rl_limits := (\<lambda>key. case rl_limits limiter key of
        None \<Rightarrow> None
      | Some value \<Rightarrow> if li_Created value < base then None else Some value)\<rparr>"

section \<open>Runs\<close>

text \<open>\<open>HitAt now key\<close>: a request. \<open>CleanAt now tick\<close>: at \<open>now\<close> the cleaner has
  the lock, having looked at the clock at \<open>tick\<close>.\<close>

datatype limiter_event = HitAt int string | CleanAt int int

fun ev_time :: "limiter_event \<Rightarrow> int" where
  "ev_time (HitAt now _) = now"
| "ev_time (CleanAt now _) = now"

fun ev_ok :: "limiter_event \<Rightarrow> bool" where
  "ev_ok (HitAt _ _) = True"
| "ev_ok (CleanAt now tick) \<longleftrightarrow> tick \<le> now"

fun limiter_step :: "limiter_event \<Rightarrow> Limiter \<Rightarrow> Limiter" where
  "limiter_step (HitAt now key) l = snd (Limiter_Hit now key l)"
| "limiter_step (CleanAt now tick) l = Limiter_clean (clean_base tick l) l"

fun limiter_run :: "limiter_event list \<Rightarrow> Limiter \<Rightarrow> Limiter" where
  "limiter_run [] l = l"
| "limiter_run (e # es) l = limiter_run es (limiter_step e l)"

text \<open>Requests with key \<open>k\<close> that are let through.\<close>

fun passes :: "string \<Rightarrow> limiter_event \<Rightarrow> Limiter \<Rightarrow> bool" where
  "passes k (HitAt now key) l \<longleftrightarrow> key = k \<and> snd (fst (Limiter_Hit now key l)) = None"
| "passes k (CleanAt _ _) l \<longleftrightarrow> False"

fun passed :: "string \<Rightarrow> limiter_event list \<Rightarrow> Limiter \<Rightarrow> nat" where
  "passed k [] l = 0"
| "passed k (e # es) l = (if passes k e l then 1 else 0) + passed k es (limiter_step e l)"

lemma passes_iff:
  "passes k (HitAt now k) l \<longleftrightarrow>
     sint (li_Hits (case rl_limits l k of None \<Rightarrow> newLimit now k | Some v \<Rightarrow> v) + 1) \<le> sint (rl_Limit l)"
  by (auto simp: Limiter_Hit_def Limit_Hit_def Let_def)

lemma step_frame [simp]:
  "rl_Limit (limiter_step e l) = rl_Limit l"
  "rl_Duration (limiter_step e l) = rl_Duration l"
  by (cases e; simp add: Limiter_Hit_def Limiter_clean_def Let_def)+

lemma run_frame [simp]:
  "rl_Limit (limiter_run es l) = rl_Limit l"
  "rl_Duration (limiter_run es l) = rl_Duration l"
  by (induction es arbitrary: l) simp_all

lemma hit_lookup:
  "rl_limits (limiter_step (HitAt now key) l) k =
     (if k = key then Some (Limit_Hit (case rl_limits l key of None \<Rightarrow> newLimit now key | Some v \<Rightarrow> v))
      else rl_limits l k)"
  by (simp add: Limiter_Hit_def Let_def)

lemma clean_lookup:
  "rl_limits (limiter_step (CleanAt now tick) l) k =
     (case rl_limits l k of None \<Rightarrow> None
      | Some v \<Rightarrow> if li_Created v < tick - rl_Duration l then None else Some v)"
  by (simp add: Limiter_clean_def clean_base_def)

declare limiter_step.simps [simp del]

section \<open>Counting without wrap-around\<close>

lemma sint_add_one:
  fixes h :: "64 word"
  assumes "0 \<le> sint h" and "sint h < 2 ^ 63 - 1"
  shows "sint (h + 1) = sint h + 1"
proof -
  have "sint (h + 1) = signed_take_bit 63 (sint h + 1)"
    by (simp add: sint_word_ariths)
  also have "\<dots> = sint h + 1"
    using assms by (intro signed_take_bit_int_eq_self) auto
  finally show ?thesis .
qed

text \<open>No counter exceeds the number of steps made.\<close>

definition hits_below :: "nat \<Rightarrow> Limiter \<Rightarrow> bool" where
  "hits_below n l \<longleftrightarrow>
     (\<forall>k v. rl_limits l k = Some v \<longrightarrow> 0 \<le> sint (li_Hits v) \<and> sint (li_Hits v) \<le> int n)"

lemma hits_below_step:
  assumes "hits_below n l" and "int n < 2 ^ 63 - 1"
  shows "hits_below (Suc n) (limiter_step e l)"
proof (cases e)
  case (HitAt now key)
  let ?v = "case rl_limits l key of None \<Rightarrow> newLimit now key | Some v \<Rightarrow> v"
  have "0 \<le> sint (li_Hits ?v)" "sint (li_Hits ?v) \<le> int n"
    using assms(1) by (auto simp: hits_below_def newLimit_def split: option.split)
  moreover from this assms(2) have "sint (li_Hits ?v + 1) = sint (li_Hits ?v) + 1"
    by (intro sint_add_one) auto
  ultimately show ?thesis
    using assms(1) unfolding hits_below_def HitAt hit_lookup
    by (auto simp: Limit_Hit_def) (metis add.commute add_increasing2 zle_add1_eq_le less_imp_le not_less)
next
  case (CleanAt now tick)
  with assms(1) show ?thesis
    unfolding hits_below_def CleanAt clean_lookup by (fastforce split: option.splits if_splits)
qed

lemma hits_below_run:
  assumes "hits_below n l" and "int (n + length es) < 2 ^ 63"
  shows "hits_below (n + length es) (limiter_run es l)"
  using assms
proof (induction es arbitrary: n l)
  case (Cons e es)
  then have "hits_below (Suc n) (limiter_step e l)" by (intro hits_below_step) auto
  from Cons.IH [OF this] Cons.prems show ?case by simp
qed simp

section \<open>How much passes in a window of time\<close>

text \<open>What key \<open>k\<close> can still get through before time \<open>t0\<close> plus the duration: the rest
  of its current window, and a whole window more if the current one began before \<open>t0\<close>.\<close>

definition allowance :: "string \<Rightarrow> int \<Rightarrow> Limiter \<Rightarrow> nat" where
  "allowance k t0 l =
     (case rl_limits l k of
        None \<Rightarrow> nat (sint (rl_Limit l))
      | Some v \<Rightarrow> nat (sint (rl_Limit l) - sint (li_Hits v)) +
                  (if li_Created v < t0 then nat (sint (rl_Limit l)) else 0))"

lemma allowance_hit:
  assumes "hits_below n l" and "int n < 2 ^ 63 - 1" and "t0 \<le> now"
  shows "(if passes k (HitAt now k) l then 1 else 0) + allowance k t0 (limiter_step (HitAt now k) l)
           \<le> allowance k t0 l"
proof (cases "rl_limits l k")
  case None
  with assms(3) show ?thesis
    unfolding passes_iff allowance_def hit_lookup by (auto simp: Limit_Hit_def newLimit_def)
next
  case (Some v)
  then have "0 \<le> sint (li_Hits v)" "sint (li_Hits v) < 2 ^ 63 - 1"
    using assms(1,2) by (fastforce simp: hits_below_def)+
  then have "sint (li_Hits v + 1) = sint (li_Hits v) + 1" by (rule sint_add_one)
  with Some show ?thesis
    unfolding passes_iff allowance_def hit_lookup by (auto simp: Limit_Hit_def)
qed

lemma allowance_step:
  assumes "hits_below n l" and "int n < 2 ^ 63 - 1"
    and "t0 \<le> ev_time e" and "ev_time e \<le> t0 + rl_Duration l" and "ev_ok e"
  shows "(if passes k e l then 1 else 0) + allowance k t0 (limiter_step e l) \<le> allowance k t0 l"
proof (cases e)
  case (HitAt now key)
  show ?thesis
  proof (cases "key = k")
    case True
    with HitAt assms allowance_hit show ?thesis by simp
  next
    case False
    have "rl_limits (limiter_step (HitAt now key) l) k = rl_limits l k"
      using False by (simp only: hit_lookup) simp
    with HitAt False show ?thesis by (simp add: allowance_def split: option.split)
  qed
next
  case (CleanAt now tick)
  with assms(4,5) have "tick - rl_Duration l \<le> t0" by simp
  then show ?thesis
    unfolding CleanAt allowance_def clean_lookup by (simp split: option.split)
qed

lemma passed_le_allowance:
  assumes "hits_below n l" and "int (n + length es) < 2 ^ 63"
    and "\<forall>e \<in> set es. t0 \<le> ev_time e \<and> ev_time e \<le> t0 + rl_Duration l \<and> ev_ok e"
  shows "passed k es l \<le> allowance k t0 l"
  using assms
proof (induction es arbitrary: n l)
  case (Cons e es)
  then have "hits_below (Suc n) (limiter_step e l)" by (intro hits_below_step) auto
  then have "passed k es (limiter_step e l) \<le> allowance k t0 (limiter_step e l)"
    using Cons.prems by (intro Cons.IH) auto
  moreover have "(if passes k e l then 1 else 0) + allowance k t0 (limiter_step e l) \<le> allowance k t0 l"
    by (rule allowance_step [OF Cons.prems(1)]) (use Cons.prems in auto)
  ultimately show ?case by simp
qed simp

lemma allowance_bound:
  "hits_below n l \<Longrightarrow> allowance k t0 l \<le> 2 * nat (sint (rl_Limit l))"
  by (fastforce simp: allowance_def hits_below_def nat_diff_distrib' split: option.split)

section \<open>A key's first window\<close>

fun hits_of :: "string \<Rightarrow> limiter_event list \<Rightarrow> nat" where
  "hits_of k [] = 0"
| "hits_of k (HitAt _ key # es) = (if key = k then 1 else 0) + hits_of k es"
| "hits_of k (CleanAt _ _ # es) = hits_of k es"

text \<open>Key \<open>k\<close> has been hit \<open>h\<close> times in a window that began at \<open>t0\<close> or later.\<close>

definition counted :: "string \<Rightarrow> int \<Rightarrow> nat \<Rightarrow> Limiter \<Rightarrow> bool" where
  "counted k t0 h l \<longleftrightarrow>
     (case rl_limits l k of
        None \<Rightarrow> h = 0
      | Some v \<Rightarrow> sint (li_Hits v) = int h \<and> t0 \<le> li_Created v)"

lemma counted_step:
  assumes "counted k t0 h l" and "int h < 2 ^ 63 - 1"
    and "t0 \<le> ev_time e" and "ev_time e \<le> t0 + rl_Duration l" and "ev_ok e"
  shows "counted k t0 (h + hits_of k [e]) (limiter_step e l) \<and>
    (passes k e l \<longleftrightarrow> hits_of k [e] = 1 \<and> int (Suc h) \<le> sint (rl_Limit l))"
proof (cases e)
  case (HitAt now key)
  show ?thesis
  proof (cases "key = k")
    case True
    let ?v = "case rl_limits l k of None \<Rightarrow> newLimit now k | Some v \<Rightarrow> v"
    have v: "sint (li_Hits ?v) = int h" "t0 \<le> li_Created ?v"
      using assms HitAt by (auto simp: counted_def newLimit_def split: option.splits)
    then have "sint (li_Hits ?v + 1) = int (Suc h)"
      using sint_add_one [of "li_Hits ?v"] assms(2) by simp
    with v True HitAt show ?thesis
      unfolding HitAt True passes_iff counted_def hit_lookup by (simp add: Limit_Hit_def)
  next
    case False
    with HitAt assms(1) show ?thesis
      unfolding counted_def HitAt hit_lookup by (auto split: option.splits)
  qed
next
  case (CleanAt now tick)
  with assms show ?thesis
    unfolding counted_def CleanAt clean_lookup by (auto split: option.splits)
qed

lemma hits_of_Cons: "hits_of k (e # es) = hits_of k [e] + hits_of k es"
  by (cases e) simp_all

lemma passed_first_window:
  assumes "counted k t0 h l" and "int (h + length es) < 2 ^ 63"
    and "\<forall>e \<in> set es. t0 \<le> ev_time e \<and> ev_time e \<le> t0 + rl_Duration l \<and> ev_ok e"
  shows "passed k es l = min (hits_of k es) (nat (sint (rl_Limit l)) - h)"
  using assms
proof (induction es arbitrary: h l)
  case (Cons e es)
  have le: "hits_of k [e] \<le> 1" by (cases e) auto
  have step: "counted k t0 (h + hits_of k [e]) (limiter_step e l)"
    "passes k e l \<longleftrightarrow> hits_of k [e] = 1 \<and> int (Suc h) \<le> sint (rl_Limit l)"
    using counted_step [of k t0 h l e] Cons.prems by auto
  from Cons.IH [OF step(1)] Cons.prems le
  have "passed k es (limiter_step e l) = min (hits_of k es) (nat (sint (rl_Limit l)) - (h + hits_of k [e]))"
    by auto
  moreover have "nat (sint (rl_Limit l)) - h = Suc (nat (sint (rl_Limit l)) - Suc h)"
    if "int (Suc h) \<le> sint (rl_Limit l)"
    using that by linarith
  ultimately show ?case
    using step(2) le by (subst hits_of_Cons) (cases "hits_of k [e]", auto)
qed simp

lemma window_bound:
  assumes "rl_limits l0 = Map.empty" and "length (before @ es) < 2 ^ 63"
    and "\<forall>e \<in> set es. t0 \<le> ev_time e \<and> ev_time e \<le> t0 + rl_Duration l0 \<and> ev_ok e"
  shows "passed k es (limiter_run before l0) \<le> 2 * nat (sint (rl_Limit l0))"
proof -
  have "hits_below 0 l0" using assms(1) by (simp add: hits_below_def)
  moreover have small: "int (length before + length es) < 2 ^ 63"
    using assms(2) by simp
  ultimately have "hits_below (length before) (limiter_run before l0)"
    using hits_below_run [of 0 l0 before] by auto
  then show ?thesis
    using passed_le_allowance [of "length before" "limiter_run before l0" es t0 k]
      allowance_bound [of "length before" "limiter_run before l0" k t0] assms(3) small
    by simp
qed

section \<open>Properties\<close>

text \<open>Whatever came before, in any stretch of time no longer than the limiter's duration at
  most twice the limit of requests with one key pass, however requests and cleaner runs
  interleave and however late the cleaner acts on the clock it read.\<close>

theorem limiter_window_bound:
  assumes "rl_limits l0 = Map.empty" and "length (before @ es) < 2 ^ 63"
    and "\<forall>e \<in> set es. t0 \<le> ev_time e \<and> ev_time e \<le> t0 + rl_Duration l0 \<and> ev_ok e"
  shows "passed k es (limiter_run before l0) \<le> 2 * nat (sint (rl_Limit l0))"
  using window_bound [OF assms] .

text \<open>A limit of one request in ten units of time, and a client that sends three.\<close>

theorem limiter_window_bound_witness:
  "passed ''10.0.0.1'' [HitAt 5 ''10.0.0.1'', CleanAt 9 7, HitAt 9 ''10.0.0.1'']
     (limiter_run [HitAt 1 ''10.0.0.1''] (New_Limiter [WithLimit 1, WithDuration 10])) \<le> 2"
proof -
  have "rl_limits (New_Limiter [WithLimit 1, WithDuration 10]) = Map.empty"
    "rl_Limit (New_Limiter [WithLimit 1, WithDuration 10]) = 1"
    "rl_Duration (New_Limiter [WithLimit 1, WithDuration 10]) = 10"
    by (simp_all add: New_Limiter_def WithLimit_def WithDuration_def)
  then show ?thesis
    using limiter_window_bound [of "New_Limiter [WithLimit 1, WithDuration 10]" "[HitAt 1 ''10.0.0.1'']"
        "[HitAt 5 ''10.0.0.1'', CleanAt 9 7, HitAt 9 ''10.0.0.1'']" 0 "''10.0.0.1''"]
    by simp
qed

text \<open>A key that is not being counted gets exactly its due: of the requests it makes in the
  following duration, the first \<open>Limit\<close> pass and the others are refused, whatever other
  keys do.\<close>

theorem limiter_first_window:
  assumes "rl_limits l k = None" and "length es < 2 ^ 63"
    and "\<forall>e \<in> set es. t0 \<le> ev_time e \<and> ev_time e \<le> t0 + rl_Duration l \<and> ev_ok e"
  shows "passed k es l = min (hits_of k es) (nat (sint (rl_Limit l)))"
  using passed_first_window [of k t0 0 l es] assms by (simp add: counted_def)

theorem limiter_first_window_witness:
  "passed ''a'' [HitAt 1 ''a'', HitAt 2 ''b'', HitAt 3 ''a''] (New_Limiter [WithLimit 1]) = 1"
  using limiter_first_window [of "New_Limiter [WithLimit 1]" "''a''"
      "[HitAt 1 ''a'', HitAt 2 ''b'', HitAt 3 ''a'']" 0]
  by (simp add: New_Limiter_def WithLimit_def DefaultDuration_def)

text \<open>Nobody is locked out for good: once the cleaner has run with a clock reading later than
  the window's start plus the duration, the key's next request passes (for a positive limit).\<close>

theorem limiter_recovers:
  assumes "rl_limits l k = Some v" and "li_Created v + rl_Duration l < tick"
    and "0 < sint (rl_Limit l)"
  shows "passes k (HitAt now k) (limiter_step (CleanAt now' tick) l)"
  using assms unfolding passes_iff clean_lookup by (simp add: newLimit_def)

theorem limiter_recovers_witness:
  "passes ''a'' (HitAt 40 ''a'')
     (limiter_step (CleanAt 35 35) (limiter_run [HitAt 1 ''a'', HitAt 2 ''a''] (New_Limiter [WithLimit 1, WithDuration 10])))"
proof -
  have "rl_limits (limiter_run [HitAt 1 ''a'', HitAt 2 ''a''] (New_Limiter [WithLimit 1, WithDuration 10])) ''a''
      = Some \<lparr>li_Created = 1, li_Key = ''a'', li_Hits = 2\<rparr>"
    by (simp add: hit_lookup Limit_Hit_def newLimit_def New_Limiter_def WithLimit_def WithDuration_def)
  from limiter_recovers [OF this, of 35 40 35] show ?thesis
    by (simp add: New_Limiter_def WithLimit_def WithDuration_def)
qed

end
