(* ===== verification/Promotion_Server.thy ===== *)
theory Promotion_Server
  imports Webhook_Guarantees Rate_Limiter
begin

text \<open>
  \<open>server/promotion_server.go\<close> and \<open>server/opts.go\<close>: the HTTP server around the
  webhook handlers. Its options and defaults, the client address used as the rate limiter's key,
  the rate-limiting middleware, and the routing of a request by \<open>net/http\<close>'s
  \<open>ServeMux\<close> and \<open>StripPrefix\<close>, whose behaviour on the three registered patterns
  is spelled out. The state of a running server is the limiter and the process; requests are
  handled one after the other here, with the time each arrives at.
\<close>

section \<open>Configuration\<close>

type_synonym 'w http_handler = "http_Request \<Rightarrow> ('w sys, http_Response outcome) state"

record 'w PromotionServer =
  srv_addr :: string
  srv_promHandler :: "'w http_handler option"
  srv_promEndpointName :: string
  srv_approvalHandler :: "'w http_handler option"
  srv_approvalEndpointName :: string
  srv_stratReg :: "'w StrategyRegistry"
  srv_rateLimit_count :: "64 word"
  srv_rateLimit_interval :: int
  srv_retry :: RetryOpts

type_synonym 'w Opt = "'w PromotionServer \<Rightarrow> go_error + 'w PromotionServer"

definition DefaultRateLimitCount :: "64 word" where "DefaultRateLimitCount = 20"
definition DefaultRateLimitInterval :: int where "DefaultRateLimitInterval = 30"
definition DefaultListenAddr :: string where "DefaultListenAddr = ''127.0.0.1:8080''"
definition DefaultPromotionEndpoint :: string where "DefaultPromotionEndpoint = ''/promotion''"
definition DefaultApprovalEndpoint :: string where "DefaultApprovalEndpoint = ''/approval''"

definition ListenAddr :: "string \<Rightarrow> 'w Opt" where
  "ListenAddr addr s = Inr (s\<lparr>srv_addr := addr\<rparr>)"

definition PromotionHandler_opt :: "'w http_handler \<Rightarrow> 'w Opt" where
  "PromotionHandler_opt hndlr s = Inr (s\<lparr>srv_promHandler := Some hndlr\<rparr>)"

definition PromotionEndpointName :: "string \<Rightarrow> 'w Opt" where
  "PromotionEndpointName n s = Inr (s\<lparr>srv_promEndpointName := n\<rparr>)"

definition StrategyRegistry_opt :: "'w StrategyRegistry \<Rightarrow> 'w Opt" where
  "StrategyRegistry_opt stratReg s = Inr (s\<lparr>srv_stratReg := stratReg\<rparr>)"

definition WithRetry :: "int \<Rightarrow> int \<Rightarrow> int \<Rightarrow> 'w Opt" where
  "WithRetry delay maxDelay threshold s =
     Inr (s\<lparr>srv_retry := \<lparr>ro_Delay = delay, ro_MaxDelay = maxDelay, ro_Threshold = threshold\<rparr>\<rparr>)"

definition WithRateLimit :: "64 word \<Rightarrow> int \<Rightarrow> 'w Opt" where
  "WithRateLimit count interval s =
     Inr (s\<lparr>srv_rateLimit_count := count, srv_rateLimit_interval := interval\<rparr>)"

definition setDefaults :: "WebhookLib \<Rightarrow> 'w Platform \<Rightarrow> 'w PromotionServer \<Rightarrow> 'w PromotionServer" where
  "setDefaults W K s =
     s\<lparr>srv_addr := (if srv_addr s = '''' then DefaultListenAddr else srv_addr s),
       srv_promHandler := (case srv_promHandler s of
          Some h \<Rightarrow> Some h
        | None \<Rightarrow> Some (PromotionHandler_ServeHTTP
                     \<lparr>ph_stratReg = srv_stratReg s, ph_retry = srv_retry s\<rparr> W K)),
       srv_promEndpointName := (if srv_promEndpointName s = '''' then DefaultPromotionEndpoint
                                else srv_promEndpointName s),
       srv_approvalHandler := (case srv_approvalHandler s of
          Some h \<Rightarrow> Some h
        | None \<Rightarrow> Some (ApprovalHandler_ServeHTTP \<lparr>ah_stratReg = srv_stratReg s\<rparr> W K)),
       srv_approvalEndpointName := (if srv_approvalEndpointName s = '''' then DefaultApprovalEndpoint
                                    else srv_approvalEndpointName s)\<rparr>"

fun apply_opts :: "'w Opt list \<Rightarrow> 'w PromotionServer \<Rightarrow> go_error + 'w PromotionServer" where
  "apply_opts [] s = Inr s"
| "apply_opts (opt # opts) s =
     (case opt s of Inl err \<Rightarrow> Inl err | Inr s' \<Rightarrow> apply_opts opts s')"

definition zero_PromotionServer :: "'w PromotionServer" where
  "zero_PromotionServer =
     \<lparr>srv_addr = '''', srv_promHandler = None, srv_promEndpointName = '''',
      srv_approvalHandler = None, srv_approvalEndpointName = '''', srv_stratReg = [],
      srv_rateLimit_count = DefaultRateLimitCount,
      srv_rateLimit_interval = 1000000000 * DefaultRateLimitInterval,
      srv_retry = \<lparr>ro_Delay = 0, ro_MaxDelay = 0, ro_Threshold = 0\<rparr>\<rparr>"

text \<open>\<open>c\<close> is the client (\<open>None\<close> for nil), \<open>listen\<close> stands for
  \<open>net.Listen\<close>.\<close>

definition NewPromotionServer ::
  "WebhookLib \<Rightarrow> (string \<Rightarrow> go_error + unit) \<Rightarrow> 'w Platform option \<Rightarrow> 'w Opt list \<Rightarrow> go_error + 'w PromotionServer"
where
  "NewPromotionServer W listen c opts =
     (case c of
        None \<Rightarrow> Inl (PlainError (''client can'' @ [CHR 39] @ ''t be nil''))
      | Some K \<Rightarrow>
          (case apply_opts opts zero_PromotionServer of
             Inl err \<Rightarrow> Inl err
           | Inr s \<Rightarrow>
               (let s = setDefaults W K s
                in case listen (srv_addr s) of
                     Inl err \<Rightarrow> Inl (Wrapped ''failed creating listener'' err)
                   | Inr _ \<Rightarrow> Inr s)))"

section \<open>The client's address\<close>

text \<open>\<open>Header.Get\<close>; header names are in canonical form, in which \<open>X-Real-IP\<close> is
  \<open>X-Real-Ip\<close>.\<close>

definition header_Get :: "http_Header \<Rightarrow> string \<Rightarrow> string" where
  "header_Get header key = (case header key of [] \<Rightarrow> '''' | v # _ \<Rightarrow> v)"

definition getRealIP :: "http_Request \<Rightarrow> string" where
  "getRealIP r =
     (let address = header_Get (rq_Header r) ''X-Real-Ip'';
          address = (if address = '''' then header_Get (rq_Header r) ''X-Forwarder-For'' else address);
          address = (if address = '''' then rq_RemoteAddr r else address)
      in if Contains address (CHR 58) then hd (SplitOn (CHR 58) address) else address)"

section \<open>Middleware and routing\<close>

type_synonym 'w server_state = "Limiter \<times> 'w sys"

definition rateLimitMiddleware ::
  "WebhookLib \<Rightarrow> int \<Rightarrow> 'w http_handler \<Rightarrow> http_Request \<Rightarrow> ('w server_state, http_Response outcome) state"
where
  "rateLimitMiddleware W now h r =
     State (\<lambda>(limiter, s).
       case Limiter_Hit now (getRealIP r) limiter of
         ((limit, Some err), limiter') \<Rightarrow>
           (Returned \<lparr>rs_Status = StatusTooManyRequests,
                      rs_Header = [(''Retry-After'', wl_FormatTime W (li_Created limit + rl_Duration limiter))],
                      rs_Body = ''''\<rparr>,
            (limiter', s))
       | ((limit, None), limiter') \<Rightarrow>
           (case run_state (h r) s of (x, s') \<Rightarrow> (x, (limiter', s'))))"

definition http_StripPrefix :: "string \<Rightarrow> 'w http_handler \<Rightarrow> 'w http_handler" where
  "http_StripPrefix prefix h r =
     (if prefix = '''' then h r
      else (case StripPrefix prefix (rq_Path r) of
              None \<Rightarrow> result http_NotFound
            | Some p \<Rightarrow> h (r\<lparr>rq_Path := p\<rparr>)))"

text \<open>\<open>cleanPath\<close> of \<open>net/http\<close>: no empty, \<open>.\<close> or \<open>..\<close> segments, a final slash
  kept.\<close>

definition clean_segments :: "string list \<Rightarrow> string list" where
  "clean_segments ws =
     foldl (\<lambda>acc w. if w = '''' \<or> w = ''.'' then acc
                    else if w = ''..'' then butlast acc else acc @ [w]) [] ws"

definition cleanPath :: "string \<Rightarrow> string" where
  "cleanPath p =
     (if p = '''' then ''/''
      else
        let p = (if hd p = CHR ''/'' then p else CHR ''/'' # p);
            np = CHR ''/'' # JoinWith (CHR ''/'') (clean_segments (SplitOn (CHR ''/'') p))
        in if last p = CHR ''/'' \<and> np \<noteq> ''/'' then np @ ''/'' else np)"

datatype route = ToPromotion | ToApproval | ToHealthz | RedirectTo string | NoRoute

definition promPathPrefix :: string where "promPathPrefix = ''/promotion/''"
definition approvalPathPrefix :: string where "approvalPathPrefix = ''/approval/''"

text \<open>The multiplexer with the patterns \<open>/promotion/\<close>, \<open>/approval/\<close> and
  \<open>/healthz\<close>.\<close>

definition mux_route :: "string \<Rightarrow> route" where
  "mux_route p =
     (let path = cleanPath p
      in if path @ ''/'' = promPathPrefix \<or> path @ ''/'' = approvalPathPrefix then RedirectTo (path @ ''/'')
         else if path \<noteq> p then RedirectTo path
         else if HasPrefix path promPathPrefix then ToPromotion
         else if HasPrefix path approvalPathPrefix then ToApproval
         else if path = ''/healthz'' then ToHealthz
         else NoRoute)"

definition server_limiter :: "'w PromotionServer \<Rightarrow> Limiter" where
  "server_limiter s = New_Limiter [WithLimit (srv_rateLimit_count s), WithDuration (srv_rateLimit_interval s)]"

text \<open>One request through the server that \<open>Start\<close> sets up; \<open>healthz\<close> stands for the
  health check handler of controller-runtime. A handler left nil cannot occur after
  \<open>setDefaults\<close>; calling it would be a nil dereference.\<close>

definition call_handler :: "'w http_handler option \<Rightarrow> 'w http_handler" where
  "call_handler h r = (case h of None \<Rightarrow> result (Panicked nil_dereference) | Some f \<Rightarrow> f r)"

definition serve ::
  "'w PromotionServer \<Rightarrow> WebhookLib \<Rightarrow> (http_Request \<Rightarrow> http_Response outcome) \<Rightarrow> int \<Rightarrow> http_Request
     \<Rightarrow> ('w server_state, http_Response outcome) state"
where
  "serve s W healthz now r =
     (case mux_route (rq_Path r) of
        ToPromotion \<Rightarrow> rateLimitMiddleware W now
          (http_StripPrefix (srv_promEndpointName s) (call_handler (srv_promHandler s))) r
      | ToApproval \<Rightarrow> rateLimitMiddleware W now
          (http_StripPrefix (srv_approvalEndpointName s) (call_handler (srv_approvalHandler s))) r
      | ToHealthz \<Rightarrow> result (healthz r)
      | RedirectTo p \<Rightarrow> result (Returned \<lparr>rs_Status = 301, rs_Header = [(''Location'', p)], rs_Body = ''''\<rparr>)
      | NoRoute \<Rightarrow> result http_NotFound)"

section \<open>The limiter as seen from the server\<close>

text \<open>What happens to a running server: requests, runs of the limiter's cleaner, and changes of the
  world outside.\<close>

datatype 'w server_event = Request int http_Request | Clean int int | Outside 'w

definition limited :: "http_Request \<Rightarrow> bool" where
  "limited r \<longleftrightarrow> mux_route (rq_Path r) = ToPromotion \<or> mux_route (rq_Path r) = ToApproval"

fun server_step ::
  "'w PromotionServer \<Rightarrow> WebhookLib \<Rightarrow> (http_Request \<Rightarrow> http_Response outcome) \<Rightarrow> 'w server_event
     \<Rightarrow> 'w server_state \<Rightarrow> 'w server_state"
where
  "server_step srv W hz (Request now r) \<sigma> = exec (serve srv W hz now r) \<sigma>"
| "server_step srv W hz (Clean now tick) \<sigma> =
     (Limiter_clean (clean_base tick (fst \<sigma>)) (fst \<sigma>), snd \<sigma>)"
| "server_step srv W hz (Outside w) \<sigma> = (fst \<sigma>, (snd \<sigma>)\<lparr>world := w\<rparr>)"

fun server_run ::
  "'w PromotionServer \<Rightarrow> WebhookLib \<Rightarrow> (http_Request \<Rightarrow> http_Response outcome) \<Rightarrow> 'w server_event list
     \<Rightarrow> 'w server_state \<Rightarrow> 'w server_state"
where
  "server_run srv W hz [] \<sigma> = \<sigma>"
| "server_run srv W hz (e # es) \<sigma> = server_run srv W hz es (server_step srv W hz e \<sigma>)"

text \<open>A request reaches a webhook handler when it is routed to one and passes the limiter.\<close>

fun reaches :: "string \<Rightarrow> 'w server_event \<Rightarrow> 'w server_state \<Rightarrow> bool" where
  "reaches ip (Request now r) \<sigma> \<longleftrightarrow> limited r \<and> passes ip (HitAt now (getRealIP r)) (fst \<sigma>)"
| "reaches ip (Clean _ _) \<sigma> \<longleftrightarrow> False"
| "reaches ip (Outside _) \<sigma> \<longleftrightarrow> False"

fun reached ::
  "'w PromotionServer \<Rightarrow> WebhookLib \<Rightarrow> (http_Request \<Rightarrow> http_Response outcome) \<Rightarrow> string
     \<Rightarrow> 'w server_event list \<Rightarrow> 'w server_state \<Rightarrow> nat"
where
  "reached srv W hz ip [] \<sigma> = 0"
| "reached srv W hz ip (e # es) \<sigma> =
     (if reaches ip e \<sigma> then 1 else 0) + reached srv W hz ip es (server_step srv W hz e \<sigma>)"

fun limiter_events :: "'w server_event list \<Rightarrow> limiter_event list" where
  "limiter_events [] = []"
| "limiter_events (Request now r # es) =
     (if limited r then [HitAt now (getRealIP r)] else []) @ limiter_events es"
| "limiter_events (Clean now tick # es) = CleanAt now tick # limiter_events es"
| "limiter_events (Outside w # es) = limiter_events es"

lemma middleware_limiter:
  "fst (exec (rateLimitMiddleware W now h r) \<sigma>) = snd (Limiter_Hit now (getRealIP r) (fst \<sigma>))"
  by (cases \<sigma>) (auto simp: rateLimitMiddleware_def split: prod.split option.split)

lemma serve_limiter:
  "fst (exec (serve srv W hz now r) \<sigma>) =
     (if limited r then limiter_step (HitAt now (getRealIP r)) (fst \<sigma>) else fst \<sigma>)"
  by (auto simp: serve_def limited_def middleware_limiter limiter_step.simps split: route.split)

lemma server_run_limiter:
  "fst (server_run srv W hz es \<sigma>) = limiter_run (limiter_events es) (fst \<sigma>)"
  by (induction es arbitrary: \<sigma> rule: limiter_events.induct)
     (auto simp: serve_limiter limiter_step.simps)

lemma reached_passed: "reached srv W hz ip es \<sigma> = passed ip (limiter_events es) (fst \<sigma>)"
  by (induction es arbitrary: \<sigma> rule: limiter_events.induct)
     (auto simp: serve_limiter limiter_step.simps)

text \<open>A request that is turned away has no effect on the process.\<close>

lemma turned_away:
  assumes "limited r" and "\<not> reaches (getRealIP r) (Request now r) \<sigma>"
  shows "snd (exec (serve srv W hz now r) \<sigma>) = snd \<sigma> \<and>
    (\<exists>resp. value_of (serve srv W hz now r) \<sigma> = Returned resp \<and> rs_Status resp = StatusTooManyRequests)"
proof -
  obtain limit err l' where hit: "Limiter_Hit now (getRealIP r) (fst \<sigma>) = ((limit, err), l')"
    by (metis prod_cases3 surj_pair)
  with assms obtain e where "err = Some e" by (cases err) auto
  with hit have "snd (exec (rateLimitMiddleware W now h r) \<sigma>) = snd \<sigma> \<and>
      (\<exists>resp. value_of (rateLimitMiddleware W now h r) \<sigma> = Returned resp \<and> rs_Status resp = StatusTooManyRequests)" for h
    by (cases \<sigma>) (simp add: rateLimitMiddleware_def)
  with assms(1) show ?thesis by (auto simp: serve_def limited_def)
qed

fun server_ev_time :: "'w server_event \<Rightarrow> int option" where
  "server_ev_time (Request now _) = Some now"
| "server_ev_time (Clean now _) = Some now"
| "server_ev_time (Outside _) = None"

fun server_ev_ok :: "'w server_event \<Rightarrow> bool" where
  "server_ev_ok (Clean now tick) \<longleftrightarrow> tick \<le> now"
| "server_ev_ok _ \<longleftrightarrow> True"

lemma limiter_events_window:
  assumes "\<forall>e \<in> set es. server_ev_ok e \<and> (\<forall>t. server_ev_time e = Some t \<longrightarrow> a \<le> t \<and> t \<le> b)"
  shows "\<forall>e \<in> set (limiter_events es). a \<le> ev_time e \<and> ev_time e \<le> b \<and> ev_ok e"
  using assms by (induction es rule: limiter_events.induct) auto

lemma length_limiter_events: "length (limiter_events es) \<le> length es"
  by (induction es rule: limiter_events.induct) auto

section \<open>Routing lemmas\<close>

text \<open>A segment the multiplexer leaves as it is.\<close>

definition plain_segment :: "string \<Rightarrow> bool" where
  "plain_segment w \<longleftrightarrow> w \<noteq> '''' \<and> w \<noteq> ''.'' \<and> w \<noteq> ''..'' \<and> CHR ''/'' \<notin> set w"

lemma clean_segments_plain:
  assumes "\<forall>w \<in> set ws. plain_segment w"
  shows "clean_segments ([] # ws) = ws"
proof -
  have "foldl (\<lambda>acc w. if w = '''' \<or> w = ''.'' then acc
          else if w = ''..'' then butlast acc else acc @ [w]) acc ws = acc @ ws" for acc
    using assms by (induction ws arbitrary: acc) (auto simp: plain_segment_def)
  then show ?thesis by (simp add: clean_segments_def)
qed

lemma last_JoinWith:
  assumes "\<forall>w \<in> set ws. plain_segment w" and "ws \<noteq> []"
  shows "JoinWith (CHR ''/'') ws \<noteq> [] \<and> last (JoinWith (CHR ''/'') ws) \<noteq> CHR ''/''"
  using assms
proof (induction ws)
  case (Cons w ws)
  show ?case
  proof (cases "ws = []")
    case True
    with Cons.prems show ?thesis by (auto simp: plain_segment_def) (metis last_in_set)
  next
    case False
    with Cons show ?thesis by (simp add: JoinWith_Cons)
  qed
qed simp

lemma cleanPath_plain:
  assumes "\<forall>w \<in> set ws. plain_segment w" and "ws \<noteq> []"
  shows "cleanPath (CHR ''/'' # JoinWith (CHR ''/'') ws) = CHR ''/'' # JoinWith (CHR ''/'') ws"
proof -
  have "SplitOn (CHR ''/'') (CHR ''/'' # JoinWith (CHR ''/'') ws) = [] # ws"
    using assms by (auto simp: SplitOn_JoinWith plain_segment_def)
  then show ?thesis
    using last_JoinWith [OF assms] by (simp add: cleanPath_def clean_segments_plain [OF assms(1)])
qed

lemma mux_route_promotion:
  assumes "\<forall>w \<in> set ws. plain_segment w" and "ws \<noteq> []"
  shows "mux_route (CHR ''/'' # JoinWith (CHR ''/'') (''promotion'' # ws)) = ToPromotion"
proof -
  let ?p = "CHR ''/'' # JoinWith (CHR ''/'') (''promotion'' # ws)"
  have p: "?p = promPathPrefix @ JoinWith (CHR ''/'') ws"
    using assms(2) by (simp add: JoinWith_Cons promPathPrefix_def)
  have plain: "\<forall>w \<in> set (''promotion'' # ws). plain_segment w" using assms(1) by (simp add: plain_segment_def)
  have clean: "cleanPath ?p = ?p" by (rule cleanPath_plain [OF plain]) simp
  have "?p @ ''/'' \<noteq> promPathPrefix" "?p @ ''/'' \<noteq> approvalPathPrefix"
    unfolding p by (simp_all add: promPathPrefix_def approvalPathPrefix_def)
  moreover have "HasPrefix ?p promPathPrefix" unfolding p by simp
  ultimately show ?thesis unfolding mux_route_def clean Let_def by simp
qed

lemma HasPrefix_comparable:
  "HasPrefix s a \<Longrightarrow> HasPrefix s b \<Longrightarrow> HasPrefix a b \<or> HasPrefix b a"
  by (auto simp: HasPrefix_iff append_eq_append_conv2)

lemma mux_route_promotion_prefix: "mux_route p = ToPromotion \<Longrightarrow> HasPrefix p promPathPrefix"
  by (auto simp: mux_route_def Let_def split: if_splits)

lemma hd_SplitOn: "hd (SplitOn c s) = takeWhile (\<lambda>x. x \<noteq> c) s"
  by (induction s) (auto split: list.split)

section \<open>Properties\<close>


text \<open>The server of the examples, with a limit of one request.\<close>

definition sample_config :: "store PromotionServer" where
  "sample_config = zero_PromotionServer\<lparr>srv_rateLimit_count := 1, srv_stratReg := [Notification mem_platform]\<rparr>"

definition sample_server :: "store PromotionServer" where
  "sample_server = setDefaults sample_webhook mem_platform sample_config"

definition sample_hook :: http_Request where
  "sample_hook = sample_request\<lparr>rq_Path := ''/promotion/default/app/dev''\<rparr>"

abbreviation sample_hz :: "http_Request \<Rightarrow> http_Response outcome" where
  "sample_hz \<equiv> \<lambda>r. respond 200 ''ok''"

lemma sample_server_simps [simp]:
  "srv_rateLimit_count sample_server = 1" "srv_rateLimit_interval sample_server = 30000000000"
  "srv_promEndpointName sample_server = ''/promotion''"
  by (simp_all add: sample_server_def sample_config_def setDefaults_def zero_PromotionServer_def
      DefaultRateLimitInterval_def DefaultPromotionEndpoint_def)

lemma sample_config_simps [simp]:
  "srv_promHandler sample_config = None" "srv_promEndpointName sample_config = ''''"
  "srv_stratReg sample_config = [Notification mem_platform]"
  "srv_retry sample_config = \<lparr>ro_Delay = 0, ro_MaxDelay = 0, ro_Threshold = 0\<rparr>"
  by (simp_all add: sample_config_def zero_PromotionServer_def)


text \<open>A webhook request that the limiter turns away gets status 429 and has no effect: no call
  is made and no object is touched.\<close>

theorem limited_request_no_effect:
  assumes "limited r" and "\<not> reaches (getRealIP r) (Request now r) \<sigma>"
  shows "snd (exec (serve srv W hz now r) \<sigma>) = snd \<sigma> \<and>
    (\<exists>resp. value_of (serve srv W hz now r) \<sigma> = Returned resp \<and> rs_Status resp = StatusTooManyRequests)"
  using turned_away [OF assms] .

lemma sample_hook_route: "mux_route (rq_Path sample_hook) = ToPromotion"
  using mux_route_promotion [of "[''default'', ''app'', ''dev'']"]
  by (simp add: plain_segment_def sample_hook_def)

lemma sample_hook_ip: "getRealIP sample_hook = ''10.0.0.1''"
  by (simp add: getRealIP_def header_Get_def sample_hook_def sample_request_def)

theorem limited_request_no_effect_witness:
  "\<exists>resp. value_of (serve sample_server sample_webhook sample_hz 2 sample_hook)
     (server_step sample_server sample_webhook sample_hz (Request 1 sample_hook)
        (server_limiter sample_server, sample_sys)) = Returned resp \<and> rs_Status resp = StatusTooManyRequests"
proof -
  let ?\<sigma> = "server_step sample_server sample_webhook sample_hz (Request 1 sample_hook)
      (server_limiter sample_server, sample_sys)"
  have lim: "limited sample_hook" by (simp add: limited_def sample_hook_route)
  have "fst ?\<sigma> = limiter_step (HitAt 1 ''10.0.0.1'') (server_limiter sample_server)"
    using lim by (simp add: serve_limiter sample_hook_ip)
  then have "rl_limits (fst ?\<sigma>) ''10.0.0.1'' = Some \<lparr>li_Created = 1, li_Key = ''10.0.0.1'', li_Hits = 1\<rparr>"
    "rl_Limit (fst ?\<sigma>) = 1"
    by (simp_all add: hit_lookup server_limiter_def New_Limiter_def WithLimit_def WithDuration_def Limit_Hit_def
        newLimit_def)
  then have "\<not> passes ''10.0.0.1'' (HitAt 2 ''10.0.0.1'') (fst ?\<sigma>)"
    unfolding passes_iff by simp
  then have "\<not> reaches (getRealIP sample_hook) (Request 2 sample_hook) ?\<sigma>"
    by (simp only: reaches.simps sample_hook_ip) simp
  from limited_request_no_effect [OF lim this, of sample_server sample_webhook sample_hz] show ?thesis by blast
qed

text \<open>With the default handler and endpoint, an admitted request to
  \<open>/promotion/ns/name/env\<close> is handled by the promotion handler under exactly that
  namespace, pipeline name and environment.\<close>

theorem default_server_routes_promotion:
  assumes "srv_promHandler cfg = None" and "srv_promEndpointName cfg = ''''"
    and "plain_segment ns" and "plain_segment name" and "plain_segment env"
    and "rq_Path r = ''/promotion/'' @ ns @ ''/'' @ name @ ''/'' @ env"
    and "reaches (getRealIP r) (Request now r) (l, s)"
  shows "(\<exists>r'. r' = r\<lparr>rq_Path := ''/'' @ ns @ ''/'' @ name @ ''/'' @ env\<rparr> \<and>
      path_match 3 (rq_Path r') = Some [ns, name, env] \<and>
      (let h = \<lparr>ph_stratReg = srv_stratReg cfg, ph_retry = srv_retry cfg\<rparr>
       in value_of (serve (setDefaults W K cfg) W hz now r) (l, s) =
            value_of (PromotionHandler_ServeHTTP h W K r') s \<and>
          snd (exec (serve (setDefaults W K cfg) W hz now r) (l, s)) =
            exec (PromotionHandler_ServeHTTP h W K r') s))"
proof -
  let ?ws = "[ns, name, env]" and ?r' = "r\<lparr>rq_Path := ''/'' @ ns @ ''/'' @ name @ ''/'' @ env\<rparr>"
  let ?h = "\<lparr>ph_stratReg = srv_stratReg cfg, ph_retry = srv_retry cfg\<rparr>"
  have plain: "\<forall>w \<in> set ?ws. plain_segment w" using assms(3-5) by simp
  have path: "rq_Path r = CHR ''/'' # JoinWith (CHR ''/'') (''promotion'' # ?ws)"
    using assms(6) by simp
  have route: "mux_route (rq_Path r) = ToPromotion"
    unfolding path by (rule mux_route_promotion [OF plain]) simp
  have "path_match (length ?ws) (CHR ''/'' # JoinWith (CHR ''/'') ?ws) = Some ?ws"
    by (rule path_match_canonical) (use plain in \<open>auto simp: plain_segment_def\<close>)
  then have pm: "path_match 3 (rq_Path ?r') = Some [ns, name, env]" by (simp add: numeral_3_eq_3)
  have strip: "StripPrefix ''/promotion'' (rq_Path r) = Some (''/'' @ ns @ ''/'' @ name @ ''/'' @ env)"
    using assms(6) by (simp add: StripPrefix_Some_iff)
  obtain limit l' where hit: "Limiter_Hit now (getRealIP r) l = ((limit, None), l')"
    using assms(7) by (cases "Limiter_Hit now (getRealIP r) l") auto
  have "run_state (serve (setDefaults W K cfg) W hz now r) (l, s) =
      (case run_state (PromotionHandler_ServeHTTP ?h W K ?r') s of (x, s') \<Rightarrow> (x, (l', s')))"
    using assms(1,2) route hit strip
    by (simp add: serve_def rateLimitMiddleware_def http_StripPrefix_def setDefaults_def call_handler_def
        DefaultPromotionEndpoint_def)
  with pm show ?thesis by (simp split: prod.split)
qed

theorem default_server_routes_promotion_witness:
  "\<exists>r'. path_match 3 (rq_Path r') = Some [''default'', ''app'', ''dev''] \<and>
     value_of (serve sample_server sample_webhook sample_hz 1 sample_hook) (server_limiter sample_server, sample_sys) =
     value_of (PromotionHandler_ServeHTTP \<lparr>ph_stratReg = [Notification mem_platform],
        ph_retry = \<lparr>ro_Delay = 0, ro_MaxDelay = 0, ro_Threshold = 0\<rparr>\<rparr> sample_webhook mem_platform r') sample_sys"
proof -
  have "passes ''10.0.0.1'' (HitAt 1 ''10.0.0.1'') (server_limiter sample_server)"
    unfolding passes_iff
    by (simp add: server_limiter_def New_Limiter_def WithLimit_def WithDuration_def newLimit_def)
  then have "reaches (getRealIP sample_hook) (Request 1 sample_hook) (server_limiter sample_server, sample_sys)"
    by (simp only: reaches.simps limited_def sample_hook_route sample_hook_ip fst_conv) simp
  moreover have "plain_segment ''default''" "plain_segment ''app''" "plain_segment ''dev''"
    "rq_Path sample_hook = ''/promotion/'' @ ''default'' @ ''/'' @ ''app'' @ ''/'' @ ''dev''"
    by (simp_all add: plain_segment_def sample_hook_def)
  ultimately show ?thesis
    using default_server_routes_promotion [of sample_config "''default''" "''app''" "''dev''" sample_hook 1
        "server_limiter sample_server" sample_sys sample_webhook mem_platform sample_hz]
    unfolding sample_server_def [symmetric] Let_def sample_config_simps by blast
qed

text \<open>The endpoint name option does not move the endpoint: the multiplexer always routes the
  fixed prefix \<open>/promotion/\<close>, so with an endpoint name that neither extends it nor is
  a prefix of it, no request runs the promotion handler; those routed to it get 404 or 429 and
  have no effect.\<close>

theorem endpoint_name_disables_promotion:
  assumes "\<not> HasPrefix promPathPrefix (srv_promEndpointName srv)"
    and "\<not> HasPrefix (srv_promEndpointName srv) promPathPrefix"
    and "mux_route (rq_Path r) = ToPromotion"
  shows "snd (exec (serve srv W hz now r) \<sigma>) = snd \<sigma> \<and>
    (\<exists>resp. value_of (serve srv W hz now r) \<sigma> = Returned resp \<and> rs_Status resp \<in> {404, 429})"
proof -
  have "\<not> HasPrefix (rq_Path r) (srv_promEndpointName srv)"
    using assms HasPrefix_comparable mux_route_promotion_prefix by blast
  moreover have "srv_promEndpointName srv \<noteq> ''''"
    using assms(1) by (auto simp: HasPrefix_def)
  ultimately have "http_StripPrefix (srv_promEndpointName srv) (call_handler (srv_promHandler srv)) r
      = result http_NotFound"
    by (simp add: http_StripPrefix_def StripPrefix_def)
  then show ?thesis
    using assms(3)
    by (cases \<sigma>) (auto simp: serve_def rateLimitMiddleware_def http_NotFound_def split: prod.split option.split)
qed

theorem endpoint_name_disables_promotion_witness:
  "\<exists>resp. value_of (serve (sample_server\<lparr>srv_promEndpointName := ''/hooks''\<rparr>) sample_webhook sample_hz 1 sample_hook)
     (server_limiter sample_server, sample_sys) = Returned resp \<and> rs_Status resp \<in> {404, 429}"
  using endpoint_name_disables_promotion [of "sample_server\<lparr>srv_promEndpointName := ''/hooks''\<rparr>" sample_hook
      sample_webhook sample_hz 1 "(server_limiter sample_server, sample_sys)"] sample_hook_route
  by (simp add: HasPrefix_def promPathPrefix_def)

text \<open>The limiter's key of a request is the part before the first colon of \<open>X-Real-IP\<close>,
  else of \<open>X-Forwarder-For\<close>, else of the peer's address. For IPv6 peers, whose address is
  written \<open>[...]:port\<close>, that is the opening bracket and the first group.\<close>

theorem getRealIP_key:
  "getRealIP r = takeWhile (\<lambda>c. c \<noteq> CHR 58)
     (case filter (\<lambda>a. a \<noteq> '''') [header_Get (rq_Header r) ''X-Real-Ip'',
         header_Get (rq_Header r) ''X-Forwarder-For''] of
        a # _ \<Rightarrow> a
      | [] \<Rightarrow> rq_RemoteAddr r)"
proof -
  have "(if Contains a (CHR 58) then hd (SplitOn (CHR 58) a) else a) = takeWhile (\<lambda>c. c \<noteq> CHR 58) a" for a
    by (auto simp: hd_SplitOn intro!: takeWhile_eq_all_conv [THEN iffD2, symmetric])
  then show ?thesis by (auto simp: getRealIP_def Let_def)
qed

end
