(* ===== verification/Server_Lifecycle.thy ===== *)
theory Server_Lifecycle
  imports Promotion_Server
begin

text \<open>
  The end of the webhook server's life: what \<open>PromotionServer.Start\<close> does after it has set up
  its routes (\<open>Promotion_Server\<close> has those), the cleaner goroutine of its rate limiter
  (\<open>cleaner\<close> and \<open>Shutdown\<close> of \<open>limiter.go\<close>), and the two goroutines of
  \<open>main.go\<close> that can end the process, one for this server and one for the manager. They
  run concurrently with the requests, so they are a step relation. \<open>Shutdown\<close> of
  \<open>net/http\<close> is a parameter with its documented results.
\<close>

section \<open>The cleaner of the rate limiter\<close>

text \<open>The ticker's channel buffers one tick; \<open>Stop\<close> ends the ticks but does not close the
  channel, so the \<open>range\<close> over it never ends.\<close>

record cleaner =
  cl_running :: bool
  cl_pending :: bool
  cl_limiter :: Limiter

definition cleaner_started :: "Limiter \<Rightarrow> cleaner" where
  "cleaner_started l = \<lparr>cl_running = True, cl_pending = False, cl_limiter = l\<rparr>"

definition ticker_Stop :: "cleaner \<Rightarrow> cleaner" where
  "ticker_Stop c = c\<lparr>cl_running := False\<rparr>"

text \<open>\<open>New\<close> has put \<open>cleaner()\<close>'s result, \<open>ticker.Stop\<close>, in the list of clean-up functions.\<close>

definition Limiter_cleanup :: "(cleaner \<Rightarrow> cleaner) list" where
  "Limiter_cleanup = [] @ [ticker_Stop]"

definition Limiter_Shutdown :: "cleaner \<Rightarrow> cleaner" where
  "Limiter_Shutdown c = fold (\<lambda>fn c. fn c) Limiter_cleanup c"

text \<open>A tick of the ticker, and one round of the goroutine with the clock at \<open>now\<close>.\<close>

definition ticker_fire :: "cleaner \<Rightarrow> cleaner option" where
  "ticker_fire c = (if cl_running c then Some (c\<lparr>cl_pending := True\<rparr>) else None)"

definition cleaner_round :: "int \<Rightarrow> cleaner \<Rightarrow> cleaner option" where
  "cleaner_round now c =
     (if cl_pending c
      then Some (c\<lparr>cl_pending := False,
                  cl_limiter := Limiter_clean (clean_base now (cl_limiter c)) (cl_limiter c)\<rparr>)
      else None)"

section \<open>The process\<close>

text \<open>Where \<open>Start\<close> is: at \<open>\<leftarrow>ctx.Done()\<close>, between the limiter's shutdown and the server's, or
  back with the result that \<open>main\<close> looks at.\<close>

datatype server_phase = Serving | Stopping | Stopped "go_error option"

record process =
  pc_phase :: server_phase
  pc_cleaner :: cleaner
  pc_rounds :: nat
  pc_listening :: bool
  pc_inflight :: "nat set"
  pc_answered :: "nat set"
  pc_signalled :: bool
  pc_cut :: "nat set"
  pc_exit :: "nat option"

definition context_canceled :: go_error where
  "context_canceled = PlainError ''context canceled''"

text \<open>\<open>http.Server.Shutdown\<close> by the requests still active and by the error its context has, if
  it is done: it closes the listeners and waits for active connections; without any it is complete
  at once, with the error of closing the listeners, and otherwise, if the context expires first, it
  returns the context's error. A pending wait is \<open>None\<close>.\<close>

type_synonym http_Shutdown = "nat set \<Rightarrow> go_error option \<Rightarrow> go_error option option"

definition Shutdown_contract :: "go_error option \<Rightarrow> http_Shutdown \<Rightarrow> bool" where
  "Shutdown_contract lnErr sd \<longleftrightarrow>
     (\<forall>ctxErr. sd {} ctxErr = Some lnErr) \<and>
     (\<forall>active e. active \<noteq> {} \<longrightarrow> sd active (Some e) = Some (Some e))"

text \<open>The error of the context after the signal.\<close>

definition ctx_Err :: "process \<Rightarrow> go_error option" where
  "ctx_Err s = (if pc_signalled s then Some context_canceled else None)"

text \<open>Nothing happens after the process has exited. When \<open>Serve\<close> fails, its goroutine logs the
  error and ends, and \<open>Start\<close> waits on. \<open>mgr\<close> is what the manager's \<open>Start\<close>
  returns: an error at any time, nil only after the signal.\<close>

inductive process_step :: "http_Shutdown \<Rightarrow> process \<Rightarrow> process \<Rightarrow> bool" for sd where
  accept: "pc_exit s = None \<Longrightarrow> pc_listening s \<Longrightarrow> r \<notin> pc_inflight s \<union> pc_answered s \<Longrightarrow>
    process_step sd s (s\<lparr>pc_inflight := insert r (pc_inflight s)\<rparr>)"
| answer: "pc_exit s = None \<Longrightarrow> r \<in> pc_inflight s \<Longrightarrow>
    process_step sd s (s\<lparr>pc_inflight := pc_inflight s - {r}, pc_answered := insert r (pc_answered s)\<rparr>)"
| serve_fails: "pc_exit s = None \<Longrightarrow> pc_listening s \<Longrightarrow> process_step sd s (s\<lparr>pc_listening := False\<rparr>)"
| tick: "pc_exit s = None \<Longrightarrow> ticker_fire (pc_cleaner s) = Some c \<Longrightarrow>
    process_step sd s (s\<lparr>pc_cleaner := c\<rparr>)"
| clean: "pc_exit s = None \<Longrightarrow> cleaner_round now (pc_cleaner s) = Some c \<Longrightarrow>
    process_step sd s (s\<lparr>pc_cleaner := c, pc_rounds := (if cl_running c then 0 else Suc (pc_rounds s))\<rparr>)"
| signal: "pc_exit s = None \<Longrightarrow> process_step sd s (s\<lparr>pc_signalled := True\<rparr>)"
| stop_limiter: "pc_exit s = None \<Longrightarrow> pc_phase s = Serving \<Longrightarrow> pc_signalled s \<Longrightarrow>
    process_step sd s (s\<lparr>pc_phase := Stopping, pc_cleaner := Limiter_Shutdown (pc_cleaner s)\<rparr>)"
| shut_server: "pc_exit s = None \<Longrightarrow> pc_phase s = Stopping \<Longrightarrow> sd (pc_inflight s) (ctx_Err s) = Some res \<Longrightarrow>
    process_step sd s (s\<lparr>pc_phase := Stopped res, pc_listening := False, pc_cut := pc_inflight s\<rparr>)"
| exit_server: "pc_exit s = None \<Longrightarrow> pc_phase s = Stopped (Some e) \<Longrightarrow>
    process_step sd s (s\<lparr>pc_exit := Some 1\<rparr>)"
| exit_manager: "pc_exit s = None \<Longrightarrow> mgr \<noteq> None \<or> pc_signalled s \<Longrightarrow>
    process_step sd s (s\<lparr>pc_exit := Some (case mgr of None \<Rightarrow> 0 | Some (e :: go_error) \<Rightarrow> 1)\<rparr>)"

definition process_init :: "Limiter \<Rightarrow> process" where
  "process_init l =
     \<lparr>pc_phase = Serving, pc_cleaner = cleaner_started l, pc_rounds = 0, pc_listening = True,
      pc_inflight = {}, pc_answered = {}, pc_signalled = False, pc_cut = {}, pc_exit = None\<rparr>"

abbreviation process_steps :: "http_Shutdown \<Rightarrow> process \<Rightarrow> process \<Rightarrow> bool" where
  "process_steps sd \<equiv> (process_step sd)\<^sup>*\<^sup>*"

inductive_cases process_stepE: "process_step sd s t"

section \<open>What a shutdown guarantees\<close>

text \<open>Until \<open>Start\<close> wakes up the ticker runs; from then on it is stopped, and at most the buffered
  tick is still used. The result of \<open>Start\<close> tells whether requests were cut off.\<close>

definition cleaner_inv :: "process \<Rightarrow> bool" where
  "cleaner_inv s \<longleftrightarrow>
     (cl_running (pc_cleaner s) \<longleftrightarrow> pc_phase s = Serving) \<and>
     (cl_running (pc_cleaner s) \<longrightarrow> pc_rounds s = 0) \<and>
     pc_rounds s + (if cl_pending (pc_cleaner s) then 1 else 0) \<le> 1"

definition stop_inv :: "go_error option \<Rightarrow> process \<Rightarrow> bool" where
  "stop_inv lnErr s \<longleftrightarrow>
     (pc_phase s \<noteq> Serving \<longrightarrow> pc_signalled s) \<and>
     (\<forall>res. pc_phase s = Stopped res \<longrightarrow>
        \<not> pc_listening s \<and> res = (if pc_cut s = {} then lnErr else Some context_canceled)) \<and>
     pc_inflight s \<inter> pc_answered s = {}"

lemma cleaner_inv_step: "process_step sd s t \<Longrightarrow> cleaner_inv s \<Longrightarrow> cleaner_inv t"
  by (induction rule: process_step.induct)
     (auto simp: cleaner_inv_def ticker_fire_def cleaner_round_def Limiter_Shutdown_def Limiter_cleanup_def
        ticker_Stop_def split: if_splits)

lemma stop_inv_step:
  assumes "Shutdown_contract lnErr sd" "process_step sd s t" "stop_inv lnErr s"
  shows "stop_inv lnErr t"
  using assms(2)
proof cases
  case (shut_server res)
  then have "pc_signalled s" using assms(3) by (simp add: stop_inv_def)
  then have "res = (if pc_inflight s = {} then lnErr else Some context_canceled)"
    using shut_server(4) assms(1) by (auto simp: Shutdown_contract_def ctx_Err_def split: if_splits)
  then show ?thesis using shut_server assms(3) by (simp add: stop_inv_def)
qed (use assms(3) in \<open>auto simp: stop_inv_def\<close>)

lemma process_inv:
  assumes "process_steps sd (process_init l) s" "Shutdown_contract lnErr sd"
  shows "cleaner_inv s \<and> stop_inv lnErr s"
  using assms(1)
proof induction
  case base
  show ?case by (simp add: cleaner_inv_def stop_inv_def process_init_def cleaner_started_def)
next
  case (step t u)
  then show ?case using cleaner_inv_step stop_inv_step [OF assms(2)] by blast
qed

lemma stop_now:
  assumes c: "Shutdown_contract lnErr sd" and s: "pc_phase s = Serving" "pc_exit s = None" "r \<in> pc_inflight s"
  shows "\<exists>t. process_steps sd s t \<and> pc_exit t = Some 1 \<and> r \<in> pc_inflight t \<and> pc_answered t = pc_answered s"
proof -
  let ?a = "s\<lparr>pc_signalled := True\<rparr>"
  let ?b = "?a\<lparr>pc_phase := Stopping, pc_cleaner := Limiter_Shutdown (pc_cleaner ?a)\<rparr>"
  let ?c = "?b\<lparr>pc_phase := Stopped (Some context_canceled), pc_listening := False, pc_cut := pc_inflight ?b\<rparr>"
  let ?d = "?c\<lparr>pc_exit := Some 1\<rparr>"
  have sd: "sd (pc_inflight ?b) (ctx_Err ?b) = Some (Some context_canceled)"
    using c s(3) by (auto simp: Shutdown_contract_def ctx_Err_def)
  have "process_step sd s ?a" using s(2) by (rule process_step.signal)
  moreover have "process_step sd ?a ?b" by (rule process_step.stop_limiter) (simp_all add: s)
  moreover have "process_step sd ?b ?c" using sd by (intro process_step.shut_server) (simp_all add: s)
  moreover have "process_step sd ?c ?d" by (rule process_step.exit_server) (simp_all add: s)
  ultimately have "process_steps sd s ?d" by (meson converse_rtranclp_into_rtranclp rtranclp.rtrancl_refl)
  then show ?thesis using s(3) by (intro exI [of _ ?d]) simp
qed


text \<open>A server that keeps the contract, and waits otherwise.\<close>

definition demo_Shutdown :: http_Shutdown where
  "demo_Shutdown active ctxErr =
     (if active = {} then Some None else (case ctxErr of None \<Rightarrow> None | Some e \<Rightarrow> Some (Some e)))"


end
