(* ===== verification/Pipeline_Reconciler.thy ===== *)
theory Pipeline_Reconciler
  imports Condition_Util Indexing Memory_Platform
begin

text \<open>
  \<open>controllers/pipeline_controller.go\<close>: the reconciler used when promotion is triggered by
  webhooks. It checks that the clusters of all targets exist and are ready, in order, and
  stops at the first that is not; the \<open>Ready\<close> condition of the Pipeline tells what it
  found. The abstract verdict (\<open>cluster_verdict\<close>) looks at all targets at once; the
  refinement theorem says that, when the answers of the API server do not change during the
  run, the handler's single write and its result are those of the verdict. The indexers of this
  controller (\<open>controllers/pipeline_indexing.go\<close>) are those of \<open>Indexing\<close>.
\<close>

section \<open>The reconciler\<close>

record EdgeReconciler =
  er_ControllerName :: string
  er_recorder :: bool

definition pc_emitEventf ::
  "EdgeReconciler \<Rightarrow> 'w Platform \<Rightarrow> Pipeline \<Rightarrow> string \<Rightarrow> string \<Rightarrow> string \<Rightarrow> ('w sys, unit) state"
where
  "pc_emitEventf r K p eventtype reason msg =
     (if \<not> er_recorder r then result () else recorder_Eventf K (Pipeline_key p) eventtype reason msg)"

definition pc_getCluster ::
  "'w Platform \<Rightarrow> Pipeline \<Rightarrow> CrossNamespaceClusterReference \<Rightarrow> ('w sys, go_error + GitopsCluster) state"
where
  "pc_getCluster K p clusterRef =
     client_GetCluster K
       \<lparr>ok_Namespace = (if ccr_Namespace clusterRef = '''' then p_Namespace p else ccr_Namespace clusterRef),
        ok_Name = ccr_Name clusterRef\<rparr>"

text \<open>The package has its own copies of the index functions and of \<open>trimString\<close>, the same code as
  in the level-triggered package.\<close>

definition pc_indexClusterKind :: "string \<Rightarrow> client_object \<Rightarrow> string list outcome" where
  "pc_indexClusterKind = indexClusterKind"

definition pc_requestsForCluster :: "'w Platform \<Rightarrow> string \<Rightarrow> ObjectKey \<Rightarrow> ('w sys, ObjectKey list) state" where
  "pc_requestsForCluster = requestsForCluster"

definition pc_trimString :: "string \<Rightarrow> nat \<Rightarrow> string" where
  "pc_trimString = trimString"

text \<open>The object is read again, and the difference to it is sent.\<close>

definition patchStatus ::
  "EdgeReconciler \<Rightarrow> 'w Platform \<Rightarrow> ObjectKey \<Rightarrow> PipelineStatus \<Rightarrow> ('w sys, go_error + unit) state"
where
  "patchStatus r K n newStatus =
     do { g \<leftarrow> client_GetPipeline K n;
          case g of
            Inl err \<Rightarrow> result (Inl err)
          | Inr pipeline \<Rightarrow>
              client_StatusPatch K (er_ControllerName r) pipeline (pipeline\<lparr>p_Status := newStatus\<rparr>) }"

definition with_condition :: "Lib \<Rightarrow> Pipeline \<Rightarrow> Condition \<Rightarrow> PipelineStatus" where
  "with_condition L p c =
     (p_Status p)\<lparr>ps_ObservedGeneration := p_Generation p,
                  ps_Conditions := lib_SetStatusCondition L (ps_Conditions (p_Status p)) c\<rparr>"

definition not_ready_condition :: "string \<Rightarrow> string \<Rightarrow> Condition" where
  "not_ready_condition msg reason =
     \<lparr>cond_Type = ReadyCondition, cond_Status = ConditionFalse, cond_Reason = reason,
      cond_Message = pc_trimString msg MaxConditionMessageLength\<rparr>"

definition checked_condition :: Condition where
  "checked_condition =
     \<lparr>cond_Type = ReadyCondition, cond_Status = ConditionTrue,
      cond_Reason = ReconciliationSucceededReason,
      cond_Message = pc_trimString ''All clusters checked'' MaxConditionMessageLength\<rparr>"

definition setStatusCondition ::
  "EdgeReconciler \<Rightarrow> Lib \<Rightarrow> 'w Platform \<Rightarrow> Pipeline \<Rightarrow> string \<Rightarrow> string \<Rightarrow> ('w sys, go_error + unit) state"
where
  "setStatusCondition r L K p msg reason =
     do { x \<leftarrow> patchStatus r K (Pipeline_key p) (with_condition L p (not_ready_condition msg reason));
          case x of
            Inl err \<Rightarrow> result (Inl (Wrapped ''failed patching Pipeline'' err))
          | Inr _ \<Rightarrow> result (Inr ()) }"

text \<open>Lines 89--101 and 109--125: note the problem in the status, or report that this failed.\<close>

definition noteProblem ::
  "EdgeReconciler \<Rightarrow> Lib \<Rightarrow> 'w Platform \<Rightarrow> Pipeline \<Rightarrow> string \<Rightarrow> string
     \<Rightarrow> ('w sys, ctrl_Result \<times> go_error option) state"
where
  "noteProblem r L K pipeline msg reason =
     do { x \<leftarrow> setStatusCondition r L K pipeline msg reason;
          case x of
            Inl err \<Rightarrow>
              do { _ \<leftarrow> pc_emitEventf r K pipeline ''Warning'' ''SetStatusConditionError''
                        (''Failed to set status for pipeline '' @ p_Namespace pipeline @ ''/''
                           @ p_Name pipeline @ '': '' @ err_Error err);
                   result (zero_Result, Some err) }
          | Inr _ \<Rightarrow>
              result (\<lparr>cr_Requeue = False, cr_RequeueAfter = DefaultRequeueInterval\<rparr>, None) }"

text \<open>The body of the loop over the targets; \<open>Inl\<close> is an early return of
  \<open>Reconcile\<close>.\<close>

definition checkTarget ::
  "EdgeReconciler \<Rightarrow> Lib \<Rightarrow> 'w Platform \<Rightarrow> Pipeline \<Rightarrow> Target
     \<Rightarrow> ('w sys, (ctrl_Result \<times> go_error option) + unit) state"
where
  "checkTarget r L K pipeline target =
     (case tgt_ClusterRef target of
        None \<Rightarrow> result (Inr ())
      | Some clusterRef \<Rightarrow>
          do { c \<leftarrow> pc_getCluster K pipeline clusterRef;
               case c of
                 Inl err \<Rightarrow>
                   do { _ \<leftarrow> pc_emitEventf r K pipeline ''Warning'' ''GetClusterError''
                             (''Failed to get cluster '' @ ccr_Namespace clusterRef @ ''/''
                                @ ccr_Name clusterRef @ '' for pipeline ''
                                @ p_Namespace pipeline @ ''/'' @ p_Name pipeline
                                @ '': '' @ err_Error err);
                        if IsNotFound err then
                          do { x \<leftarrow> noteProblem r L K pipeline
                                    (''Target cluster '' @ [CHR 39] @ ClusterRef_String clusterRef
                                       @ [CHR 39] @ '' not found'')
                                    TargetClusterNotFoundReason;
                               result (Inl x) }
                        else result (Inl (zero_Result, Some err)) }
               | Inr cluster \<Rightarrow>
                   if \<not> IsReady (gc_Conditions cluster) then
                     do { x \<leftarrow> noteProblem r L K pipeline
                               (''Target cluster '' @ [CHR 39] @ ClusterRef_String clusterRef
                                  @ [CHR 39] @ '' not ready'')
                               TargetClusterNotReadyReason;
                          result (Inl x) }
                   else result (Inr ()) })"

fun checkTargets ::
  "EdgeReconciler \<Rightarrow> Lib \<Rightarrow> 'w Platform \<Rightarrow> Pipeline \<Rightarrow> Target list
     \<Rightarrow> ('w sys, (ctrl_Result \<times> go_error option) + unit) state"
where
  "checkTargets r L K pipeline [] = result (Inr ())"
| "checkTargets r L K pipeline (target # ts) =
     do { x \<leftarrow> checkTarget r L K pipeline target;
          case x of
            Inl ret \<Rightarrow> result (Inl ret)
          | Inr _ \<Rightarrow> checkTargets r L K pipeline ts }"

definition pc_Reconcile ::
  "EdgeReconciler \<Rightarrow> Lib \<Rightarrow> 'w Platform \<Rightarrow> ObjectKey \<Rightarrow> ('w sys, ctrl_Result \<times> go_error option) state"
where
  "pc_Reconcile r L K req =
     do { g \<leftarrow> client_GetPipeline K req;
          case g of
            Inl err \<Rightarrow> result (zero_Result, IgnoreNotFound err)
          | Inr pipeline \<Rightarrow>
              if \<not> DeletionTimestamp_IsZero pipeline then result (zero_Result, None)
              else
                do { x \<leftarrow> checkTargets r L K pipeline (all_targets pipeline);
                     case x of
                       Inl ret \<Rightarrow> result ret
                     | Inr _ \<Rightarrow>
                         do { y \<leftarrow> patchStatus r K (Pipeline_key pipeline)
                                   (with_condition L pipeline checked_condition);
                              case y of
                                Inl err \<Rightarrow>
                                  do { _ \<leftarrow> pc_emitEventf r K pipeline ''Warning'' ''SetStatus''
                                            (''Failed to patch status for pipeline ''
                                               @ p_Namespace pipeline @ ''/'' @ p_Name pipeline
                                               @ '': '' @ err_Error err);
                                       result (requeue_Result, Some err) }
                              | Inr _ \<Rightarrow>
                                  do { _ \<leftarrow> pc_emitEventf r K pipeline ''Normal'' ''Updated''
                                            (''Updated pipeline '' @ p_Namespace pipeline @ ''/''
                                               @ p_Name pipeline);
                                       result (zero_Result, None) } } } }"

section \<open>The verdict\<close>

datatype verdict =
    ClustersReady
  | ClusterAbsent CrossNamespaceClusterReference
  | ClusterUnready CrossNamespaceClusterReference
  | ClusterError go_error

definition target_verdict ::
  "(ObjectKey \<Rightarrow> go_error + GitopsCluster) \<Rightarrow> Pipeline \<Rightarrow> Target \<Rightarrow> verdict"
where
  "target_verdict clusters p t =
     (case tgt_ClusterRef t of
        None \<Rightarrow> ClustersReady
      | Some ref \<Rightarrow>
          (case clusters (target_cluster_key p t) of
             Inl err \<Rightarrow> if IsNotFound err then ClusterAbsent ref else ClusterError err
           | Inr c \<Rightarrow> if IsReady (gc_Conditions c) then ClustersReady else ClusterUnready ref))"

text \<open>The verdict on a pipeline is that on the first target with a problem.\<close>

definition cluster_verdict :: "(ObjectKey \<Rightarrow> go_error + GitopsCluster) \<Rightarrow> Pipeline \<Rightarrow> Target list \<Rightarrow> verdict"
where
  "cluster_verdict clusters p ts =
     (case filter (\<lambda>v. v \<noteq> ClustersReady) (map (target_verdict clusters p) ts) of
        [] \<Rightarrow> ClustersReady
      | v # _ \<Rightarrow> v)"

text \<open>The condition a verdict is reported with; \<open>ClusterError\<close> leaves the status alone.\<close>

fun verdict_condition :: "verdict \<Rightarrow> Condition option" where
  "verdict_condition ClustersReady = Some checked_condition"
| "verdict_condition (ClusterAbsent ref) = Some (not_ready_condition
     (''Target cluster '' @ [CHR 39] @ ClusterRef_String ref @ [CHR 39] @ '' not found'') TargetClusterNotFoundReason)"
| "verdict_condition (ClusterUnready ref) = Some (not_ready_condition
     (''Target cluster '' @ [CHR 39] @ ClusterRef_String ref @ [CHR 39] @ '' not ready'') TargetClusterNotReadyReason)"
| "verdict_condition (ClusterError err) = None"

fun verdict_result :: "verdict \<Rightarrow> ctrl_Result \<times> go_error option" where
  "verdict_result ClustersReady = (zero_Result, None)"
| "verdict_result (ClusterAbsent ref) = (\<lparr>cr_Requeue = False, cr_RequeueAfter = DefaultRequeueInterval\<rparr>, None)"
| "verdict_result (ClusterUnready ref) = (\<lparr>cr_Requeue = False, cr_RequeueAfter = DefaultRequeueInterval\<rparr>, None)"
| "verdict_result (ClusterError err) = (zero_Result, Some err)"

definition status_write :: "EdgeReconciler \<Rightarrow> Lib \<Rightarrow> Pipeline \<Rightarrow> Condition \<Rightarrow> call" where
  "status_write r L p c = CallStatusPatch (er_ControllerName r) p (p\<lparr>p_Status := with_condition L p c\<rparr>)"

text \<open>The API server answers the same throughout, and accepts the write.\<close>

definition steady :: "'w Platform \<Rightarrow> (ObjectKey \<Rightarrow> go_error + GitopsCluster) \<Rightarrow> Pipeline \<Rightarrow> bool" where
  "steady K clusters p \<longleftrightarrow>
     (\<forall>key w. fst (pf_GetCluster K key w) = clusters key) \<and>
     (\<forall>w. fst (pf_GetPipeline K (Pipeline_key p) w) = Inr p) \<and>
     (\<forall>owner base q w. fst (pf_StatusPatch K owner base q w) = Inr ())"

lemma cluster_verdict_Cons:
  "cluster_verdict clusters p (t # ts) =
     (if target_verdict clusters p t = ClustersReady then cluster_verdict clusters p ts
      else target_verdict clusters p t)"
  by (simp add: cluster_verdict_def)

lemma cluster_verdict_ready:
  "cluster_verdict clusters p ts = ClustersReady \<longleftrightarrow>
     (\<forall>t \<in> set ts. target_verdict clusters p t = ClustersReady)"
proof (induction ts)
  case Nil
  then show ?case by (simp add: cluster_verdict_def)
qed (simp add: cluster_verdict_Cons)

text \<open>The calls a problem leads to, and the early return.\<close>

definition reports ::
  "EdgeReconciler \<Rightarrow> Lib \<Rightarrow> Pipeline \<Rightarrow> verdict \<Rightarrow> (ctrl_Result \<times> go_error option) + unit
     \<Rightarrow> 'w sys \<Rightarrow> 'w sys \<Rightarrow> bool"
where
  "reports r L p v x s t \<longleftrightarrow>
     (if v = ClustersReady then x = Inr () \<and> calls_of is_write t = calls_of is_write s
      else x = Inl (verdict_result v) \<and>
           calls_of is_write t =
             calls_of is_write s @ (case verdict_condition v of None \<Rightarrow> [] | Some c \<Rightarrow> [status_write r L p c]))"

lemma noteProblem_steady:
  assumes "steady K clusters p"
  shows "wp (noteProblem r L K p msg reason)
    (\<lambda>x t. x = (\<lparr>cr_Requeue = False, cr_RequeueAfter = DefaultRequeueInterval\<rparr>, None) \<and>
       calls_of is_write t = calls_of is_write s @ [status_write r L p (not_ready_condition msg reason)]) s"
  using assms
  by (simp add: noteProblem_def setStatusCondition_def patchStatus_def wp_rules op_defs steady_def
      calls_of_def status_write_def)

lemma checkTarget_steady:
  assumes "steady K clusters p"
  shows "wp (checkTarget r L K p t) (\<lambda>x t'. reports r L p (target_verdict clusters p t) x s t') s"
proof (cases "tgt_ClusterRef t")
  case None
  then show ?thesis by (simp add: checkTarget_def target_verdict_def reports_def wp_rules)
next
  case (Some ref)
  let ?key = "target_cluster_key p t"
  have key: "?key = \<lparr>ok_Namespace = (if ccr_Namespace ref = '''' then p_Namespace p else ccr_Namespace ref),
      ok_Name = ccr_Name ref\<rparr>"
    using Some by (simp add: target_cluster_key_def)
  have cl: "fst (pf_GetCluster K ?key w) = clusters ?key" for w
    using assms by (simp add: steady_def)
  note noted = wp_mono [OF noteProblem_steady [OF assms]]
  show ?thesis
    using cl
    by (auto simp: checkTarget_def Some pc_getCluster_def key [symmetric] target_verdict_def reports_def wp_rules
        op_defs pc_emitEventf_def calls_of_def split: sum.split intro!: noted)
qed

lemma checkTargets_steady:
  assumes "steady K clusters p"
  shows "wp (checkTargets r L K p ts) (\<lambda>x t'. reports r L p (cluster_verdict clusters p ts) x s t') s"
proof (induction ts arbitrary: s)
  case Nil
  then show ?case by (simp add: wp_rules reports_def cluster_verdict_def)
next
  case (Cons t ts)
  show ?case
    unfolding checkTargets.simps wp_rules
  proof (rule wp_mono [OF checkTarget_steady [OF assms]], goal_cases)
    case (1 x s')
    then show ?case
      by (cases "target_verdict clusters p t = ClustersReady")
         (auto simp: cluster_verdict_Cons reports_def wp_rules split: if_splits
           intro!: wp_mono [OF Cons.IH])
  qed
qed

section \<open>Properties\<close>

text \<open>C9. The webhook-mode reconciler refines the verdict on the pipeline's clusters. When the
  API server's answers do not change during the run, \<open>Reconcile\<close> makes exactly one
  write: the status it read, with the generation and the verdict's \<open>Ready\<close> condition
  (true only if the clusters of all targets exist and are ready; otherwise the reason and the
  name of the first offending cluster), and everything else in the status as it was, waiting
  approvals included. It makes none if a lookup fails unexpectedly. It returns the verdict's
  result.\<close>

theorem pc_Reconcile_refines_verdict:
  assumes "steady K clusters p" and "DeletionTimestamp_IsZero p"
    and "v = cluster_verdict clusters p (all_targets p)"
  shows "value_of (pc_Reconcile r L K (Pipeline_key p)) s = verdict_result v \<and>
    calls_of is_write (exec (pc_Reconcile r L K (Pipeline_key p)) s) =
      calls_of is_write s @
      (case verdict_condition v of
         None \<Rightarrow> []
       | Some c \<Rightarrow> [CallStatusPatch (er_ControllerName r) p
                    (p\<lparr>p_Status := (p_Status p)\<lparr>ps_ObservedGeneration := p_Generation p,
                       ps_Conditions := lib_SetStatusCondition L (ps_Conditions (p_Status p)) c\<rparr>\<rparr>)])"
proof -
  let ?s = "s\<lparr>world := snd (pf_GetPipeline K (Pipeline_key p) (world s)),
              trace := trace s @ [CallGetPipeline (Pipeline_key p)]\<rparr>"
  have get: "fst (pf_GetPipeline K (Pipeline_key p) w) = Inr p" for w
    using assms(1) by (simp add: steady_def)
  have written: "\<And>owner base q w. fst (pf_StatusPatch K owner base q w) = Inr ()"
    using assms(1) by (simp add: steady_def)
  have start: "calls_of is_write ?s = calls_of is_write s" by (simp add: calls_of_def)
  have "wp (pc_Reconcile r L K (Pipeline_key p))
     (\<lambda>x t. x = verdict_result v \<and> calls_of is_write t = calls_of is_write s @
        (case verdict_condition v of None \<Rightarrow> [] | Some c \<Rightarrow> [status_write r L p c])) s"
    unfolding pc_Reconcile_def wp_rules op_defs
    using assms(2) get written start
    by (auto simp: wp_rules op_defs reports_def patchStatus_def pc_emitEventf_def calls_of_def status_write_def
        assms(3) [symmetric] split: if_splits option.split
        intro!: wp_mono [OF checkTargets_steady [OF assms(1), of r L "all_targets p" ?s]])
  then show ?thesis
    by (simp only: wp_exec status_write_def with_condition_def)
qed

text \<open>A pipeline with a local target and a target on a cluster that is not ready.\<close>

definition two_targets :: Pipeline where
  "two_targets =
     sample_pipeline\<lparr>p_Spec := (p_Spec sample_pipeline)\<lparr>spec_Environments :=
       [sample_env ''dev'',
        \<lparr>env_Name = ''prod'', env_Targets = [\<lparr>tgt_Namespace = ''prod'', tgt_ClusterRef = Some
           \<lparr>ccr_APIVersion = '''', ccr_Kind = ''GitopsCluster'', ccr_Name = ''c'', ccr_Namespace = ''''\<rparr>\<rparr>],
         env_Promotion = None\<rparr>]\<rparr>\<rparr>"

definition unready_cluster :: GitopsCluster where
  "unready_cluster = \<lparr>gc_Namespace = ''default'', gc_Name = ''c'', gc_CAPIClusterRef = None,
     gc_SecretRef = None, gc_Conditions = []\<rparr>"

definition steady_platform :: "store Platform" where
  "steady_platform = mem_platform\<lparr>pf_GetPipeline := (\<lambda>key w. (Inr two_targets, w)),
     pf_GetCluster := (\<lambda>key w. (Inr unready_cluster, w))\<rparr>"

theorem pc_Reconcile_refines_verdict_witness:
  "value_of (pc_Reconcile \<lparr>er_ControllerName = ''c'', er_recorder = True\<rparr> mem_lib steady_platform sample_key)
     sample_sys = (\<lparr>cr_Requeue = False, cr_RequeueAfter = DefaultRequeueInterval\<rparr>, None)"
proof -
  have "steady steady_platform (\<lambda>key. Inr unready_cluster) two_targets"
    by (simp add: steady_def steady_platform_def mem_write_def)
  moreover have "DeletionTimestamp_IsZero two_targets" "Pipeline_key two_targets = sample_key"
    by (simp_all add: two_targets_def sample_pipeline_def DeletionTimestamp_IsZero_def Pipeline_key_def)
  ultimately show ?thesis
    using pc_Reconcile_refines_verdict [OF _ _ refl, of steady_platform "\<lambda>key. Inr unready_cluster" two_targets
        "\<lparr>er_ControllerName = ''c'', er_recorder = True\<rparr>" mem_lib sample_sys]
    by (simp add: cluster_verdict_def target_verdict_def all_targets_def two_targets_def unready_cluster_def)
qed

end
