(* ===== verification/Git_Utils.thy ===== *)
theory Git_Utils
  imports Git_Types
begin

text \<open>
  \<open>internal/git/utils.go\<close> and the parsing of URLs in \<open>gitprovider.go\<close>. The record
  \<open>GitLib\<close> holds the pure functions of third-party libraries. \<open>path.Join\<close>,
  \<open>filepath.Split\<close> and \<open>strings.Trim\<close> are written out. The regular expression of
  \<open>ParseBitbucketServerURL\<close> is a matcher on the segments of the URL; its language and the
  preference among its matches are stated independently (\<open>bitbucket_url\<close>) and the matcher
  is proved to decide them.
\<close>

section \<open>Third-party functions\<close>

record Endpoint =
  ep_Protocol :: string
  ep_Host :: string
  ep_Path :: string

record url_URL =
  url_Host :: string
  url_Path :: string

record UserRepositoryRef =
  urr_Domain :: string
  urr_RepositoryName :: string

text \<open>The setter that \<open>patchManifests\<close> hands to kyaml: the name of its definition, its own
  name and its value.\<close>

record setter_schema =
  ss_Definition :: string
  ss_Name :: string
  ss_Value :: string

text \<open>\<open>gl_RepositoryAPIURL\<close> is the setting \<open>capi-templates-repository-api-url\<close>.
  \<open>gl_AuthOptions\<close> is \<open>git.NewAuthOptions\<close>, its result a value that only the git
  client reads. A node of a manifest is its text.\<close>

record GitLib =
  gl_Quote :: "string \<Rightarrow> string"
  gl_RepositoryAPIURL :: string
  gl_NewEndpoint :: "string \<Rightarrow> go_error + Endpoint"
  gl_EndpointString :: "Endpoint \<Rightarrow> string"
  gl_ParseUserRepositoryURL :: "string \<Rightarrow> go_error + UserRepositoryRef"
  gl_ParseOrgRepositoryURL :: "string \<Rightarrow> go_error + OrgRepositoryRef"
  gl_UrlParse :: "string \<Rightarrow> go_error + url_URL"
  gl_UrlString :: "url_URL \<Rightarrow> string"
  gl_AuthOptions :: "url_URL \<Rightarrow> (string \<rightharpoonup> string) \<Rightarrow> go_error + string"
  gl_SupportedDomain :: "nat \<Rightarrow> string"
  gl_SetterDefinitionPrefix :: string
  gl_SetFilter :: "string \<Rightarrow> setter_schema \<Rightarrow> string \<Rightarrow> go_error + string"

section \<open>Paths\<close>

text \<open>\<open>path.Clean\<close>: the segments kept so far, the last one first.\<close>

fun clean_segments :: "bool \<Rightarrow> string list \<Rightarrow> string list \<Rightarrow> string list" where
  "clean_segments rooted kept [] = rev kept"
| "clean_segments rooted kept (w # ws) =
     (if w = '''' \<or> w = ''.'' then clean_segments rooted kept ws
      else if w = ''..'' then
        (case kept of
           [] \<Rightarrow> clean_segments rooted (if rooted then [] else [w]) ws
         | v # vs \<Rightarrow> clean_segments rooted (if v = ''..'' then w # kept else vs) ws)
      else clean_segments rooted (w # kept) ws)"

definition path_Clean :: "string \<Rightarrow> string" where
  "path_Clean p =
     (let rooted = HasPrefix p ''/'';
          out = (if rooted then ''/'' else '''') @
                JoinWith (CHR ''/'') (clean_segments rooted [] (SplitOn (CHR ''/'') p))
      in if out = '''' then ''.'' else out)"

definition path_Join :: "string list \<Rightarrow> string" where
  "path_Join elems =
     (case dropWhile (\<lambda>e. e = '''') elems of
        [] \<Rightarrow> ''''
      | e # es \<Rightarrow> path_Clean (JoinWith (CHR ''/'') (e # es)))"

text \<open>The directory that \<open>filepath.Split\<close> returns, with its final slash.\<close>

definition filepath_Dir :: "string \<Rightarrow> string" where
  "filepath_Dir p = rev (dropWhile (\<lambda>c. c \<noteq> CHR ''/'') (rev p))"

definition TrimSlashes :: "string \<Rightarrow> string" where
  "TrimSlashes s =
     rev (dropWhile (\<lambda>c. c = CHR ''/'') (rev (dropWhile (\<lambda>c. c = CHR ''/'') s)))"

section \<open>Domains and URLs\<close>

definition AddSchemeToDomain :: "string \<Rightarrow> string" where
  "AddSchemeToDomain domain =
     (if domain \<noteq> ''github.com'' \<and> domain \<noteq> ''gitlab.com'' \<and>
         \<not> HasPrefix domain ''http://'' \<and> \<not> HasPrefix domain ''https://''
      then ''https://'' @ domain
      else domain)"

definition GetGitProviderUrl :: "GitLib \<Rightarrow> string \<Rightarrow> go_error + string" where
  "GetGitProviderUrl G giturl =
     (if gl_RepositoryAPIURL G \<noteq> '''' then Inr (gl_RepositoryAPIURL G)
      else
        (case gl_NewEndpoint G giturl of
           Inl err \<Rightarrow> Inl err
         | Inr ep \<Rightarrow>
             if ep_Protocol ep = ''http'' \<or> ep_Protocol ep = ''https'' then Inr giturl
             else Inr (gl_EndpointString G
                    \<lparr>ep_Protocol = ''https'', ep_Host = ep_Host ep, ep_Path = ep_Path ep\<rparr>)))"

definition WithCombinedSubOrgs :: "OrgRepositoryRef \<Rightarrow> OrgRepositoryRef" where
  "WithCombinedSubOrgs ref =
     ref\<lparr>orr_Organization := path_Join (orr_Organization ref # orr_SubOrganizations ref),
         orr_SubOrganizations := []\<rparr>"

section \<open>The URL of a Bitbucket repository\<close>

text \<open>The group \<open>repo\<close> followed by \<open>.git\<close>, inside one segment: the longest non-empty
  text of at most \<open>n\<close> characters with \<open>.git\<close> after it.\<close>

fun longest_repo :: "nat \<Rightarrow> string \<Rightarrow> string option" where
  "longest_repo 0 seg = None"
| "longest_repo (Suc n) seg =
     (if HasPrefix (drop (Suc n) seg) ''.git'' then Some (take (Suc n) seg) else longest_repo n seg)"

text \<open>The groups after the host when the optional group takes the first \<open>k\<close> segments:
  \<open>.+\<close> is not empty and has no newline.\<close>

definition prefix_group :: "string list \<Rightarrow> bool" where
  "prefix_group ws \<longleftrightarrow>
     ws = [] \<or> (JoinWith (CHR ''/'') ws \<noteq> '''' \<and> CHR 0x0A \<notin> set (JoinWith (CHR ''/'') ws))"

definition key_repo :: "string list \<Rightarrow> nat \<Rightarrow> (string \<times> string) option" where
  "key_repo segs k =
     (if Suc k < length segs \<and> segs ! k \<noteq> '''' \<and> prefix_group (take k segs) then
        map_option (Pair (segs ! k)) (longest_repo (length (segs ! Suc k)) (segs ! Suc k))
      else None)"

text \<open>The optional group is greedy: it takes as many segments as it can, none at last.\<close>

fun latest_key_repo :: "string list \<Rightarrow> nat \<Rightarrow> (string \<times> string) option" where
  "latest_key_repo segs 0 = key_repo segs 0"
| "latest_key_repo segs (Suc k) =
     (case key_repo segs (Suc k) of Some m \<Rightarrow> Some m | None \<Rightarrow> latest_key_repo segs k)"

definition match_here :: "string \<Rightarrow> (string \<times> string \<times> string) option" where
  "match_here s =
     (case StripPrefix ''://'' s of
        None \<Rightarrow> None
      | Some r \<Rightarrow>
          (case SplitOn (CHR ''/'') r of
             host # seg # segs \<Rightarrow>
               if host = '''' then None
               else map_option (Pair host) (latest_key_repo (seg # segs) (length (seg # segs)))
           | _ \<Rightarrow> None))"

text \<open>The leftmost match.\<close>

fun FindStringSubmatch :: "string \<Rightarrow> (string \<times> string \<times> string) option" where
  "FindStringSubmatch [] = None"
| "FindStringSubmatch (c # s) =
     (case match_here (c # s) of Some m \<Rightarrow> Some m | None \<Rightarrow> FindStringSubmatch s)"

text \<open>Without a match, \<open>match\<close> is nil and \<open>match[1]\<close> panics before the check of
  \<open>len(result)\<close>; with one, all three names are in the map.\<close>

definition ParseBitbucketServerURL :: "string \<Rightarrow> (go_error + OrgRepositoryRef) outcome" where
  "ParseBitbucketServerURL url =
     (case FindStringSubmatch url of
        None \<Rightarrow> Panicked index_out_of_range
      | Some (host, key, repo) \<Rightarrow>
          Returned (Inr \<lparr>orr_Domain = AddSchemeToDomain host, orr_Organization = key,
                         orr_SubOrganizations = [], orr_RepositoryName = repo, orr_key = key\<rparr>))"

definition GitHubProviderName :: string where
  "GitHubProviderName = ''github''"

definition GitLabProviderName :: string where
  "GitLabProviderName = ''gitlab''"

definition BitBucketServerProviderName :: string where
  "BitBucketServerProviderName = ''bitbucket-server''"

definition AzureDevOpsProviderName :: string where
  "AzureDevOpsProviderName = ''azure-devops''"

lemmas provider_names = GitHubProviderName_def GitLabProviderName_def
  BitBucketServerProviderName_def AzureDevOpsProviderName_def

abbreviation zero_ParsedURL :: ParsedURL where
  "zero_ParsedURL \<equiv> \<lparr>pu_Domain = '''', pu_OrganizationName = '''', pu_RepositoryName = ''''\<rparr>"

definition ParseURL :: "GitLib \<Rightarrow> string \<Rightarrow> string \<Rightarrow> (go_error + ParsedURL) outcome" where
  "ParseURL G provider repoURL =
     (if provider = GitHubProviderName \<or> provider = GitLabProviderName then
        (case gl_ParseUserRepositoryURL G repoURL of
           Inl err \<Rightarrow> Returned (Inl err)
         | Inr ref \<Rightarrow> Returned (Inr (zero_ParsedURL\<lparr>pu_Domain := urr_Domain ref,
                        pu_RepositoryName := urr_RepositoryName ref\<rparr>)))
      else if provider = BitBucketServerProviderName then
        (case ParseBitbucketServerURL repoURL of
           Panicked msg \<Rightarrow> Panicked msg
         | Returned (Inl err) \<Rightarrow> Returned (Inl err)
         | Returned (Inr ref) \<Rightarrow> Returned (Inr \<lparr>pu_Domain = orr_Domain ref,
             pu_OrganizationName = orr_Organization ref, pu_RepositoryName = orr_RepositoryName ref\<rparr>))
      else Returned (Inr zero_ParsedURL))"


section \<open>The matcher decides the pattern\<close>

text \<open>Segments, each with a slash after it.\<close>

definition slashed :: "string list \<Rightarrow> string" where
  "slashed ws = concat (map (\<lambda>w. w @ ''/'') ws)"

lemma slashed_simps [simp]:
  "slashed [] = []" "slashed (w # ws) = w @ CHR ''/'' # slashed ws" "slashed (ws @ vs) = slashed ws @ slashed vs"
  by (simp_all add: slashed_def)

lemma SplitOn_slashed:
  "\<forall>w \<in> set ws. CHR ''/'' \<notin> set w \<Longrightarrow> SplitOn (CHR ''/'') (slashed ws @ s) = ws @ SplitOn (CHR ''/'') s"
  by (induction ws) (simp_all add: SplitOn_append)

lemma JoinWith_slashed:
  "k < length ws \<Longrightarrow> JoinWith (CHR ''/'') ws = slashed (take k ws) @ JoinWith (CHR ''/'') (drop k ws)"
proof (induction k arbitrary: ws)
  case (Suc k)
  then obtain w v vs where "ws = w # v # vs" by (cases ws; cases "tl ws") auto
  with Suc.IH [of "v # vs"] Suc.prems show ?case by simp
qed simp

lemma slashed_JoinWith: "ws \<noteq> [] \<Longrightarrow> slashed ws = JoinWith (CHR ''/'') ws @ ''/''"
  by (induction "CHR ''/''" ws rule: JoinWith.induct) auto

lemma length_slashed_take: "j \<le> k \<Longrightarrow> length (slashed (take j ws)) \<le> length (slashed (take k ws))"
  by (metis le_iff_add length_append nat_le_linear slashed_simps(3) take_add)

lemma SplitOn_hd: "hd (SplitOn c s) = takeWhile (\<lambda>x. x \<noteq> c) s"
  by (induction s) (auto split: list.splits dest: arg_cong [of _ _ hd])

lemma longest_repo_Some:
  assumes "longest_repo n seg = Some r" and "n \<le> length seg"
  shows "r \<noteq> [] \<and> (\<exists>post. seg = r @ ''.git'' @ post) \<and>
    (\<forall>r' post. seg = r' @ ''.git'' @ post \<and> length r' \<le> n \<longrightarrow> length r' \<le> length r)"
  using assms
proof (induction n)
  case (Suc n)
  show ?case
  proof (cases "HasPrefix (drop (Suc n) seg) ''.git''")
    case True
    with Suc.prems obtain post where post: "drop (Suc n) seg = ''.git'' @ post" "r = take (Suc n) seg"
      by (auto simp: HasPrefix_iff)
    then have "seg = r @ ''.git'' @ post" by (metis append_take_drop_id)
    moreover have "length r = Suc n" using post(2) Suc.prems(2) by simp
    ultimately show ?thesis by (metis Zero_not_Suc list.size(3))
  next
    case False
    then have "length r' \<le> n" if "seg = r' @ ''.git'' @ post" "length r' \<le> Suc n" for r' post
      using that by (cases "length r' = Suc n") (auto simp: HasPrefix_iff)
    with Suc False show ?thesis by auto
  qed
qed simp

lemma longest_repo_None:
  "longest_repo n seg = None \<Longrightarrow> r \<noteq> [] \<Longrightarrow> length r \<le> n \<Longrightarrow> seg \<noteq> r @ ''.git'' @ post"
proof (induction n)
  case (Suc n)
  then show ?case
    by (cases "length r = Suc n") (auto simp: HasPrefix_iff split: if_splits)
qed simp

lemma latest_key_repo_Some:
  assumes "latest_key_repo segs k = Some m"
  shows "\<exists>j \<le> k. key_repo segs j = Some m \<and> (\<forall>i. j < i \<and> i \<le> k \<longrightarrow> key_repo segs i = None)"
  using assms
proof (induction k)
  case (Suc k)
  show ?case
  proof (cases "key_repo segs (Suc k)")
    case None
    with Suc obtain j where "j \<le> k" "key_repo segs j = Some m"
      "\<forall>i. j < i \<and> i \<le> k \<longrightarrow> key_repo segs i = None" by auto
    with None show ?thesis by (intro exI [of _ j]) (auto simp: le_Suc_eq)
  next
    case (Some n)
    with Suc.prems show ?thesis by (intro exI [of _ "Suc k"]) auto
  qed
qed auto

lemma latest_key_repo_None: "latest_key_repo segs k = None \<Longrightarrow> j \<le> k \<Longrightarrow> key_repo segs j = None"
  by (induction k) (auto simp: le_Suc_eq split: option.splits)

text \<open>The pattern after the host, as a decomposition of the text.\<close>

definition groups :: "string \<Rightarrow> string \<Rightarrow> string \<Rightarrow> string \<Rightarrow> bool" where
  "groups s grp key repo \<longleftrightarrow>
     (\<exists>post. s = grp @ key @ ''/'' @ repo @ ''.git'' @ post) \<and>
     (grp = '''' \<or> (\<exists>g. grp = g @ ''/'' \<and> g \<noteq> '''' \<and> CHR 0x0A \<notin> set g)) \<and>
     key \<noteq> '''' \<and> CHR ''/'' \<notin> set key \<and> repo \<noteq> '''' \<and> CHR ''/'' \<notin> set repo"

text \<open>The same on the segments: the optional group covers \<open>k\<close> of them.\<close>

definition groups_at :: "string list \<Rightarrow> nat \<Rightarrow> string \<Rightarrow> string \<Rightarrow> bool" where
  "groups_at segs k key repo \<longleftrightarrow>
     Suc k < length segs \<and> segs ! k = key \<and> key \<noteq> '''' \<and> prefix_group (take k segs) \<and>
     repo \<noteq> '''' \<and> (\<exists>post. segs ! Suc k = repo @ ''.git'' @ post)"

lemma groups_at_imp:
  assumes "groups_at (SplitOn (CHR ''/'') s) k key repo"
  shows "groups s (slashed (take k (SplitOn (CHR ''/'') s))) key repo"
proof -
  let ?segs = "SplitOn (CHR ''/'') s"
  from assms obtain post where g: "Suc k < length ?segs" "?segs ! k = key" "key \<noteq> ''''"
    "prefix_group (take k ?segs)" "repo \<noteq> ''''" "?segs ! Suc k = repo @ ''.git'' @ post"
    by (auto simp: groups_at_def)
  have drops: "drop k ?segs = key # (repo @ ''.git'' @ post) # drop (Suc (Suc k)) ?segs"
    using g by (metis Cons_nth_drop_Suc Suc_lessD)
  have "JoinWith (CHR ''/'') ?segs = slashed (take k ?segs) @ JoinWith (CHR ''/'') (drop k ?segs)"
    by (rule JoinWith_slashed) (use g(1) in simp)
  then have s: "s = slashed (take k ?segs) @ key @ ''/'' @
      JoinWith (CHR ''/'') ((repo @ ''.git'' @ post) # drop (Suc (Suc k)) ?segs)"
    unfolding drops by simp
  have "\<exists>post'. JoinWith (CHR ''/'') ((repo @ ''.git'' @ post) # drop (Suc (Suc k)) ?segs) = repo @ ''.git'' @ post'"
    by (cases "drop (Suc (Suc k)) ?segs") auto
  moreover have "CHR ''/'' \<notin> set key" "CHR ''/'' \<notin> set repo"
    using g SplitOn_words_no_sep [of "?segs ! k" "CHR ''/''" s] SplitOn_words_no_sep [of "?segs ! Suc k" "CHR ''/''" s]
      nth_mem [OF g(1)] nth_mem [OF Suc_lessD [OF g(1)]]
    by simp_all
  moreover have "slashed (take k ?segs) = '''' \<or> (\<exists>g. slashed (take k ?segs) = g @ ''/'' \<and> g \<noteq> '''' \<and> CHR 0x0A \<notin> set g)"
    using g(4) slashed_JoinWith [of "take k ?segs"] unfolding prefix_group_def
    by (cases "take k ?segs = []") auto
  ultimately show ?thesis
    unfolding groups_def using s g by metis
qed

lemma groups_imp_at:
  assumes "groups s grp key repo"
  shows "\<exists>k. groups_at (SplitOn (CHR ''/'') s) k key repo \<and> grp = slashed (take k (SplitOn (CHR ''/'') s))"
proof -
  from assms obtain post where s: "s = grp @ key @ ''/'' @ repo @ ''.git'' @ post"
    and g: "grp = '''' \<or> (\<exists>g. grp = g @ ''/'' \<and> g \<noteq> '''' \<and> CHR 0x0A \<notin> set g)"
    and kr: "key \<noteq> ''''" "CHR ''/'' \<notin> set key" "repo \<noteq> ''''" "CHR ''/'' \<notin> set repo"
    by (auto simp: groups_def)
  obtain ws where ws: "grp = slashed ws" "\<forall>w \<in> set ws. CHR ''/'' \<notin> set w" "prefix_group ws"
  proof (cases "grp = ''''")
    case True
    then show thesis by (intro that [of "[]"]) (simp_all add: prefix_group_def)
  next
    case False
    then obtain g' where "grp = g' @ ''/''" "g' \<noteq> ''''" "CHR 0x0A \<notin> set g'" using g by blast
    then show thesis
      by (intro that [of "SplitOn (CHR ''/'') g'"])
         (auto simp: slashed_JoinWith prefix_group_def dest: SplitOn_words_no_sep)
  qed
  define last where "last = SplitOn (CHR ''/'') (repo @ ''.git'' @ post)"
  have "SplitOn (CHR ''/'') s = ws @ key # last"
    unfolding s last_def ws(1) SplitOn_slashed [OF ws(2)] using SplitOn_append [OF kr(2)] by simp
  moreover have "last \<noteq> []" by (simp add: last_def)
  moreover have "hd last = repo @ ''.git'' @ takeWhile (\<lambda>x. x \<noteq> CHR ''/'') post"
    using kr(4) by (simp add: last_def SplitOn_hd takeWhile_append)
  ultimately show ?thesis
    using ws kr by (intro exI [of _ "length ws"]) (auto simp: groups_at_def nth_append hd_conv_nth)
qed

lemma key_repo_Some:
  assumes "key_repo segs k = Some (key, repo)"
  shows "groups_at segs k key repo \<and> (\<forall>repo'. groups_at segs k key repo' \<longrightarrow> length repo' \<le> length repo)"
proof -
  from assms have k: "Suc k < length segs" "segs ! k = key" "key \<noteq> ''''" "prefix_group (take k segs)"
    "longest_repo (length (segs ! Suc k)) (segs ! Suc k) = Some repo"
    by (auto simp: key_repo_def split: if_splits)
  from longest_repo_Some [OF this(5)] have "repo \<noteq> []" "\<exists>post. segs ! Suc k = repo @ ''.git'' @ post"
    "\<And>r post. segs ! Suc k = r @ ''.git'' @ post \<Longrightarrow> length r \<le> length repo" by auto
  with k show ?thesis by (auto simp: groups_at_def)
qed

lemma key_repo_None:
  assumes "key_repo segs k = None"
  shows "\<not> groups_at segs k key repo"
proof
  assume at: "groups_at segs k key repo"
  then obtain post where post: "segs ! Suc k = repo @ ''.git'' @ post" "repo \<noteq> ''''" by (auto simp: groups_at_def)
  then have "length repo \<le> length (segs ! Suc k)" by simp
  moreover have "longest_repo (length (segs ! Suc k)) (segs ! Suc k) = None"
    using at assms unfolding groups_at_def key_repo_def by simp
  ultimately show False using longest_repo_None post by blast
qed


text \<open>A match of the whole pattern, \<open>pre\<close> before it, and the preference of the matcher
  among all matches: leftmost first, then the longest optional group, then the longest
  repository name.\<close>

definition bitbucket_url :: "string \<Rightarrow> string \<Rightarrow> string \<Rightarrow> string \<Rightarrow> string \<Rightarrow> string \<Rightarrow> bool" where
  "bitbucket_url url pre host grp key repo \<longleftrightarrow>
     host \<noteq> '''' \<and> CHR ''/'' \<notin> set host \<and>
     (\<exists>s. url = pre @ ''://'' @ host @ ''/'' @ s \<and> groups s grp key repo)"

definition preferred :: "string \<Rightarrow> string \<Rightarrow> string \<Rightarrow> string \<Rightarrow> string \<Rightarrow> string \<Rightarrow> bool" where
  "preferred url pre host grp key repo \<longleftrightarrow>
     bitbucket_url url pre host grp key repo \<and>
     (\<forall>pre' host' grp' key' repo'. bitbucket_url url pre' host' grp' key' repo' \<longrightarrow>
        length pre \<le> length pre' \<and>
        (pre' = pre \<longrightarrow> host' = host \<and> length grp' \<le> length grp \<and>
           (grp' = grp \<longrightarrow> key' = key \<and> length repo' \<le> length repo)))"

lemma latest_groups_None:
  assumes "latest_key_repo (SplitOn (CHR ''/'') s) (length (SplitOn (CHR ''/'') s)) = None"
  shows "\<not> groups s grp key repo"
proof
  assume "groups s grp key repo"
  from groups_imp_at [OF this] obtain k where k: "groups_at (SplitOn (CHR ''/'') s) k key repo" by blast
  then have "k \<le> length (SplitOn (CHR ''/'') s)" by (simp add: groups_at_def)
  from key_repo_None [OF latest_key_repo_None [OF assms this]] k show False by blast
qed

lemma latest_groups_Some:
  assumes "latest_key_repo (SplitOn (CHR ''/'') s) (length (SplitOn (CHR ''/'') s)) = Some (key, repo)"
  shows "\<exists>grp. groups s grp key repo \<and>
    (\<forall>grp' key' repo'. groups s grp' key' repo' \<longrightarrow>
       length grp' \<le> length grp \<and> (grp' = grp \<longrightarrow> key' = key \<and> length repo' \<le> length repo))"
proof -
  let ?segs = "SplitOn (CHR ''/'') s"
  from latest_key_repo_Some [OF assms] obtain j where j: "key_repo ?segs j = Some (key, repo)"
    "\<And>i. j < i \<Longrightarrow> i \<le> length ?segs \<Longrightarrow> key_repo ?segs i = None" by blast
  have at: "groups_at ?segs j key repo" "\<And>r. groups_at ?segs j key r \<Longrightarrow> length r \<le> length repo"
    using key_repo_Some [OF j(1)] by blast+
  have "length grp' \<le> length (slashed (take j ?segs)) \<and>
      (grp' = slashed (take j ?segs) \<longrightarrow> key' = key \<and> length repo' \<le> length repo)"
    if g: "groups s grp' key' repo'" for grp' key' repo'
  proof -
    from groups_imp_at [OF g] obtain k where k: "groups_at ?segs k key' repo'" "grp' = slashed (take k ?segs)"
      by blast
    then have "k \<le> length ?segs" by (simp add: groups_at_def)
    then have "\<not> j < k" using key_repo_None j(2) k(1) by blast
    moreover have "length (slashed (take k ?segs)) < length (slashed (take j ?segs))" if "k < j"
    proof -
      have "slashed (take (Suc k) ?segs) = slashed (take k ?segs) @ ?segs ! k @ ''/''"
        using k(1) by (simp add: take_Suc_conv_app_nth groups_at_def)
      with length_slashed_take [of "Suc k" j ?segs] that show ?thesis by simp
    qed
    ultimately show ?thesis
      using k at by (cases "k = j") (auto simp: groups_at_def)
  qed
  with groups_at_imp [OF at(1)] show ?thesis by blast
qed

lemma SplitOn_first:
  assumes "SplitOn c r = host # ws" and "ws \<noteq> []"
  shows "\<exists>s. r = host @ c # s \<and> c \<notin> set host \<and> SplitOn c s = ws"
proof (intro exI conjI)
  have "JoinWith c (SplitOn c r) = host @ c # JoinWith c ws" using assms by (simp add: JoinWith_Cons)
  then show "r = host @ c # JoinWith c ws" by simp
  have "\<forall>w \<in> set (SplitOn c r). c \<notin> set w" using SplitOn_words_no_sep by blast
  with assms show "c \<notin> set host" "SplitOn c (JoinWith c ws) = ws" by (auto intro: SplitOn_JoinWith)
qed

lemma host_unique:
  assumes "h @ CHR ''/'' # s = h' @ CHR ''/'' # s'" and "CHR ''/'' \<notin> set h" and "CHR ''/'' \<notin> set h'"
  shows "h = h' \<and> s = s'"
proof -
  have "h = h'"
    using arg_cong [OF assms(1), of "SplitOn (CHR ''/'')"]
    by (simp add: SplitOn_append [OF assms(2)] SplitOn_append [OF assms(3)])
  with assms(1) show ?thesis by simp
qed

lemma match_here_cases:
  "(case match_here u of
      None \<Rightarrow> \<forall>host grp key repo. \<not> bitbucket_url u [] host grp key repo
    | Some (host, key, repo) \<Rightarrow> \<exists>grp. bitbucket_url u [] host grp key repo \<and>
        (\<forall>host' grp' key' repo'. bitbucket_url u [] host' grp' key' repo' \<longrightarrow>
           host' = host \<and> length grp' \<le> length grp \<and>
           (grp' = grp \<longrightarrow> key' = key \<and> length repo' \<le> length repo)))"
proof (cases "\<exists>host s. u = ''://'' @ host @ ''/'' @ s \<and> host \<noteq> [] \<and> CHR ''/'' \<notin> set host")
  case True
  then obtain host s where u: "u = ''://'' @ host @ ''/'' @ s" "host \<noteq> []" "CHR ''/'' \<notin> set host" by blast
  let ?segs = "SplitOn (CHR ''/'') s"
  have "SplitOn (CHR ''/'') (host @ ''/'' @ s) = host # ?segs" using SplitOn_append [OF u(3)] by simp
  moreover obtain w ws where "?segs = w # ws" by (cases ?segs) auto
  ultimately have here: "match_here u = map_option (Pair host) (latest_key_repo ?segs (length ?segs))"
    using u by (simp add: match_here_def StripPrefix_def HasPrefix_def)
  have url: "bitbucket_url u [] h g k r \<longleftrightarrow> h = host \<and> groups s g k r" for h g k r
    unfolding bitbucket_url_def u(1) using u(2,3) host_unique [of host s h] by auto
  show ?thesis
  proof (cases "latest_key_repo ?segs (length ?segs)")
    case None
    with here latest_groups_None show ?thesis by (auto simp: url)
  next
    case (Some m)
    obtain key repo where m: "m = (key, repo)" by fastforce
    with Some latest_groups_Some have "\<exists>grp. groups s grp key repo \<and>
      (\<forall>grp' key' repo'. groups s grp' key' repo' \<longrightarrow>
         length grp' \<le> length grp \<and> (grp' = grp \<longrightarrow> key' = key \<and> length repo' \<le> length repo))" by blast
    with here Some m show ?thesis by (simp add: url)
  qed
next
  case False
  have "match_here u = None"
  proof (rule ccontr)
    assume "match_here u \<noteq> None"
    then obtain r host seg segs where "u = ''://'' @ r" "SplitOn (CHR ''/'') r = host # seg # segs" "host \<noteq> []"
      by (auto simp: match_here_def StripPrefix_Some_iff split: option.splits list.splits if_splits)
    with SplitOn_first [of "CHR ''/''" r host "seg # segs"] False show False by auto
  qed
  with False show ?thesis by (auto simp: bitbucket_url_def)
qed

lemma match_here_None: "match_here u = None \<Longrightarrow> \<not> bitbucket_url u [] host grp key repo"
  using match_here_cases [of u] by simp

lemma match_here_Some:
  assumes "match_here u = Some (host, key, repo)"
  obtains grp where "bitbucket_url u [] host grp key repo"
    and "\<And>host' grp' key' repo'. bitbucket_url u [] host' grp' key' repo' \<Longrightarrow>
      host' = host \<and> length grp' \<le> length grp \<and> (grp' = grp \<longrightarrow> key' = key \<and> length repo' \<le> length repo)"
  using match_here_cases [of u] assms by (auto elim!: exE)

lemma preferred_here:
  assumes "bitbucket_url u [] host grp key repo"
    and best: "\<And>host' grp' key' repo'. bitbucket_url u [] host' grp' key' repo' \<Longrightarrow>
      host' = host \<and> length grp' \<le> length grp \<and> (grp' = grp \<longrightarrow> key' = key \<and> length repo' \<le> length repo)"
  shows "preferred u [] host grp key repo"
  unfolding preferred_def
proof (intro conjI [OF assms(1)] allI impI)
  fix pre' h g k r
  assume url: "bitbucket_url u pre' h g k r"
  show "length [] \<le> length pre' \<and>
    (pre' = [] \<longrightarrow> h = host \<and> length g \<le> length grp \<and> (g = grp \<longrightarrow> k = key \<and> length r \<le> length repo))"
  proof (cases "pre' = []")
    case True
    then show ?thesis using best [of h g k r] url by simp
  qed simp
qed

lemma bitbucket_url_Cons:
  "bitbucket_url (c # u) (c' # pre) host grp key repo \<longleftrightarrow> c' = c \<and> bitbucket_url u pre host grp key repo"
  by (auto simp: bitbucket_url_def)

lemma FindStringSubmatch_None:
  "FindStringSubmatch url = None \<longleftrightarrow> (\<forall>pre host grp key repo. \<not> bitbucket_url url pre host grp key repo)"
proof (induction url)
  case Nil
  then show ?case by (simp add: bitbucket_url_def)
next
  case (Cons c u)
  have "(\<forall>pre host grp key repo. \<not> bitbucket_url (c # u) pre host grp key repo) \<longleftrightarrow>
      (\<forall>host grp key repo. \<not> bitbucket_url (c # u) [] host grp key repo) \<and>
      (\<forall>pre host grp key repo. \<not> bitbucket_url u pre host grp key repo)"
    by (metis bitbucket_url_Cons neq_Nil_conv)
  moreover have "match_here (c # u) = None \<longleftrightarrow> (\<forall>host grp key repo. \<not> bitbucket_url (c # u) [] host grp key repo)"
  proof (cases "match_here (c # u)")
    case (Some m)
    then show ?thesis by (metis match_here_Some option.distinct(1) prod_cases3)
  qed (use match_here_None in blast)
  moreover have "FindStringSubmatch (c # u) = None \<longleftrightarrow> match_here (c # u) = None \<and> FindStringSubmatch u = None"
    by (simp split: option.split)
  ultimately show ?case using Cons.IH by simp
qed

lemma FindStringSubmatch_Some:
  "FindStringSubmatch url = Some (host, key, repo) \<Longrightarrow> \<exists>pre grp. preferred url pre host grp key repo"
proof (induction url)
  case (Cons c u)
  show ?case
  proof (cases "match_here (c # u)")
    case None
    with Cons obtain pre grp where p: "preferred u pre host grp key repo" by auto
    note none = match_here_None [OF None]
    have "preferred (c # u) (c # pre) host grp key repo"
      unfolding preferred_def
    proof (intro conjI allI impI, goal_cases)
      case 1
      then show ?case using p by (simp add: preferred_def bitbucket_url_Cons)
    next
      case (2 pre' h g k r)
      then show ?case using p none by (cases pre') (auto simp: preferred_def bitbucket_url_Cons)
    next
      case (3 pre' h g k r)
      then show ?case using p by (auto simp: preferred_def bitbucket_url_Cons)
    next
      case (4 pre' h g k r)
      then show ?case using p by (auto simp: preferred_def bitbucket_url_Cons)
    next
      case (5 pre' h g k r)
      then show ?case using p by (auto simp: preferred_def bitbucket_url_Cons)
    next
      case (6 pre' h g k r)
      then show ?case using p by (auto simp: preferred_def bitbucket_url_Cons)
    qed
    then show ?thesis by blast
  next
    case (Some m)
    with Cons.prems have "match_here (c # u) = Some (host, key, repo)" by simp
    then obtain grp where "bitbucket_url (c # u) [] host grp key repo"
      and "\<And>host' grp' key' repo'. bitbucket_url (c # u) [] host' grp' key' repo' \<Longrightarrow>
        host' = host \<and> length grp' \<le> length grp \<and> (grp' = grp \<longrightarrow> key' = key \<and> length repo' \<le> length repo)"
      by (rule match_here_Some) blast
    then have "preferred (c # u) [] host grp key repo" by (rule preferred_here)
    then show ?thesis by blast
  qed
qed simp


section \<open>Properties\<close>

text \<open>C31. \<open>ParseBitbucketServerURL\<close> and its pattern: it returns a reference exactly when the
  URL has a part of the form \<open>://host/(prefix/)?key/repo.git\<close>; the reference is then that of
  the leftmost such part, with the longest possible prefix before the project key and, after that,
  the longest repository name, the host completed with a scheme. It never returns an error: on
  every other URL it panics.\<close>

theorem ParseBitbucketServerURL_exact:
  "case ParseBitbucketServerURL url of
     Returned (Inr ref) \<Rightarrow> \<exists>pre host grp. preferred url pre host grp (orr_key ref) (orr_RepositoryName ref) \<and>
       orr_Domain ref = AddSchemeToDomain host \<and> orr_Organization ref = orr_key ref \<and>
       orr_SubOrganizations ref = []
   | Returned (Inl err) \<Rightarrow> False
   | Panicked msg \<Rightarrow> msg = index_out_of_range \<and>
       (\<nexists>pre host grp key repo. bitbucket_url url pre host grp key repo)"
proof (cases "FindStringSubmatch url")
  case None
  then have "\<nexists>pre host grp key repo. bitbucket_url url pre host grp key repo"
    unfolding FindStringSubmatch_None by blast
  with None show ?thesis by (simp add: ParseBitbucketServerURL_def)
next
  case (Some m)
  obtain host key repo where m: "m = (host, key, repo)" by (rule prod_cases3)
  with Some obtain pre grp where "preferred url pre host grp key repo" using FindStringSubmatch_Some by blast
  with Some m show ?thesis by (auto simp: ParseBitbucketServerURL_def)
qed

text \<open>Clone URLs.\<close>

definition bitbucket_clone_url :: "string \<Rightarrow> string \<Rightarrow> string list \<Rightarrow> string \<Rightarrow> string \<Rightarrow> string" where
  "bitbucket_clone_url scheme host prefix key repo =
     scheme @ ''://'' @ host @ ''/'' @ slashed prefix @ key @ ''/'' @ repo @ ''.git''"

lemma match_here_no_colon: "c \<noteq> CHR '':'' \<Longrightarrow> match_here (c # s) = None"
  by (simp add: match_here_def StripPrefix_def HasPrefix_def)

lemma FindStringSubmatch_skip:
  "CHR '':'' \<notin> set scheme \<Longrightarrow> FindStringSubmatch (scheme @ u) = FindStringSubmatch u"
  by (induction scheme) (auto simp: match_here_no_colon)

lemma longest_repo_suffix:
  assumes "repo \<noteq> []"
  shows "longest_repo (length repo + k) (repo @ ''.git'') = Some repo"
proof (induction k)
  case 0
  from assms show ?case by (cases repo) (simp_all add: HasPrefix_def)
next
  case (Suc k)
  have "\<not> HasPrefix (drop (Suc k) ''.git'') ''.git''"
    by (auto simp: HasPrefix_iff dest!: arg_cong [of _ _ length])
  with Suc show ?case by simp
qed

lemma latest_key_repo_end:
  assumes "key \<noteq> []" and "repo \<noteq> []" and "prefix_group prefix"
  shows "latest_key_repo (prefix @ [key, repo @ ''.git'']) (length prefix + k) = Some (key, repo)"
proof (induction k)
  case 0
  have "key_repo (prefix @ [key, repo @ ''.git'']) (length prefix) = Some (key, repo)"
    using assms longest_repo_suffix [OF assms(2), of 0]
    by (simp add: key_repo_def nth_append HasPrefix_def)
  then show ?case by (cases "length prefix") auto
next
  case (Suc k)
  then show ?case by (simp add: key_repo_def)
qed

text \<open>C32. Clone URLs of Bitbucket Server survive the parser: from a scheme, a host, any number of
  non-empty path segments, a project key and a repository name, none with a slash in it (and no
  colon in the scheme, no line break in the segments), the URL
  \<open>scheme://host/prefix/key/repo.git\<close> gives exactly these back.\<close>

theorem bitbucket_clone_url_roundtrip:
  assumes "CHR '':'' \<notin> set scheme" and "host \<noteq> []" "CHR ''/'' \<notin> set host"
    and "\<forall>w \<in> set prefix. w \<noteq> [] \<and> CHR ''/'' \<notin> set w \<and> CHR 0x0A \<notin> set w"
    and "key \<noteq> []" "CHR ''/'' \<notin> set key" "repo \<noteq> []" "CHR ''/'' \<notin> set repo"
  shows "ParseBitbucketServerURL (bitbucket_clone_url scheme host prefix key repo) =
    Returned (Inr \<lparr>orr_Domain = AddSchemeToDomain host, orr_Organization = key, orr_SubOrganizations = [],
                   orr_RepositoryName = repo, orr_key = key\<rparr>)"
proof -
  let ?segs = "prefix @ [key, repo @ ''.git'']"
  let ?tail = "slashed prefix @ key @ ''/'' @ repo @ ''.git''"
  have "SplitOn (CHR ''/'') (host @ ''/'' @ ?tail) = host # ?segs"
    using assms SplitOn_append SplitOn_slashed [of prefix] SplitOn_no_sep by simp
  moreover obtain w ws where "?segs = w # ws" by (cases prefix) auto
  ultimately have "match_here (''://'' @ host @ ''/'' @ ?tail) =
      map_option (Pair host) (latest_key_repo ?segs (length ?segs))"
    using assms(2) by (simp add: match_here_def StripPrefix_def HasPrefix_def)
  moreover have "JoinWith (CHR ''/'') ws \<noteq> [] \<and> CHR 0x0A \<notin> set (JoinWith (CHR ''/'') ws)"
    if "ws \<noteq> []" "\<forall>w \<in> set ws. w \<noteq> [] \<and> CHR ''/'' \<notin> set w \<and> CHR 0x0A \<notin> set w" for ws
    using that by (induction "CHR ''/''" ws rule: JoinWith.induct) auto
  then have "prefix_group prefix" using assms(4) by (auto simp: prefix_group_def)
  ultimately show ?thesis
    using assms latest_key_repo_end [of key repo prefix 2]
    by (simp add: ParseBitbucketServerURL_def bitbucket_clone_url_def FindStringSubmatch_skip)
qed

theorem bitbucket_clone_url_roundtrip_witness:
  "ParseBitbucketServerURL ''https://bitbucket.weave.works/scm/wks/config.git'' =
     Returned (Inr \<lparr>orr_Domain = ''https://bitbucket.weave.works'', orr_Organization = ''wks'',
                    orr_SubOrganizations = [], orr_RepositoryName = ''config'', orr_key = ''wks''\<rparr>)"
  using bitbucket_clone_url_roundtrip [of "''https''" "''bitbucket.weave.works''" "[''scm'']" "''wks''" "''config''"]
  by (simp add: bitbucket_clone_url_def AddSchemeToDomain_def HasPrefix_def)

end
