(* ===== verification/Git_Platform.thy ===== *)
theory Git_Platform
  imports Complex_Main Platform Git_Utils
begin

text \<open>
  The git client, the clients of the hosting services and the retry helper of client-go as
  parameters: the record \<open>GitPlatform\<close>. Fallible Go code is written with \<open>attempt\<close>, the
  \<open>if err != nil\<close> of the source. \<open>retry.OnError\<close> runs a closure that assigns captured
  variables; what it is documented to do is the relation \<open>retry_run\<close>, and the locale
  \<open>git_retry\<close> assumes just that.
\<close>

section \<open>Fallible code that may panic\<close>

type_synonym ('w, 'a) go = "('w sys, (go_error + 'a) outcome) state"

definition attempt :: "('w, 'a) go \<Rightarrow> (go_error \<Rightarrow> go_error) \<Rightarrow> ('a \<Rightarrow> ('w, 'b) go) \<Rightarrow> ('w, 'b) go" where
  "attempt m wrap k =
     do { x \<leftarrow> m;
          case x of
            Panicked msg \<Rightarrow> result (Panicked msg)
          | Returned (Inl err) \<Rightarrow> result (Returned (Inl (wrap err)))
          | Returned (Inr a) \<Rightarrow> k a }"

text \<open>Programs and values that do not panic.\<close>

definition returning :: "('w sys, go_error + 'a) state \<Rightarrow> ('w, 'a) go" where
  "returning m = do { x \<leftarrow> m; result (Returned x) }"

abbreviation ok :: "'a \<Rightarrow> ('w, 'a) go" where
  "ok a \<equiv> result (Returned (Inr a))"

abbreviation fail :: "go_error \<Rightarrow> ('w, 'a) go" where
  "fail err \<equiv> result (Returned (Inl err))"

section \<open>Values of the libraries\<close>

record ggp_Repository =
  gr_Handle :: nat
  gr_Identity :: string
  gr_Repository :: string

record ggp_PullRequestInfo =
  pi_Title :: string
  pi_Description :: string
  pi_WebURL :: string
  pi_Merged :: bool
  pi_SourceBranch :: string
  pi_Number :: int

record ggp_TreeEntry =
  gte_Path :: string
  gte_Type :: string
  gte_Size :: int
  gte_SHA :: string
  gte_URL :: string

record scm_Repository =
  sr_FullName :: string
  sr_Namespace :: string
  sr_Name :: string

record scm_PullRequest =
  spr_Title :: string
  spr_Body :: string
  spr_Link :: string
  spr_Merged :: bool
  spr_Source :: string
  spr_Number :: int

record scm_FileEntry =
  sfe_Name :: string
  sfe_Path :: string
  sfe_Type :: string
  sfe_Size :: int
  sfe_Sha :: string
  sfe_Link :: string

text \<open>A response: its status and the \<open>azure.Error\<close> that its body decodes to.\<close>

record scm_Response =
  rsp_Status :: int
  rsp_Error :: go_error

text \<open>The pipeline that \<open>patchManifests\<close> builds: where it reads, the token it screens files
  for, the filter, where it writes.\<close>

record kio_Pipeline =
  kp_InputPath :: string
  kp_Token :: string
  kp_Filter :: "string list \<Rightarrow> go_error + string list"
  kp_OutputPath :: string

section \<open>Retrying\<close>

record wait_Backoff =
  bo_Steps :: nat
  bo_Duration :: int
  bo_Factor :: rat
  bo_Jitter :: rat

text \<open>Lines 14--19 of \<open>utils.go\<close>; durations are in nanoseconds.\<close>

definition DefaultBackoff :: wait_Backoff where
  "DefaultBackoff = \<lparr>bo_Steps = 4, bo_Duration = 20 * 10 ^ 6, bo_Factor = 5, bo_Jitter = 1 / 10\<rparr>"

text \<open>The variables that the retried closures assign.\<close>

record captured =
  cv_commits :: "string list"
  cv_repo :: "ggp_Repository option"
  cv_scmRepo :: "scm_Repository option"

abbreviation zero_captured :: captured where
  "zero_captured \<equiv> \<lparr>cv_commits = [], cv_repo = None, cv_scmRepo = None\<rparr>"

type_synonym 'w retry_state = "'w sys \<times> captured"

text \<open>While \<open>OnError\<close> waits, the outside goes on; the process does nothing.\<close>

definition idles :: "'w retry_state \<Rightarrow> 'w retry_state \<Rightarrow> bool" where
  "idles \<sigma> \<tau> \<longleftrightarrow> snd \<tau> = snd \<sigma> \<and> trace (fst \<tau>) = trace (fst \<sigma>) \<and> cachesMap (fst \<tau>) = cachesMap (fst \<sigma>)"

text \<open>At most \<open>n\<close> runs of the closure, with a wait between two of them: it ends with the first success, with the first error
  that is not retriable, or with the error of the last run.\<close>

inductive retry_run ::
  "('w retry_state \<Rightarrow> 'w retry_state \<Rightarrow> bool) \<Rightarrow> (go_error \<Rightarrow> bool) \<Rightarrow> ('w retry_state, go_error option) state \<Rightarrow> nat \<Rightarrow> 'w retry_state \<Rightarrow>
     go_error option \<Rightarrow> 'w retry_state \<Rightarrow> bool"
  for wait retriable fn
where
  success: "run_state fn \<sigma> = (None, \<tau>) \<Longrightarrow> retry_run wait retriable fn (Suc n) \<sigma> None \<tau>"
| fatal: "run_state fn \<sigma> = (Some e, \<tau>) \<Longrightarrow> \<not> retriable e \<Longrightarrow> retry_run wait retriable fn (Suc n) \<sigma> (Some e) \<tau>"
| exhausted: "run_state fn \<sigma> = (Some e, \<tau>) \<Longrightarrow> retriable e \<Longrightarrow> retry_run wait retriable fn 1 \<sigma> (Some e) \<tau>"
| again: "run_state fn \<sigma> = (Some e, \<sigma>1) \<Longrightarrow> retriable e \<Longrightarrow> wait \<sigma>1 \<sigma>2 \<Longrightarrow>
    retry_run wait retriable fn (Suc n) \<sigma>2 r \<tau> \<Longrightarrow> retry_run wait retriable fn (Suc (Suc n)) \<sigma> r \<tau>"

section \<open>The outside as parameters\<close>

record 'w GitPlatform =
  gp_OnError :: "wait_Backoff \<Rightarrow> (go_error \<Rightarrow> bool) \<Rightarrow> ('w retry_state, go_error option) state \<Rightarrow>
    ('w retry_state, go_error option) state"
  gp_MkdirTemp :: "string \<Rightarrow> ('w, string) io"
  gp_RemoveAll :: "string \<Rightarrow> ('w, unit) io"
  gp_NewGitClient :: "string \<Rightarrow> string \<Rightarrow> ('w, nat) io"
  gp_Clone :: "nat \<Rightarrow> string \<Rightarrow> string \<Rightarrow> ('w, string) io"
  gp_Close :: "nat \<Rightarrow> 'w \<Rightarrow> unit \<times> 'w"
  gp_SwitchBranch :: "nat \<Rightarrow> string \<Rightarrow> ('w, unit) io"
  gp_SetShortHandRef :: "string \<Rightarrow> 'w \<Rightarrow> unit \<times> 'w"
  gp_ExecutePipeline :: "kio_Pipeline \<Rightarrow> ('w, unit) io"
  gp_IsClean :: "nat \<Rightarrow> ('w, bool) io"
  gp_Commit :: "nat \<Rightarrow> string \<Rightarrow> string \<Rightarrow> ('w, string) io"
  gp_Push :: "nat \<Rightarrow> ('w, unit) io"
  gp_GithubNewClient :: "ClientOption list \<Rightarrow> ('w, nat) io"
  gp_GitlabNewClient :: "string \<Rightarrow> string \<Rightarrow> ClientOption list \<Rightarrow> ('w, nat) io"
  gp_StashNewClient :: "string \<Rightarrow> string \<Rightarrow> ClientOption list \<Rightarrow> ('w, nat) io"
  gp_GetRepository :: "nat \<Rightarrow> OrgRepositoryRef \<Rightarrow> ('w, ggp_Repository) io"
  gp_ListCommits :: "nat \<Rightarrow> string \<Rightarrow> ('w, string list) io"
  gp_CreateBranch :: "nat \<Rightarrow> string \<Rightarrow> string \<Rightarrow> ('w, unit) io"
  gp_CreateCommit :: "nat \<Rightarrow> string \<Rightarrow> string \<Rightarrow> CommitFile list \<Rightarrow> ('w, string) io"
  gp_CreatePullRequest :: "nat \<Rightarrow> string \<Rightarrow> string \<Rightarrow> string \<Rightarrow> string \<Rightarrow> ('w, ggp_PullRequestInfo) io"
  gp_ListTree :: "nat \<Rightarrow> string \<Rightarrow> string \<Rightarrow> bool \<Rightarrow> ('w, ggp_TreeEntry list) io"
  gp_ListPullRequests :: "nat \<Rightarrow> ('w, ggp_PullRequestInfo list) io"
  gp_EditPullRequest :: "nat \<Rightarrow> int \<Rightarrow> string \<Rightarrow> ('w, ggp_PullRequestInfo) io"
  gp_ScmNewClient :: "string \<Rightarrow> string \<Rightarrow> string \<Rightarrow> ('w, nat) io"
  gp_ScmFindRepository :: "nat \<Rightarrow> string \<Rightarrow> ('w, scm_Repository) io"
  gp_ScmListCommits :: "nat \<Rightarrow> string \<Rightarrow> string \<Rightarrow> string \<Rightarrow> ('w, string list) io"
  gp_ScmCreateContent :: "nat \<Rightarrow> string \<Rightarrow> string \<Rightarrow> ContentParams \<Rightarrow> ('w, unit) io"
  gp_ScmUpdateContent :: "nat \<Rightarrow> string \<Rightarrow> string \<Rightarrow> ContentParams \<Rightarrow> ('w, unit) io"
  gp_ScmCreateRef :: "nat \<Rightarrow> string \<Rightarrow> string \<Rightarrow> string \<Rightarrow> ('w, unit) io"
  gp_ScmDo :: "nat \<Rightarrow> scm_Request \<Rightarrow> ('w, scm_Response) io"
  gp_ScmCreatePullRequest :: "nat \<Rightarrow> string \<Rightarrow> string \<Rightarrow> string \<Rightarrow> string \<Rightarrow> string \<Rightarrow> ('w, scm_PullRequest) io"
  gp_ScmListContents :: "nat \<Rightarrow> string \<Rightarrow> string \<Rightarrow> string \<Rightarrow> ('w, scm_FileEntry list) io"
  gp_ScmListPullRequests :: "nat \<Rightarrow> string \<Rightarrow> ('w, scm_PullRequest list) io"
  gp_ScmUpdatePullRequest :: "nat \<Rightarrow> string \<Rightarrow> int \<Rightarrow> string \<Rightarrow> string \<Rightarrow> ('w, scm_PullRequest) io"

abbreviation git_do :: "git_call \<Rightarrow> ('w \<Rightarrow> (go_error + 'a) \<times> 'w) \<Rightarrow> ('w, 'a) go" where
  "git_do c f \<equiv> returning (perform (CallGit c) f)"

definition assign_var :: "('r \<Rightarrow> 'r) \<Rightarrow> ('w sys \<times> 'r, unit) state" where
  "assign_var f = State (\<lambda>(s, v). ((), (s, f v)))"

text \<open>A closure of the form \<open>x, err = call; if err != nil ... return err; return nil\<close>: on an
  error the variable gets the zero value the call returns with it.\<close>

definition assigning ::
  "('w sys, go_error + 'a) state \<Rightarrow> ('a option \<Rightarrow> captured \<Rightarrow> captured) \<Rightarrow> ('w retry_state, go_error option) state"
where
  "assigning m assign =
     do { x \<leftarrow> lift_sys m;
          case x of
            Inl err \<Rightarrow> do { _ \<leftarrow> assign_var (assign None); result (Some err) }
          | Inr a \<Rightarrow> do { _ \<leftarrow> assign_var (assign (Some a)); result None } }"

text \<open>\<open>retry.OnError(DefaultBackoff, retriable, fn)\<close>, with the captured variables afterwards.\<close>

definition OnError ::
  "'w GitPlatform \<Rightarrow> (go_error \<Rightarrow> bool) \<Rightarrow> ('w retry_state, go_error option) state \<Rightarrow> ('w, captured) go"
where
  "OnError P retriable fn =
     State (\<lambda>s. case run_state (gp_OnError P DefaultBackoff retriable fn) (s, zero_captured) of
        (Some err, (s', v)) \<Rightarrow> (Returned (Inl err), s')
      | (None, (s', v)) \<Rightarrow> (Returned (Inr v), s'))"

text \<open>The contract of \<open>retry.OnError\<close>, with what is known about its waits.\<close>

locale git_retry =
  fixes P :: "'w GitPlatform" and wait :: "'w retry_state \<Rightarrow> 'w retry_state \<Rightarrow> bool"
  assumes OnError_retries:
    "0 < bo_Steps b \<Longrightarrow> run_state (gp_OnError P b retriable fn) \<sigma> = (r, \<tau>) \<Longrightarrow>
       retry_run wait retriable fn (bo_Steps b) \<sigma> r \<tau>"

locale git_platform = git_retry P idles for P :: "'w GitPlatform"

section \<open>Rules\<close>

lemma wp_attempt [wp_rules]:
  "wp (attempt m wrap k) Q s \<longleftrightarrow>
     wp m (\<lambda>x t. case x of
              Panicked msg \<Rightarrow> Q (Panicked msg) t
            | Returned (Inl err) \<Rightarrow> Q (Returned (Inl (wrap err))) t
            | Returned (Inr a) \<Rightarrow> wp (k a) Q t) s"
  by (auto simp: attempt_def wp_rules intro!: arg_cong [where f = "\<lambda>Q. wp m Q s"] ext
      split: outcome.split sum.split)

lemma wp_returning [wp_rules]: "wp (returning m) Q s \<longleftrightarrow> wp m (\<lambda>x. Q (Returned x)) s"
  by (simp add: returning_def wp_def split: prod.split)

lemma emits_attempt [emits_intros]:
  "emits F m \<Longrightarrow> (\<And>a. emits F (k a)) \<Longrightarrow> emits F (attempt m wrap k)"
  unfolding attempt_def by (intro emits_intros) auto

lemma keeps_attempt [keeps_intros]:
  "keeps f m \<Longrightarrow> (\<And>a. keeps f (k a)) \<Longrightarrow> keeps f (attempt m wrap k)"
  unfolding attempt_def by (intro keeps_intros) auto

lemma emits_returning [emits_intros]: "emits F m \<Longrightarrow> emits F (returning m)"
  unfolding returning_def by (intro emits_intros)

lemma keeps_returning [keeps_intros]: "keeps f m \<Longrightarrow> keeps f (returning m)"
  unfolding returning_def by (intro keeps_intros)

lemma run_assign_var [simp]: "run_state (assign_var f) \<sigma> = ((), (fst \<sigma>, f (snd \<sigma>)))"
  by (cases \<sigma>) (simp add: assign_var_def)

lemma run_assigning:
  "run_state (assigning m assign) \<sigma> =
     (case run_state m (fst \<sigma>) of
        (Inl err, s) \<Rightarrow> (Some err, (s, assign None (snd \<sigma>)))
      | (Inr a, s) \<Rightarrow> (None, (s, assign (Some a) (snd \<sigma>))))"
  by (simp add: assigning_def split: prod.split sum.split)

text \<open>An invariant of the closure and of idling survives the retries, and the outcome is that of
  some run of the closure, the last one.\<close>

lemma retry_run_invariant:
  assumes "retry_run wait retriable fn n \<sigma> r \<tau>" and "I \<sigma>"
    and "preserves I fn" and "\<And>\<sigma> \<tau>. wait \<sigma> \<tau> \<Longrightarrow> I \<sigma> \<Longrightarrow> I \<tau>"
  shows "I \<tau> \<and> (\<exists>\<sigma>'. I \<sigma>' \<and> run_state fn \<sigma>' = (r, \<tau>))"
  using assms(1,2)
proof induction
  case (again \<sigma> e \<sigma>1 \<sigma>2 n r \<tau>)
  have "I \<sigma>1" using preservesD [OF assms(3) \<open>I \<sigma>\<close>] again.hyps(1) by simp
  with again.IH assms(4) again.hyps(3) show ?case by blast
qed (use preservesD [OF assms(3)] in fastforce)+


lemma exec_assigning: "fst (exec (assigning m assign) \<sigma>) = exec m (fst \<sigma>)"
  by (simp add: run_assigning split: prod.split sum.split)

lemma preserves_assigning:
  "preserves J m \<Longrightarrow> preserves (\<lambda>\<sigma>. J (fst \<sigma>)) (assigning m assign)"
  by (simp add: preserves_def exec_assigning)

context git_retry
begin

lemma OnError_run:
  assumes "run_state (OnError P retriable fn) s = (x, t)"
  obtains r v where "retry_run wait retriable fn 4 (s, zero_captured) r (t, v)"
    and "x = (case r of Some err \<Rightarrow> Returned (Inl err) | None \<Rightarrow> Returned (Inr v))"
proof -
  obtain r t' v where run: "run_state (gp_OnError P DefaultBackoff retriable fn) (s, zero_captured) = (r, (t', v))"
    by (metis prod_cases3)
  have "retry_run wait retriable fn (bo_Steps DefaultBackoff) (s, zero_captured) r (t', v)"
    by (rule OnError_retries [OF _ run]) (simp add: DefaultBackoff_def)
  with assms run show thesis
    by (intro that [of r v]) (auto simp: OnError_def DefaultBackoff_def split: option.splits)
qed

text \<open>What a retried call keeps of the state is what each attempt keeps.\<close>

lemma OnError_preserves:
  assumes "run_state (OnError P retriable (assigning m assign)) s = (x, t)" and "J s"
    and "preserves J m"
    and "\<And>\<sigma> \<tau>. wait \<sigma> \<tau> \<Longrightarrow> J (fst \<sigma>) \<Longrightarrow> J (fst \<tau>)"
  shows "J t \<and> (case x of
      Panicked msg \<Rightarrow> False
    | Returned (Inl err) \<Rightarrow> \<exists>s'. J s' \<and> run_state m s' = (Inl err, t)
    | Returned (Inr v) \<Rightarrow> \<exists>s' a v'. J s' \<and> run_state m s' = (Inr a, t) \<and> v = assign (Some a) v')"
proof -
  obtain r v where run: "retry_run wait retriable (assigning m assign) 4 (s, zero_captured) r (t, v)"
    and x: "x = (case r of Some err \<Rightarrow> Returned (Inl err) | None \<Rightarrow> Returned (Inr v))"
    using assms(1) by (rule OnError_run)
  have "J (fst (t, v)) \<and> (\<exists>\<sigma>'. J (fst \<sigma>') \<and> run_state (assigning m assign) \<sigma>' = (r, (t, v)))"
    by (rule retry_run_invariant [OF run _ preserves_assigning [OF assms(3)]]) (use assms(2,4) in simp_all)
  then obtain s' v' where "J t" "J s'" "run_state (assigning m assign) (s', v') = (r, (t, v))" by auto
  then show ?thesis
    by (cases "run_state m s'") (auto simp: x run_assigning split: sum.splits option.splits)
qed

end

context git_platform
begin

lemma emits_OnError [emits_intros]:
  assumes "emits F m"
  shows "emits F (OnError P retriable (assigning m assign))"
proof -
  have "grew F s (exec (OnError P retriable (assigning m assign)) s)" for s
  proof -
    obtain x t where run: "run_state (OnError P retriable (assigning m assign)) s = (x, t)" by fastforce
    have "preserves (grew F s) m"
      unfolding preserves_def by (metis assms emits_grew grew_trans prod.collapse)
    from OnError_preserves [OF run _ this] run show ?thesis by (simp add: idles_def grew_def)
  qed
  then show ?thesis by (simp add: emits_def grew_def)
qed

lemma keeps_OnError [keeps_intros]:
  assumes "keeps cachesMap m"
  shows "keeps cachesMap (OnError P retriable (assigning m assign))"
  unfolding keeps_def
proof
  fix s
  obtain x t where run: "run_state (OnError P retriable (assigning m assign)) s = (x, t)" by fastforce
  have "preserves (\<lambda>u. cachesMap u = cachesMap s) m" using assms by (simp add: preserves_def keeps_def)
  from OnError_preserves [OF run _ this] run
  show "cachesMap (exec (OnError P retriable (assigning m assign)) s) = cachesMap s" by (simp add: idles_def)
qed

end


lemma retry_run_mono:
  assumes "retry_run wait retriable fn n \<sigma> r \<tau>" and "\<And>\<sigma> \<tau>. wait \<sigma> \<tau> \<Longrightarrow> wait' \<sigma> \<tau>"
  shows "retry_run wait' retriable fn n \<sigma> r \<tau>"
  using assms(1) by induction (auto intro: retry_run.intros assms(2) retry_run.exhausted [unfolded One_nat_def])


text \<open>The calls of a retried single call: one per attempt, all of them if even the last was
  retriable.\<close>

lemma retry_run_calls:
  assumes "retry_run wait retriable (assigning (perform c f) assign) n \<sigma> r \<tau>"
    and "\<And>\<sigma> \<tau>. wait \<sigma> \<tau> \<Longrightarrow> trace (fst \<tau>) = trace (fst \<sigma>)"
  shows "\<exists>k. 1 \<le> k \<and> k \<le> n \<and> trace (fst \<tau>) = trace (fst \<sigma>) @ replicate k c \<and>
    (\<forall>e. r = Some e \<longrightarrow> retriable e \<longrightarrow> k = n)"
  using assms(1)
proof induction
  case (success \<sigma> \<tau> n)
  then have "trace (fst \<tau>) = trace (fst \<sigma>) @ replicate 1 c"
    by (auto simp: run_assigning run_perform split: sum.splits)
  then show ?case by (intro exI [of _ 1]) simp
next
  case (fatal \<sigma> e \<tau> n)
  then have "trace (fst \<tau>) = trace (fst \<sigma>) @ replicate 1 c"
    by (auto simp: run_assigning run_perform split: sum.splits)
  with fatal.hyps show ?case by (intro exI [of _ 1]) simp
next
  case (exhausted \<sigma> e \<tau>)
  then have "trace (fst \<tau>) = trace (fst \<sigma>) @ replicate 1 c"
    by (auto simp: run_assigning run_perform split: sum.splits)
  then show ?case by (intro exI [of _ 1]) simp
next
  case (again \<sigma> e \<sigma>1 \<sigma>2 n r \<tau>)
  then obtain k where k: "1 \<le> k" "k \<le> Suc n" "trace (fst \<tau>) = trace (fst \<sigma>2) @ replicate k c"
    "\<forall>e. r = Some e \<longrightarrow> retriable e \<longrightarrow> k = Suc n" by blast
  have "trace (fst \<sigma>1) = trace (fst \<sigma>) @ [c]"
    using again.hyps(1) by (auto simp: run_assigning run_perform split: sum.splits)
  with k assms(2) [OF again.hyps(3)] show ?case by (intro exI [of _ "Suc k"]) auto
qed

end
