(* ===== verification/Go_Git_Provider.thy ===== *)
theory Go_Git_Provider
  imports Git_Platform
begin

text \<open>
  \<open>internal/git\<close>: the \<open>Provider\<close> interface as a record of methods, the operations of
  \<open>gitprovider.go\<close> on a repository, and the GitHub, GitLab and Bitbucket Server providers
  built from them. What the pull request strategy relies on when it calls a provider is the
  locale \<open>git_provider\<close>: a provider touches neither the API server nor the caches, and
  starts no promotion. It is interpreted on the three providers here and on Azure DevOps in
  its own theory, for every platform whose retry helper keeps its contract.
\<close>

section \<open>The interface\<close>

datatype AnyClient = GgpClient nat | ScmClient nat | OtherClient

record ProviderOption =
  po_Hostname :: string
  po_OAuth2Token :: string
  po_TokenType :: string
  po_Token :: string
  po_Username :: string
  po_ConditionalRequests :: bool
  po_DestructiveCalls :: bool
  po_Client :: "AnyClient option"

record 'w Provider =
  pv_Name :: string
  pv_SupportedDomain :: string
  pv_RawClient :: AnyClient
  pv_CreatePullRequest :: "PullRequestInput \<Rightarrow> ('w, GitPullRequest) go"
  pv_GetRepository :: "string \<Rightarrow> ('w, Repository) go"
  pv_GetTreeList :: "string \<Rightarrow> string \<Rightarrow> string \<Rightarrow> ('w, TreeEntry list) go"
  pv_ListPullRequests :: "string \<Rightarrow> ('w, GitPullRequest list) go"
  pv_UpdatePullRequest :: "string \<Rightarrow> int \<Rightarrow> UpdatePullRequestOptions \<Rightarrow> ('w, GitPullRequest) go"

text \<open>\<open>opts.Client.(gitprovider.Client)\<close>: a type assertion that panics on another client.\<close>

abbreviation wrong_client :: string where
  "wrong_client \<equiv> ''interface conversion: interface is not gitprovider.Client''"

section \<open>Operations on a repository\<close>

definition CreateBranch ::
  "'w GitPlatform \<Rightarrow> GitLib \<Rightarrow> ggp_Repository \<Rightarrow> string \<Rightarrow> string \<Rightarrow> ('w, unit) go"
where
  "CreateBranch P G repo base head =
     attempt (OnError P (\<lambda>err. True)
                (assigning (perform (CallGit (GgpListCommits (gr_Handle repo) base)) (gp_ListCommits P (gr_Handle repo) base))
                   (\<lambda>x v. v\<lparr>cv_commits := (case x of None \<Rightarrow> [] | Some commits \<Rightarrow> commits)\<rparr>)))
       (Wrapped (''unable to get most recent commit for branch '' @ gl_Quote G base))
       (\<lambda>v. case cv_commits v of
          [] \<Rightarrow> fail (PlainError (''no commits were found for branch '' @ gl_Quote G base @ '', is the repository empty?''))
        | sha # _ \<Rightarrow>
            attempt (git_do (GgpCreateBranch (gr_Handle repo) head sha) (gp_CreateBranch P (gr_Handle repo) head sha))
              (Wrapped (''unable to create new branch '' @ gl_Quote G head @ '' from commit '' @ gl_Quote G sha
                 @ '' in branch '' @ gl_Quote G base))
              ok)"

text \<open>The loop over the commits of \<open>WriteFilesToBranch\<close>.\<close>

fun write_commits ::
  "'w GitPlatform \<Rightarrow> GitLib \<Rightarrow> ggp_Repository \<Rightarrow> string \<Rightarrow> Commit list \<Rightarrow> ('w, unit) go"
where
  "write_commits P G repo head [] = ok ()"
| "write_commits P G repo head (c # cs) =
     attempt (git_do (GgpCreateCommit (gr_Handle repo) head (cmt_CommitMessage c) (cmt_Files c))
                (gp_CreateCommit P (gr_Handle repo) head (cmt_CommitMessage c) (cmt_Files c)))
       (Wrapped (''unable to commit changes to '' @ gl_Quote G head))
       (\<lambda>_. write_commits P G repo head cs)"

definition WriteFilesToBranch ::
  "'w GitPlatform \<Rightarrow> GitLib \<Rightarrow> writeFilesToBranchRequest \<Rightarrow> ggp_Repository \<Rightarrow> ('w, unit) go"
where
  "WriteFilesToBranch P G req repo =
     (if wf_CreateBranch req then
        attempt (CreateBranch P G repo (wf_BaseBranch req) (wf_HeadBranch req)) id
          (\<lambda>_. write_commits P G repo (wf_HeadBranch req) (wf_Commits req))
      else write_commits P G repo (wf_HeadBranch req) (wf_Commits req))"

definition ggp_CreatePullRequest ::
  "'w GitPlatform \<Rightarrow> GitLib \<Rightarrow> createPullRequestRequest \<Rightarrow> ggp_Repository \<Rightarrow> ('w, ggp_PullRequestInfo) go"
where
  "ggp_CreatePullRequest P G req repo =
     attempt (git_do (GgpCreatePullRequest (gr_Handle repo) (cpr_Title req) (cpr_HeadBranch req) (cpr_BaseBranch req)
                        (cpr_Description req))
                (gp_CreatePullRequest P (gr_Handle repo) (cpr_Title req) (cpr_HeadBranch req) (cpr_BaseBranch req)
                   (cpr_Description req)))
       (Wrapped (''unable to create new pull request for branch '' @ gl_Quote G (cpr_HeadBranch req)))
       ok"

text \<open>A repository that stayed nil would be dereferenced.\<close>

definition retried_repository ::
  "'w GitPlatform \<Rightarrow> GitLib \<Rightarrow> nat \<Rightarrow> string \<Rightarrow> OrgRepositoryRef \<Rightarrow> ('w, ggp_Repository) go"
where
  "retried_repository P G client url ref =
     attempt (OnError P IsGitNotFound
                (assigning (perform (CallGit (GgpGetRepository client ref)) (gp_GetRepository P client ref))
                   (\<lambda>x v. v\<lparr>cv_repo := x\<rparr>)))
       (\<lambda>err. WrappedIn (''unable to get repository '' @ gl_Quote G url) err
          (''(client domain: '' @ gl_SupportedDomain G client @ '')''))
       (\<lambda>v. case cv_repo v of None \<Rightarrow> result (Panicked nil_dereference) | Some repo \<Rightarrow> ok repo)"

definition ggp_GetRepository ::
  "'w GitPlatform \<Rightarrow> GitLib \<Rightarrow> nat \<Rightarrow> string \<Rightarrow> ('w, ggp_Repository) go"
where
  "ggp_GetRepository P G client url =
     (case gl_ParseOrgRepositoryURL G url of
        Inl err \<Rightarrow> fail (Wrapped (''unable to parse url '' @ gl_Quote G url) err)
      | Inr ref \<Rightarrow>
          retried_repository P G client url
            (WithCombinedSubOrgs (ref\<lparr>orr_Domain := AddSchemeToDomain (orr_Domain ref)\<rparr>)))"

definition GetBitbucketRepository ::
  "'w GitPlatform \<Rightarrow> GitLib \<Rightarrow> nat \<Rightarrow> string \<Rightarrow> ('w, ggp_Repository) go"
where
  "GetBitbucketRepository P G client url =
     (case ParseBitbucketServerURL url of
        Panicked msg \<Rightarrow> result (Panicked msg)
      | Returned (Inl err) \<Rightarrow> fail err
      | Returned (Inr ref) \<Rightarrow> retried_repository P G client url ref)"

definition ggp_GetTreeList ::
  "'w GitPlatform \<Rightarrow> GitLib \<Rightarrow> nat \<Rightarrow> string \<Rightarrow> string \<Rightarrow> string \<Rightarrow> bool \<Rightarrow> ('w, ggp_TreeEntry list) go"
where
  "ggp_GetTreeList P G client repoUrl sha path recursive =
     attempt (ggp_GetRepository P G client repoUrl) id
       (\<lambda>repo. git_do (GgpListTree (gr_Handle repo) sha path recursive)
                  (gp_ListTree P (gr_Handle repo) sha path recursive))"

text \<open>The inner loop: a file that the tree already has, once for each entry with its path.\<close>

definition updated_entries :: "CommitFile \<Rightarrow> ggp_TreeEntry list \<Rightarrow> CommitFile list" where
  "updated_entries file treeEntries =
     map (\<lambda>e. \<lparr>cf_Path = gte_Path e, cf_Content = None\<rparr>) (filter (\<lambda>e. gte_Path e = cf_Path file) treeEntries)"

fun updated_loop ::
  "'w GitPlatform \<Rightarrow> GitLib \<Rightarrow> CommitFile list \<Rightarrow> nat \<Rightarrow> string \<Rightarrow> string \<Rightarrow> CommitFile list \<Rightarrow>
     ('w, CommitFile list) go"
where
  "updated_loop P G [] client repoURL branch updatedFiles = ok updatedFiles"
| "updated_loop P G (file # files) client repoURL branch updatedFiles =
     (if cf_Content file = None then updated_loop P G files client repoURL branch updatedFiles
      else
        attempt (ggp_GetTreeList P G client repoURL branch (filepath_Dir (cf_Path file)) True)
          (Wrapped (''error getting list of trees in repo: '' @ repoURL @ ''@'' @ branch))
          (\<lambda>entries. updated_loop P G files client repoURL branch (updatedFiles @ updated_entries file entries)))"

definition GetUpdatedFiles ::
  "'w GitPlatform \<Rightarrow> GitLib \<Rightarrow> CommitFile list \<Rightarrow> nat \<Rightarrow> string \<Rightarrow> string \<Rightarrow> ('w, CommitFile list) go"
where
  "GetUpdatedFiles P G reqFiles client repoURL branch = updated_loop P G reqFiles client repoURL branch []"

text \<open>The fields of a pull request as the providers copy them.\<close>

definition to_PullRequest :: "ggp_PullRequestInfo \<Rightarrow> GitPullRequest" where
  "to_PullRequest i =
     \<lparr>gpr_Title = pi_Title i, gpr_Description = pi_Description i, gpr_Link = pi_WebURL i,
      gpr_Merged = pi_Merged i, gpr_Source = pi_SourceBranch i, gpr_Number = pi_Number i\<rparr>"

definition ggp_ListPullRequests :: "'w GitPlatform \<Rightarrow> ggp_Repository \<Rightarrow> ('w, GitPullRequest list) go" where
  "ggp_ListPullRequests P repo =
     attempt (git_do (GgpListPullRequests (gr_Handle repo)) (gp_ListPullRequests P (gr_Handle repo))) id
       (\<lambda>prList. ok (map to_PullRequest prList))"

definition ggp_UpdatePullRequest ::
  "'w GitPlatform \<Rightarrow> ggp_Repository \<Rightarrow> int \<Rightarrow> string \<Rightarrow> ('w, GitPullRequest) go"
where
  "ggp_UpdatePullRequest P repo number title =
     attempt (git_do (GgpEditPullRequest (gr_Handle repo) number title)
                (gp_EditPullRequest P (gr_Handle repo) number title))
       (Wrapped ''failed to update existing PR'')
       (\<lambda>pr. ok (to_PullRequest pr))"

section \<open>Parts the providers share\<close>

definition ggp_Repository_of :: "ggp_Repository \<Rightarrow> Repository" where
  "ggp_Repository_of repo = \<lparr>repo_Domain = '''', repo_Org = gr_Identity repo, repo_Name = gr_Repository repo\<rparr>"

definition to_TreeEntry :: "ggp_TreeEntry \<Rightarrow> TreeEntry" where
  "to_TreeEntry e =
     \<lparr>te_Name = '''', te_Path = gte_Path e, te_Type = gte_Type e, te_Size = gte_Size e, te_SHA = gte_SHA e,
      te_Link = gte_URL e\<rparr>"

text \<open>The end of \<open>CreatePullRequest\<close> in all three providers: commits, then the pull request.\<close>

definition write_and_open ::
  "'w GitPlatform \<Rightarrow> GitLib \<Rightarrow> PullRequestInput \<Rightarrow> Commit list \<Rightarrow> bool \<Rightarrow> ggp_Repository \<Rightarrow> ('w, GitPullRequest) go"
where
  "write_and_open P G input commits createBranch repo =
     attempt (WriteFilesToBranch P G
                \<lparr>wf_HeadBranch = pri_Head input, wf_BaseBranch = pri_Base input, wf_Commits = commits,
                 wf_CreateBranch = createBranch\<rparr> repo)
       (Wrapped (''unable to write files to branch '' @ gl_Quote G (pri_Head input)))
       (\<lambda>_. attempt (ggp_CreatePullRequest P G
                       \<lparr>cpr_HeadBranch = pri_Head input, cpr_BaseBranch = pri_Base input,
                        cpr_Title = pri_Title input, cpr_Description = pri_Body input\<rparr> repo)
              (Wrapped (''unable to create pull request for branch '' @ gl_Quote G (pri_Head input)))
              (\<lambda>res. ok (to_PullRequest res)))"

text \<open>\<open>GetTreeList\<close> is the same in the three providers, and so are \<open>ListPullRequests\<close> and
  \<open>UpdatePullRequest\<close>.\<close>

definition provider_GetTreeList ::
  "'w GitPlatform \<Rightarrow> GitLib \<Rightarrow> nat \<Rightarrow> string \<Rightarrow> string \<Rightarrow> string \<Rightarrow> ('w, TreeEntry list) go"
where
  "provider_GetTreeList P G client repoUrl sha path =
     attempt (result (Returned (GetGitProviderUrl G repoUrl))) (Wrapped ''unable to get git provider url'')
       (\<lambda>url. attempt (ggp_GetRepository P G client url) id
          (\<lambda>repo. attempt (git_do (GgpListTree (gr_Handle repo) sha path True) (gp_ListTree P (gr_Handle repo) sha path True)) id
             (\<lambda>treePaths. ok (map to_TreeEntry treePaths))))"

definition provider_ListPullRequests ::
  "'w GitPlatform \<Rightarrow> GitLib \<Rightarrow> nat \<Rightarrow> string \<Rightarrow> ('w, GitPullRequest list) go"
where
  "provider_ListPullRequests P G client repoURL =
     attempt (ggp_GetRepository P G client repoURL) id (ggp_ListPullRequests P)"

definition provider_UpdatePullRequest ::
  "'w GitPlatform \<Rightarrow> GitLib \<Rightarrow> nat \<Rightarrow> string \<Rightarrow> int \<Rightarrow> UpdatePullRequestOptions \<Rightarrow> ('w, GitPullRequest) go"
where
  "provider_UpdatePullRequest P G client repoURL number options =
     attempt (ggp_GetRepository P G client repoURL) id
       (\<lambda>repo. ggp_UpdatePullRequest P repo number (upo_Title options))"


section \<open>GitHub\<close>

definition GitHub_Setup :: "'w GitPlatform \<Rightarrow> ProviderOption \<Rightarrow> ('w, nat) go" where
  "GitHub_Setup P opts =
     (case po_Client opts of
        Some (GgpClient client) \<Rightarrow> ok client
      | Some _ \<Rightarrow> result (Panicked wrong_client)
      | None \<Rightarrow>
          if po_OAuth2Token opts = '''' then fail (PlainError ''missing required option: OAuth2Token'')
          else
            (let ggpOpts = [ggp_WithOAuth2Token (po_OAuth2Token opts)] @
                   (if po_Hostname opts \<noteq> '''' then [ggp_WithDomain (po_Hostname opts)] else [])
             in git_do (GgpNewClient ''github'' [] ggpOpts) (gp_GithubNewClient P ggpOpts)))"

definition GitHub_GetRepository :: "'w GitPlatform \<Rightarrow> GitLib \<Rightarrow> nat \<Rightarrow> string \<Rightarrow> ('w, Repository) go" where
  "GitHub_GetRepository P G client url =
     attempt (ggp_GetRepository P G client url) id (\<lambda>repo. ok (ggp_Repository_of repo))"

definition GitHub_CreatePullRequest ::
  "'w GitPlatform \<Rightarrow> GitLib \<Rightarrow> nat \<Rightarrow> PullRequestInput \<Rightarrow> ('w, GitPullRequest) go"
where
  "GitHub_CreatePullRequest P G client input =
     attempt (result (Returned (GetGitProviderUrl G (pri_RepositoryURL input)))) (Wrapped ''unable to get git provider url'')
       (\<lambda>url. attempt (ggp_GetRepository P G client url) id
          (write_and_open P G input (pri_Commits input) (0 < length (pri_Commits input))))"

definition GitHub_GetTreeList ::
  "'w GitPlatform \<Rightarrow> GitLib \<Rightarrow> nat \<Rightarrow> string \<Rightarrow> string \<Rightarrow> string \<Rightarrow> ('w, TreeEntry list) go"
where
  "GitHub_GetTreeList = provider_GetTreeList"

definition GitHub_ListPullRequests ::
  "'w GitPlatform \<Rightarrow> GitLib \<Rightarrow> nat \<Rightarrow> string \<Rightarrow> ('w, GitPullRequest list) go"
where
  "GitHub_ListPullRequests = provider_ListPullRequests"

definition GitHub_UpdatePullRequest ::
  "'w GitPlatform \<Rightarrow> GitLib \<Rightarrow> nat \<Rightarrow> string \<Rightarrow> int \<Rightarrow> UpdatePullRequestOptions \<Rightarrow> ('w, GitPullRequest) go"
where
  "GitHub_UpdatePullRequest = provider_UpdatePullRequest"

text \<open>A method outside the interface that does nothing.\<close>

definition GitHub_DeleteBranch :: "nat \<Rightarrow> string \<Rightarrow> string \<Rightarrow> ('w, unit) go" where
  "GitHub_DeleteBranch client repoURL branchName = ok ()"

definition GitHubProvider :: "'w GitPlatform \<Rightarrow> GitLib \<Rightarrow> nat \<Rightarrow> 'w Provider" where
  "GitHubProvider P G client =
     \<lparr>pv_Name = GitHubProviderName, pv_SupportedDomain = gl_SupportedDomain G client, pv_RawClient = GgpClient client,
      pv_CreatePullRequest = GitHub_CreatePullRequest P G client,
      pv_GetRepository = GitHub_GetRepository P G client,
      pv_GetTreeList = GitHub_GetTreeList P G client,
      pv_ListPullRequests = GitHub_ListPullRequests P G client,
      pv_UpdatePullRequest = GitHub_UpdatePullRequest P G client\<rparr>"

section \<open>GitLab\<close>

definition deleteFilesCommitMessage :: string where
  "deleteFilesCommitMessage = ''Delete old files for resources''"

definition GitLab_Setup :: "'w GitPlatform \<Rightarrow> ProviderOption \<Rightarrow> ('w, nat) go" where
  "GitLab_Setup P opts =
     (case po_Client opts of
        Some (GgpClient client) \<Rightarrow> ok client
      | Some _ \<Rightarrow> result (Panicked wrong_client)
      | None \<Rightarrow>
          if po_Token opts = '''' then fail (PlainError ''missing required option: Token'')
          else
            (let ggpOpts = [ggp_WithConditionalRequests (po_ConditionalRequests opts)] @
                   (if po_Hostname opts \<noteq> '''' then [ggp_WithDomain (po_Hostname opts)] else [])
             in git_do (GgpNewClient ''gitlab'' [po_Token opts, po_TokenType opts] ggpOpts)
                  (gp_GitlabNewClient P (po_Token opts) (po_TokenType opts) ggpOpts)))"

definition GitLab_GetRepository :: "'w GitPlatform \<Rightarrow> GitLib \<Rightarrow> nat \<Rightarrow> string \<Rightarrow> ('w, Repository) go" where
  "GitLab_GetRepository P G client url =
     attempt (ggp_GetRepository P G client url) id (\<lambda>repo. ok (ggp_Repository_of repo))"

text \<open>Files that exist already are deleted in a commit of their own first.\<close>

definition gitlab_commits :: "CommitFile list \<Rightarrow> Commit list \<Rightarrow> Commit list" where
  "gitlab_commits updatedFiles commits =
     (if 0 < length updatedFiles then
        [\<lparr>cmt_CommitMessage = deleteFilesCommitMessage,
          cmt_Files = map (\<lambda>f. f\<lparr>cf_Content := None\<rparr>) updatedFiles\<rparr>]
      else []) @ commits"

definition GitLab_CreatePullRequest ::
  "'w GitPlatform \<Rightarrow> GitLib \<Rightarrow> nat \<Rightarrow> PullRequestInput \<Rightarrow> ('w, GitPullRequest) go"
where
  "GitLab_CreatePullRequest P G client input =
     attempt (result (Returned (GetGitProviderUrl G (pri_RepositoryURL input)))) (Wrapped ''unable to get git provider url'')
       (\<lambda>url. attempt (ggp_GetRepository P G client url) id
          (\<lambda>repo. attempt
             (if 0 < length (pri_Commits input) then CreateBranch P G repo (pri_Base input) (pri_Head input) else ok ()) id
             (\<lambda>_. attempt (GetUpdatedFiles P G (concat (map cmt_Files (pri_Commits input))) client
                              (pri_RepositoryURL input) (pri_Head input)) id
                (\<lambda>updatedFiles.
                   write_and_open P G input (gitlab_commits updatedFiles (pri_Commits input)) False repo))))"

definition GitLab_GetTreeList ::
  "'w GitPlatform \<Rightarrow> GitLib \<Rightarrow> nat \<Rightarrow> string \<Rightarrow> string \<Rightarrow> string \<Rightarrow> ('w, TreeEntry list) go"
where
  "GitLab_GetTreeList = provider_GetTreeList"

definition GitLab_ListPullRequests ::
  "'w GitPlatform \<Rightarrow> GitLib \<Rightarrow> nat \<Rightarrow> string \<Rightarrow> ('w, GitPullRequest list) go"
where
  "GitLab_ListPullRequests = provider_ListPullRequests"

definition GitLab_UpdatePullRequest ::
  "'w GitPlatform \<Rightarrow> GitLib \<Rightarrow> nat \<Rightarrow> string \<Rightarrow> int \<Rightarrow> UpdatePullRequestOptions \<Rightarrow> ('w, GitPullRequest) go"
where
  "GitLab_UpdatePullRequest = provider_UpdatePullRequest"

definition GitLabProvider :: "'w GitPlatform \<Rightarrow> GitLib \<Rightarrow> nat \<Rightarrow> 'w Provider" where
  "GitLabProvider P G client =
     \<lparr>pv_Name = GitLabProviderName, pv_SupportedDomain = gl_SupportedDomain G client, pv_RawClient = GgpClient client,
      pv_CreatePullRequest = GitLab_CreatePullRequest P G client,
      pv_GetRepository = GitLab_GetRepository P G client,
      pv_GetTreeList = GitLab_GetTreeList P G client,
      pv_ListPullRequests = GitLab_ListPullRequests P G client,
      pv_UpdatePullRequest = GitLab_UpdatePullRequest P G client\<rparr>"

section \<open>Bitbucket Server\<close>

definition BitBucketServer_Setup :: "'w GitPlatform \<Rightarrow> ProviderOption \<Rightarrow> ('w, nat) go" where
  "BitBucketServer_Setup P opts =
     (case po_Client opts of
        Some (GgpClient client) \<Rightarrow> ok client
      | Some _ \<Rightarrow> result (Panicked wrong_client)
      | None \<Rightarrow>
          (let username = (if po_Username opts = '''' then ''git'' else po_Username opts)
           in if po_Token opts = '''' then fail (PlainError ''missing required option: Token'')
              else if po_Hostname opts = '''' then fail (PlainError ''missing required option: Hostname'')
              else
                (let ggpOpts = [ggp_WithDomain (po_Hostname opts),
                                ggp_WithConditionalRequests (po_ConditionalRequests opts)]
                 in git_do (GgpNewClient ''stash'' [username, po_Token opts] ggpOpts)
                      (gp_StashNewClient P username (po_Token opts) ggpOpts))))"

definition BitBucketServer_GetRepository ::
  "'w GitPlatform \<Rightarrow> GitLib \<Rightarrow> nat \<Rightarrow> string \<Rightarrow> ('w, Repository) go"
where
  "BitBucketServer_GetRepository P G client url =
     attempt (GetBitbucketRepository P G client url) id (\<lambda>repo. ok (ggp_Repository_of repo))"

definition BitBucketServer_CreatePullRequest ::
  "'w GitPlatform \<Rightarrow> GitLib \<Rightarrow> nat \<Rightarrow> PullRequestInput \<Rightarrow> ('w, GitPullRequest) go"
where
  "BitBucketServer_CreatePullRequest P G client input =
     attempt (result (Returned (GetGitProviderUrl G (pri_RepositoryURL input)))) (Wrapped ''unable to get git provider url'')
       (\<lambda>url. attempt (GetBitbucketRepository P G client url) id
          (write_and_open P G input (pri_Commits input) (0 < length (pri_Commits input))))"

definition BitBucketServer_GetTreeList ::
  "'w GitPlatform \<Rightarrow> GitLib \<Rightarrow> nat \<Rightarrow> string \<Rightarrow> string \<Rightarrow> string \<Rightarrow> ('w, TreeEntry list) go"
where
  "BitBucketServer_GetTreeList = provider_GetTreeList"

definition BitBucketServer_ListPullRequests ::
  "'w GitPlatform \<Rightarrow> GitLib \<Rightarrow> nat \<Rightarrow> string \<Rightarrow> ('w, GitPullRequest list) go"
where
  "BitBucketServer_ListPullRequests = provider_ListPullRequests"

definition BitBucketServer_UpdatePullRequest ::
  "'w GitPlatform \<Rightarrow> GitLib \<Rightarrow> nat \<Rightarrow> string \<Rightarrow> int \<Rightarrow> UpdatePullRequestOptions \<Rightarrow> ('w, GitPullRequest) go"
where
  "BitBucketServer_UpdatePullRequest = provider_UpdatePullRequest"

definition BitBucketServerProvider :: "'w GitPlatform \<Rightarrow> GitLib \<Rightarrow> nat \<Rightarrow> 'w Provider" where
  "BitBucketServerProvider P G client =
     \<lparr>pv_Name = BitBucketServerProviderName, pv_SupportedDomain = gl_SupportedDomain G client,
      pv_RawClient = GgpClient client,
      pv_CreatePullRequest = BitBucketServer_CreatePullRequest P G client,
      pv_GetRepository = BitBucketServer_GetRepository P G client,
      pv_GetTreeList = BitBucketServer_GetTreeList P G client,
      pv_ListPullRequests = BitBucketServer_ListPullRequests P G client,
      pv_UpdatePullRequest = BitBucketServer_UpdatePullRequest P G client\<rparr>"

section \<open>The contract of a provider\<close>

fun is_git :: "call \<Rightarrow> bool" where
  "is_git (CallGit _) = True"
| "is_git _ = False"

definition git_only :: "('w sys, 'a) state \<Rightarrow> bool" where
  "git_only m \<longleftrightarrow> emits is_git m \<and> keeps cachesMap m"

locale git_provider =
  fixes pv :: "'w Provider"
  assumes create_git_only: "git_only (pv_CreatePullRequest pv input)"
    and get_git_only: "git_only (pv_GetRepository pv url)"
    and tree_git_only: "git_only (pv_GetTreeList pv url sha path)"
    and list_git_only: "git_only (pv_ListPullRequests pv url)"
    and update_git_only: "git_only (pv_UpdatePullRequest pv url number options)"

named_theorems git_only_intros \<open>introduction rules for programs that only talk to git\<close>

lemma git_only_result [git_only_intros]: "git_only (result a)"
  by (simp add: git_only_def emits_return keeps_return)

lemma git_only_bind [git_only_intros]:
  "git_only m \<Longrightarrow> (\<And>a. git_only (k a)) \<Longrightarrow> git_only (State_Monad.bind m k)"
  by (simp add: git_only_def emits_bind keeps_bind)

lemma git_only_attempt [git_only_intros]:
  "git_only m \<Longrightarrow> (\<And>a. git_only (k a)) \<Longrightarrow> git_only (attempt m wrap k)"
  by (simp add: git_only_def emits_attempt keeps_attempt)

lemma git_only_perform [git_only_intros]: "git_only (perform (CallGit c) f)"
  by (simp add: git_only_def emits_perform keeps_perform_cachesMap)

lemma git_only_returning [git_only_intros]: "git_only m \<Longrightarrow> git_only (returning m)"
  by (simp add: git_only_def emits_returning keeps_returning)

lemma git_only_if [git_only_intros]:
  "git_only m \<Longrightarrow> git_only n \<Longrightarrow> git_only (if b then m else n)"
  by simp

lemma git_only_cases [git_only_intros]:
  "(\<And>e. git_only (m1 e)) \<Longrightarrow> (\<And>a. git_only (n1 a)) \<Longrightarrow> git_only (case r of Inl e \<Rightarrow> m1 e | Inr a \<Rightarrow> n1 a)"
  "git_only m2 \<Longrightarrow> (\<And>a. git_only (n2 a)) \<Longrightarrow> git_only (case q of None \<Rightarrow> m2 | Some a \<Rightarrow> n2 a)"
  "(\<And>a. git_only (m3 a)) \<Longrightarrow> (\<And>msg. git_only (n3 msg)) \<Longrightarrow>
     git_only (case x of Returned a \<Rightarrow> m3 a | Panicked msg \<Rightarrow> n3 msg)"
  "git_only m4 \<Longrightarrow> (\<And>a as. git_only (n4 a as)) \<Longrightarrow> git_only (case l of [] \<Rightarrow> m4 | a # as \<Rightarrow> n4 a as)"
  "(\<And>c. git_only (m5 c)) \<Longrightarrow> (\<And>c. git_only (n5 c)) \<Longrightarrow> git_only o5 \<Longrightarrow>
     git_only (case k of GgpClient c \<Rightarrow> m5 c | ScmClient c \<Rightarrow> n5 c | OtherClient \<Rightarrow> o5)"
  by (simp_all split: sum.split option.split outcome.split list.split AnyClient.split)

context git_platform
begin

lemma git_only_OnError [git_only_intros]:
  "git_only m \<Longrightarrow> git_only (OnError P retriable (assigning m assign))"
  by (simp add: git_only_def emits_OnError keeps_OnError)

lemma git_only_CreateBranch: "git_only (CreateBranch P G repo base head)"
  unfolding CreateBranch_def by (intro git_only_intros)

lemma git_only_write_commits: "git_only (write_commits P G repo head cs)"
  by (induction cs) (auto intro!: git_only_intros)

lemma git_only_write_and_open: "git_only (write_and_open P G input commits b repo)"
  unfolding write_and_open_def WriteFilesToBranch_def ggp_CreatePullRequest_def
  by (intro git_only_intros git_only_CreateBranch git_only_write_commits)

lemma git_only_repositories:
  "git_only (ggp_GetRepository P G client url)" "git_only (GetBitbucketRepository P G client url)"
  unfolding ggp_GetRepository_def GetBitbucketRepository_def retried_repository_def by (intro git_only_intros)+

lemma git_only_updated_loop: "git_only (updated_loop P G files client url branch acc)"
  by (induction files arbitrary: acc)
     (auto simp: ggp_GetTreeList_def intro!: git_only_intros git_only_repositories)

lemma git_only_pull_requests:
  "git_only (ggp_ListPullRequests P repo)" "git_only (ggp_UpdatePullRequest P repo number title)"
  unfolding ggp_ListPullRequests_def ggp_UpdatePullRequest_def by (intro git_only_intros)+

lemmas git_only_operations = git_only_pull_requests git_only_CreateBranch git_only_write_and_open git_only_repositories git_only_updated_loop

lemmas provider_method_defs = GitHub_CreatePullRequest_def GitHub_GetRepository_def GitHub_GetTreeList_def
  GitHub_ListPullRequests_def GitHub_UpdatePullRequest_def GitLab_CreatePullRequest_def GitLab_GetRepository_def
  GitLab_GetTreeList_def GitLab_ListPullRequests_def GitLab_UpdatePullRequest_def BitBucketServer_CreatePullRequest_def
  BitBucketServer_GetRepository_def BitBucketServer_GetTreeList_def BitBucketServer_ListPullRequests_def
  BitBucketServer_UpdatePullRequest_def provider_GetTreeList_def provider_ListPullRequests_def
  provider_UpdatePullRequest_def GetUpdatedFiles_def

end

sublocale git_platform \<subseteq> github: git_provider "GitHubProvider P G client" for G client
  unfolding GitHubProvider_def
  by unfold_locales (auto simp: provider_method_defs intro!: git_only_intros git_only_operations)

sublocale git_platform \<subseteq> gitlab: git_provider "GitLabProvider P G client" for G client
  unfolding GitLabProvider_def
  by unfold_locales (auto simp: provider_method_defs intro!: git_only_intros git_only_operations)

sublocale git_platform \<subseteq> bitbucket: git_provider "BitBucketServerProvider P G client" for G client
  unfolding BitBucketServerProvider_def
  by unfold_locales (auto simp: provider_method_defs intro!: git_only_intros git_only_operations)

end
