(* ===== verification/Azure_Provider.thy ===== *)
theory Azure_Provider
  imports Go_Git_Provider
begin

text \<open>
  The Azure DevOps provider (\<open>azure.go\<close>) and the helpers it has for commits of several
  files (\<open>jenkins_scm.go\<close>), with the standard base64 encoding written out.
\<close>

section \<open>Base64\<close>

definition base64_alphabet :: string where
  "base64_alphabet = ''ABCDEFGHIJKLMNOPQRSTUVWXYZabcdefghijklmnopqrstuvwxyz0123456789+/''"

abbreviation b64 :: "nat \<Rightarrow> char" where
  "b64 n \<equiv> base64_alphabet ! n"

fun base64_bytes :: "nat list \<Rightarrow> string" where
  "base64_bytes [] = []"
| "base64_bytes [a] = [b64 (a div 4), b64 (a mod 4 * 16), CHR ''='', CHR ''='']"
| "base64_bytes [a, b] = [b64 (a div 4), b64 (a mod 4 * 16 + b div 16), b64 (b mod 16 * 4), CHR ''='']"
| "base64_bytes (a # b # c # rest) =
     [b64 (a div 4), b64 (a mod 4 * 16 + b div 16), b64 (b mod 16 * 4 + c div 64), b64 (c mod 64)] @ base64_bytes rest"

definition EncodeToString :: "string \<Rightarrow> string" where
  "EncodeToString s = base64_bytes (map of_char s)"

section \<open>Repositories and commits\<close>

text \<open>The four parts of the path of a repository URL: organization, project, \<open>_git\<close>, name.\<close>

definition pathParts :: "url_URL \<Rightarrow> string list" where
  "pathParts u = SplitOn (CHR ''/'') (TrimSlashes (url_Path u))"

definition scm_GetRepository :: "'w GitPlatform \<Rightarrow> GitLib \<Rightarrow> nat \<Rightarrow> url_URL \<Rightarrow> ('w, scm_Repository) go" where
  "scm_GetRepository P G client repoURL =
     (case pathParts repoURL of
        [org, project, _, name] \<Rightarrow>
          (let fullName = org @ ''/'' @ project @ ''/'' @ name
           in attempt (OnError P IsGitNotFound
                (assigning (perform (CallGit (ScmFindRepository client fullName)) (gp_ScmFindRepository P client fullName))
                   (\<lambda>x v. v\<lparr>cv_scmRepo := x\<rparr>)))
                (Wrapped (''unable to get repository '' @ gl_Quote G (gl_UrlString G repoURL)))
                (\<lambda>v. case cv_scmRepo v of None \<Rightarrow> result (Panicked nil_dereference) | Some repo \<Rightarrow> ok repo))
      | _ \<Rightarrow> fail (PlainError (''unable to parse url '' @ gl_UrlString G repoURL)))"

definition GetCurrentCommitOfBranch ::
  "'w GitPlatform \<Rightarrow> nat \<Rightarrow> scm_Repository \<Rightarrow> string \<Rightarrow> string \<Rightarrow> ('w, string) go"
where
  "GetCurrentCommitOfBranch P client repo branch path =
     attempt (git_do (ScmListCommits client (sr_FullName repo) branch path)
                (gp_ScmListCommits P client (sr_FullName repo) branch path))
       (Wrapped ''failed to list commits'')
       (\<lambda>commits. case commits of [] \<Rightarrow> result (Panicked index_out_of_range) | sha # _ \<Rightarrow> ok sha)"

definition CreateFile ::
  "'w GitPlatform \<Rightarrow> GitLib \<Rightarrow> nat \<Rightarrow> scm_Repository \<Rightarrow> string \<Rightarrow> ContentParams \<Rightarrow> ('w, unit) go"
where
  "CreateFile P G client repo path params =
     attempt (git_do (ScmCreateContent client (sr_FullName repo) path params)
                (gp_ScmCreateContent P client (sr_FullName repo) path params))
       (Wrapped (''unable to write files to branch '' @ gl_Quote G (cp_Branch params)))
       ok"

definition UpdateFile ::
  "'w GitPlatform \<Rightarrow> GitLib \<Rightarrow> nat \<Rightarrow> scm_Repository \<Rightarrow> string \<Rightarrow> ContentParams \<Rightarrow> ('w, unit) go"
where
  "UpdateFile P G client repo path params =
     attempt (git_do (ScmUpdateContent client (sr_FullName repo) path params)
                (gp_ScmUpdateContent P client (sr_FullName repo) path params))
       (Wrapped (''unable to write files to branch '' @ gl_Quote G (cp_Branch params)))
       ok"

definition scm_Endpoint :: "GitLib \<Rightarrow> string \<Rightarrow> string \<Rightarrow> go_error + string" where
  "scm_Endpoint G repoURL path =
     (case gl_UrlParse G repoURL of
        Inl err \<Rightarrow> Inl (Wrapped (''unbale to parse url '' @ gl_Quote G repoURL) err)
      | Inr u \<Rightarrow>
          (case pathParts u of
             [org, project, _, name] \<Rightarrow>
               Inr (org @ ''/'' @ project @ ''/_apis/git/repositories/'' @ name @ ''/'' @ path @ ''?api-version=6.0'')
           | _ \<Rightarrow> Inl (PlainError (''unbale to parse url '' @ gl_UrlString G u))))"

definition file_change :: "CommitFile \<Rightarrow> change" where
  "file_change file =
     (case cf_Content file of
        None \<Rightarrow> \<lparr>ch_ChangeType = ''edit'', ch_ItemPath = cf_Path file, ch_Content = '''', ch_ContentType = ''''\<rparr>
      | Some content \<Rightarrow> \<lparr>ch_ChangeType = ''add'', ch_ItemPath = cf_Path file,
                         ch_Content = EncodeToString content, ch_ContentType = ''base64encoded''\<rparr>)"

definition CommitFilesRequest ::
  "GitLib \<Rightarrow> string \<Rightarrow> string \<Rightarrow> string \<Rightarrow> string \<Rightarrow> CommitFile list \<Rightarrow> scm_Request"
where
  "CommitFilesRequest G sha url head message files =
     \<lparr>srq_Method = ''POST'',
      srq_Path = (case scm_Endpoint G url ''pushes'' of Inl _ \<Rightarrow> '''' | Inr endpoint \<Rightarrow> endpoint),
      srq_Header = [(''Content-Type'', [''application/json''])],
      srq_Body =
        \<lparr>ccu_RefUpdates = [\<lparr>ru_Name = ''refs/heads/'' @ head, ru_OldObjectID = sha\<rparr>],
         ccu_Commits = [\<lparr>cref_Comment = message, cref_Changes = map file_change files,
                         cref_CommitID = '''', cref_URL = ''''\<rparr>]\<rparr>\<rparr>"

section \<open>The provider\<close>

abbreviation wrong_scm_client :: string where
  "wrong_scm_client \<equiv> ''interface conversion: interface is not *scm.Client''"

definition AzureDevOps_Setup :: "'w GitPlatform \<Rightarrow> ProviderOption \<Rightarrow> ('w, nat) go" where
  "AzureDevOps_Setup P opts =
     (case po_Client opts of
        Some (ScmClient client) \<Rightarrow> ok client
      | Some _ \<Rightarrow> result (Panicked wrong_scm_client)
      | None \<Rightarrow>
          if po_Token opts = '''' then fail (PlainError ''missing required option: Token'')
          else
            (let hostname = (if po_Hostname opts = '''' then ''dev.azure.com'' else po_Hostname opts)
             in git_do (ScmNewClient ''azure'' (''https://'' @ hostname) (po_Token opts))
                  (gp_ScmNewClient P ''azure'' (''https://'' @ hostname) (po_Token opts))))"

definition AzureDevOps_GetRepository ::
  "'w GitPlatform \<Rightarrow> GitLib \<Rightarrow> nat \<Rightarrow> string \<Rightarrow> ('w, Repository) go"
where
  "AzureDevOps_GetRepository P G client repoURL =
     (case gl_UrlParse G repoURL of
        Inl err \<Rightarrow> fail (Wrapped (''unbale to parse url '' @ gl_Quote G repoURL) err)
      | Inr u \<Rightarrow>
          attempt (scm_GetRepository P G client u) id
            (\<lambda>repo. ok \<lparr>repo_Domain = url_Host u, repo_Org = sr_Namespace repo, repo_Name = sr_Name repo\<rparr>))"

definition sendRawRequest :: "'w GitPlatform \<Rightarrow> nat \<Rightarrow> scm_Request \<Rightarrow> ('w, scm_Response) go" where
  "sendRawRequest P client request =
     attempt (git_do (ScmDo client request) (gp_ScmDo P client request)) (Wrapped ''failed to commit files'')
       (\<lambda>resp. if rsp_Status resp > 300 then fail (rsp_Error resp) else ok resp)"

text \<open>\<open>headCommit, _ := ...\<close>: the error is dropped and the commit is empty.\<close>

definition head_or_empty :: "('w, string) go \<Rightarrow> ('w, string) go" where
  "head_or_empty m =
     do { x \<leftarrow> m;
          case x of
            Panicked msg \<Rightarrow> result (Panicked msg)
          | Returned (Inl err) \<Rightarrow> ok ''''
          | Returned (Inr sha) \<Rightarrow> ok sha }"

text \<open>The loop over the commits: each is pushed on the head commit that the one before left.\<close>

fun push_commits ::
  "'w GitPlatform \<Rightarrow> GitLib \<Rightarrow> nat \<Rightarrow> scm_Repository \<Rightarrow> PullRequestInput \<Rightarrow> string \<Rightarrow> Commit list \<Rightarrow> ('w, unit) go"
where
  "push_commits P G client repo input headCommit [] = ok ()"
| "push_commits P G client repo input headCommit (c # cs) =
     attempt (sendRawRequest P client
                (CommitFilesRequest G headCommit (pri_RepositoryURL input) (pri_Head input)
                   (cmt_CommitMessage c) (cmt_Files c))) id
       (\<lambda>_. attempt (head_or_empty (GetCurrentCommitOfBranch P client repo (pri_Head input) '''')) id
              (\<lambda>sha. push_commits P G client repo input sha cs))"

definition scm_to_PullRequest :: "scm_PullRequest \<Rightarrow> GitPullRequest" where
  "scm_to_PullRequest pr =
     \<lparr>gpr_Title = spr_Title pr, gpr_Description = spr_Body pr, gpr_Link = spr_Link pr,
      gpr_Merged = spr_Merged pr, gpr_Source = spr_Source pr, gpr_Number = spr_Number pr\<rparr>"

definition scm_to_TreeEntry :: "scm_FileEntry \<Rightarrow> TreeEntry" where
  "scm_to_TreeEntry f =
     \<lparr>te_Name = sfe_Name f, te_Path = sfe_Path f, te_Type = sfe_Type f, te_Size = sfe_Size f,
      te_SHA = sfe_Sha f, te_Link = sfe_Link f\<rparr>"

text \<open>Lines 86--97: the commit at the head of the branch, which is created when it has none.\<close>

definition ensure_branch ::
  "'w GitPlatform \<Rightarrow> nat \<Rightarrow> scm_Repository \<Rightarrow> PullRequestInput \<Rightarrow> ('w, string) go"
where
  "ensure_branch P client repo input =
     attempt (head_or_empty (GetCurrentCommitOfBranch P client repo (pri_Head input) '''')) id
       (\<lambda>headCommit.
          if headCommit = '''' then
            attempt (GetCurrentCommitOfBranch P client repo (pri_Base input) '''') id
              (\<lambda>baseCommit.
                 attempt (git_do (ScmCreateRef client (sr_FullName repo) (pri_Head input) baseCommit)
                            (gp_ScmCreateRef P client (sr_FullName repo) (pri_Head input) baseCommit))
                   (Wrapped ''failed to create new branch'')
                   (\<lambda>_. ok baseCommit))
          else ok headCommit)"

definition AzureDevOps_CreatePullRequest ::
  "'w GitPlatform \<Rightarrow> GitLib \<Rightarrow> nat \<Rightarrow> PullRequestInput \<Rightarrow> ('w, GitPullRequest) go"
where
  "AzureDevOps_CreatePullRequest P G client input =
     (case gl_UrlParse G (pri_RepositoryURL input) of
        Inl err \<Rightarrow> fail (Wrapped (''unable to parse url '' @ gl_Quote G (pri_RepositoryURL input)) err)
      | Inr u \<Rightarrow>
          attempt (scm_GetRepository P G client u) id
            (\<lambda>repo. attempt (ensure_branch P client repo input) id
               (\<lambda>headCommit. attempt (push_commits P G client repo input headCommit (pri_Commits input)) id
                  (\<lambda>_. attempt (git_do (ScmCreatePullRequest client (sr_FullName repo) (pri_Title input) (pri_Head input)
                                          (pri_Base input) (pri_Body input))
                                  (gp_ScmCreatePullRequest P client (sr_FullName repo) (pri_Title input) (pri_Head input)
                                     (pri_Base input) (pri_Body input)))
                         (Wrapped (''unable to create pull request for branch '' @ gl_Quote G (pri_Head input)))
                         (\<lambda>pr. ok (scm_to_PullRequest pr))))))"

definition AzureDevOps_GetTreeList ::
  "'w GitPlatform \<Rightarrow> GitLib \<Rightarrow> nat \<Rightarrow> string \<Rightarrow> string \<Rightarrow> string \<Rightarrow> ('w, TreeEntry list) go"
where
  "AzureDevOps_GetTreeList P G client repoUrl sha path =
     attempt (result (Returned (GetGitProviderUrl G repoUrl))) (Wrapped ''unable to get git provider url'')
       (\<lambda>url. attempt (git_do (ScmListContents client url path sha) (gp_ScmListContents P client url path sha)) id
          (\<lambda>fileList. ok (map scm_to_TreeEntry fileList)))"

definition AzureDevOps_ListPullRequests ::
  "'w GitPlatform \<Rightarrow> GitLib \<Rightarrow> nat \<Rightarrow> string \<Rightarrow> ('w, GitPullRequest list) go"
where
  "AzureDevOps_ListPullRequests P G client repoURL =
     attempt (result (Returned (GetGitProviderUrl G repoURL))) (Wrapped ''unable to get git provider url'')
       (\<lambda>url. attempt (git_do (ScmListPullRequests client url) (gp_ScmListPullRequests P client url)) id
          (\<lambda>prList. ok (map scm_to_PullRequest prList)))"

definition AzureDevOps_UpdatePullRequest ::
  "'w GitPlatform \<Rightarrow> nat \<Rightarrow> string \<Rightarrow> int \<Rightarrow> UpdatePullRequestOptions \<Rightarrow> ('w, GitPullRequest) go"
where
  "AzureDevOps_UpdatePullRequest P client repoURL number options =
     attempt (git_do (ScmUpdatePullRequest client repoURL number (upo_Title options) (upo_Body options))
                (gp_ScmUpdatePullRequest P client repoURL number (upo_Title options) (upo_Body options)))
       (Wrapped ''failed to update existing PR'')
       (\<lambda>pr. ok (scm_to_PullRequest pr))"

definition AzureDevOpsProvider :: "'w GitPlatform \<Rightarrow> GitLib \<Rightarrow> nat \<Rightarrow> 'w Provider" where
  "AzureDevOpsProvider P G client =
     \<lparr>pv_Name = AzureDevOpsProviderName, pv_SupportedDomain = '''', pv_RawClient = ScmClient client,
      pv_CreatePullRequest = AzureDevOps_CreatePullRequest P G client,
      pv_GetRepository = AzureDevOps_GetRepository P G client,
      pv_GetTreeList = AzureDevOps_GetTreeList P G client,
      pv_ListPullRequests = AzureDevOps_ListPullRequests P G client,
      pv_UpdatePullRequest = AzureDevOps_UpdatePullRequest P client\<rparr>"

section \<open>The provider keeps its contract\<close>

context git_platform
begin

lemma git_only_scm_GetRepository: "git_only (scm_GetRepository P G client u)"
  unfolding scm_GetRepository_def Let_def by (intro git_only_intros)

lemma git_only_current: "git_only (GetCurrentCommitOfBranch P client repo branch path)"
  unfolding GetCurrentCommitOfBranch_def by (intro git_only_intros)

lemma git_only_head_or_empty: "git_only m \<Longrightarrow> git_only (head_or_empty m)"
  unfolding head_or_empty_def by (intro git_only_intros) auto

lemma git_only_push_commits: "git_only (push_commits P G client repo input sha cs)"
  by (induction cs arbitrary: sha)
     (auto simp: sendRawRequest_def intro!: git_only_intros git_only_head_or_empty git_only_current)

lemma git_only_ensure_branch: "git_only (ensure_branch P client repo input)"
  unfolding ensure_branch_def by (intro git_only_intros git_only_head_or_empty git_only_current)

end

lemmas azure_method_defs = AzureDevOps_CreatePullRequest_def AzureDevOps_GetRepository_def AzureDevOps_GetTreeList_def
  AzureDevOps_ListPullRequests_def AzureDevOps_UpdatePullRequest_def

sublocale git_platform \<subseteq> azure: git_provider "AzureDevOpsProvider P G client" for G client
  unfolding AzureDevOpsProvider_def
  by unfold_locales (auto simp: azure_method_defs intro!: git_only_intros git_only_scm_GetRepository
      git_only_ensure_branch git_only_push_commits)

section \<open>The encoding loses nothing\<close>

definition b64_value :: "char \<Rightarrow> nat" where
  "b64_value c = length (takeWhile (\<lambda>x. x \<noteq> c) base64_alphabet)"

fun base64_decode :: "string \<Rightarrow> nat list" where
  "base64_decode (w # x # y # z # rest) =
     (if z = CHR ''='' then
        (if y = CHR ''='' then [b64_value w * 4 + b64_value x div 16]
         else [b64_value w * 4 + b64_value x div 16, b64_value x mod 16 * 16 + b64_value y div 4])
      else [b64_value w * 4 + b64_value x div 16, b64_value x mod 16 * 16 + b64_value y div 4,
            b64_value y mod 4 * 64 + b64_value z] @ base64_decode rest)"
| "base64_decode _ = []"

lemma b64_alphabet_check:
  "list_all (\<lambda>n. b64_value (b64 n) = n \<and> b64 n \<noteq> CHR ''='') [0..<64]"
  unfolding b64_value_def base64_alphabet_def by code_simp

lemma b64_value_b64 [simp]:
  assumes "n < 64"
  shows "b64_value (b64 n) = n" and "b64 n \<noteq> CHR ''=''"
  using b64_alphabet_check assms by (auto simp: list_all_iff)

lemma digits_join: "y < k \<Longrightarrow> (q * k + y) div k = q \<and> (q * k + y) mod k = (y :: nat)"
  by simp

lemma octet_parts:
  assumes "b < (256 :: nat)"
  shows "b div 4 < 64" "b div 16 < 16" "b div 64 < 4"
  using assms by (simp_all add: less_mult_imp_div_less)

lemma sextets:
  assumes "a < 256" "b < 256" "c < (256 :: nat)"
  shows "a mod 4 * 16 < 64" "a mod 4 * 16 + b div 16 < 64" "b mod 16 * 4 < 64"
    "b mod 16 * 4 + c div 64 < 64"
proof -
  have "a mod 4 \<le> 3" "b mod 16 \<le> 15" using mod_less_divisor [of 4 a] mod_less_divisor [of 16 b] by linarith+
  with octet_parts [OF assms(2)] octet_parts [OF assms(3)]
  show "a mod 4 * 16 < 64" "a mod 4 * 16 + b div 16 < 64" "b mod 16 * 4 < 64" "b mod 16 * 4 + c div 64 < 64"
    by linarith+
qed

lemmas join_octets = digits_join [of "b div 16" 16 "a mod 4", OF octet_parts(2)]
  digits_join [of "c div 64" 4 "b mod 16", OF octet_parts(3)] for a b c

lemma base64_decode_bytes: "\<forall>b \<in> set bs. b < 256 \<Longrightarrow> base64_decode (base64_bytes bs) = bs"
proof (induction bs rule: base64_bytes.induct)
  case (2 a)
  then show ?case using octet_parts(1) [of a] sextets(1) [of a 0 0] by simp
next
  case (3 a b)
  then show ?case
    using octet_parts(1) [of a] sextets [of a b 0] join_octets(1) [of b a] by simp
next
  case (4 a b c rest)
  then show ?case
    using octet_parts(1) [of a] sextets [of a b c] join_octets(1) [of b a] join_octets(2) [of c b] by simp
qed simp

lemma EncodeToString_inj: "inj EncodeToString"
proof (rule injI)
  fix s t assume "EncodeToString s = EncodeToString t"
  then have "base64_decode (EncodeToString s) = base64_decode (EncodeToString t)" by simp
  moreover have "base64_decode (EncodeToString u) = map of_char u" for u
    unfolding EncodeToString_def by (rule base64_decode_bytes) auto
  ultimately have "map (of_char :: char \<Rightarrow> nat) s = map of_char t" by simp
  then show "s = t" by (simp add: inj_map_eq_map [OF inj_of_char])
qed


section \<open>Properties\<close>

lemma file_change_inj: "file_change f = file_change f' \<Longrightarrow> f = f'"
proof -
  assume same: "file_change f = file_change f'"
  have "cf_Path f = cf_Path f'" "cf_Content f = cf_Content f'"
    using same by (auto simp: file_change_def inj_eq [OF EncodeToString_inj] split: option.splits)
  then show "f = f'" by (simp add: CommitFile.equality)
qed


end
