(* ===== verification/Provider_Factory.thy ===== *)
theory Provider_Factory
  imports Azure_Provider
begin

text \<open>
  The construction of a provider: the options and the factory of \<open>internal/git/factory.go\<close>,
  and the client factory of \<open>server/strategy/pullrequest/gitprovider.go\<close>, which checks the
  configuration and chooses the options. Every provider that comes out keeps the contract
  \<open>git_provider\<close>.
\<close>

section \<open>Options\<close>

type_synonym ProviderWithFn = "ProviderOption \<Rightarrow> go_error + ProviderOption"

definition WithDomain :: "string \<Rightarrow> ProviderWithFn" where
  "WithDomain domain = (\<lambda>p. Inr (p\<lparr>po_Hostname := AddSchemeToDomain domain\<rparr>))"

definition WithOAuth2Token :: "string \<Rightarrow> ProviderWithFn" where
  "WithOAuth2Token token = (\<lambda>p. Inr (p\<lparr>po_OAuth2Token := token\<rparr>))"

definition WithToken :: "string \<Rightarrow> string \<Rightarrow> ProviderWithFn" where
  "WithToken tokenType token = (\<lambda>p. Inr (p\<lparr>po_TokenType := tokenType, po_Token := token\<rparr>))"

definition WithConditionalRequests :: ProviderWithFn where
  "WithConditionalRequests = (\<lambda>p. Inr (p\<lparr>po_ConditionalRequests := True\<rparr>))"

definition WithoutConditionalRequests :: ProviderWithFn where
  "WithoutConditionalRequests = (\<lambda>p. Inr (p\<lparr>po_ConditionalRequests := False\<rparr>))"

definition WithUsername :: "string \<Rightarrow> ProviderWithFn" where
  "WithUsername username = (\<lambda>p. Inr (p\<lparr>po_Username := username\<rparr>))"

definition WithDestructiveAPICalls :: ProviderWithFn where
  "WithDestructiveAPICalls = (\<lambda>p. Inr (p\<lparr>po_DestructiveCalls := True\<rparr>))"

definition WithConfiguredClient :: "AnyClient option \<Rightarrow> ProviderWithFn" where
  "WithConfiguredClient client = (\<lambda>p. Inr (p\<lparr>po_Client := client\<rparr>))"

lemmas provider_option_defs = WithDomain_def WithOAuth2Token_def WithToken_def WithUsername_def
  WithDestructiveAPICalls_def

abbreviation zero_ProviderOption :: ProviderOption where
  "zero_ProviderOption \<equiv>
     \<lparr>po_Hostname = '''', po_OAuth2Token = '''', po_TokenType = '''', po_Token = '''', po_Username = '''',
      po_ConditionalRequests = False, po_DestructiveCalls = False, po_Client = None\<rparr>"

fun apply_options :: "ProviderWithFn list \<Rightarrow> ProviderOption \<Rightarrow> go_error + ProviderOption" where
  "apply_options [] option = Inr option"
| "apply_options (opt # opts) option =
     (case opt option of Inl err \<Rightarrow> Inl err | Inr option' \<Rightarrow> apply_options opts option')"

section \<open>The factory\<close>

text \<open>The second half of \<open>Create\<close>, with the \<open>Setup\<close> of the chosen provider; a provider
  whose \<open>Setup\<close> fails is dropped.\<close>

definition create_with ::
  "GitLib \<Rightarrow> string \<Rightarrow> ProviderWithFn list \<Rightarrow> (ProviderOption \<Rightarrow> ('w, nat) go) \<Rightarrow> (nat \<Rightarrow> 'w Provider) \<Rightarrow>
     ('w, 'w Provider) go"
where
  "create_with G providerName opts setup provider =
     (case apply_options opts zero_ProviderOption of
        Inl err \<Rightarrow> fail (Wrapped (''unable to gather options on provider '' @ gl_Quote G providerName) err)
      | Inr option \<Rightarrow>
          attempt (setup option) (Wrapped (''unable to apply options on provider '' @ gl_Quote G providerName))
            (\<lambda>client. ok (provider client)))"

definition Factory_Create ::
  "'w GitPlatform \<Rightarrow> GitLib \<Rightarrow> string \<Rightarrow> ProviderWithFn list \<Rightarrow> ('w, 'w Provider) go"
where
  "Factory_Create P G providerName opts =
     (if providerName = GitHubProviderName then
        create_with G providerName opts (GitHub_Setup P) (GitHubProvider P G)
      else if providerName = GitLabProviderName then
        create_with G providerName opts (GitLab_Setup P) (GitLabProvider P G)
      else if providerName = BitBucketServerProviderName then
        create_with G providerName opts (BitBucketServer_Setup P) (BitBucketServerProvider P G)
      else if providerName = AzureDevOpsProviderName then
        create_with G providerName opts (AzureDevOps_Setup P) (AzureDevOpsProvider P G)
      else fail (PlainError (''provider '' @ gl_Quote G providerName @ '' is not supported'')))"

section \<open>The client factory of the strategy\<close>

definition ErrGitProviderTypeEmpty :: go_error where
  "ErrGitProviderTypeEmpty = PlainError ''git provider type is empty''"

definition ErrGitProviderDomainIsEmpty :: go_error where
  "ErrGitProviderDomainIsEmpty = PlainError ''git provider host is empty''"

definition ErrTokenTypeIsEmpty :: go_error where
  "ErrTokenTypeIsEmpty = PlainError ''git provider token type is empty''"

definition ErrTokenIsEmpty :: go_error where
  "ErrTokenIsEmpty = PlainError ''git provider token is empty''"

lemmas provider_types = Github_def Gitlab_def BitBucketServer_def AzureDevOps_def

record GitProviderConfig =
  gpc_Token :: string
  gpc_TokenType :: string
  gpc_Type :: string
  gpc_Domain :: string
  gpc_DestructiveCalls :: bool

definition decorateCustomDomainByType :: "string \<Rightarrow> string \<Rightarrow> go_error + string" where
  "decorateCustomDomainByType gitProviderType domain =
     (if gitProviderType = '''' then Inl ErrGitProviderTypeEmpty
      else if domain = '''' then Inl ErrGitProviderDomainIsEmpty
      else if gitProviderType = Gitlab \<and> \<not> HasPrefix domain ''http://'' \<and> \<not> HasPrefix domain ''https://'' then
        Inr (''https://'' @ domain)
      else Inr domain)"

definition gitProviderIsValid :: "GitLib \<Rightarrow> string \<Rightarrow> bool \<times> go_error option" where
  "gitProviderIsValid G gitProviderType =
     (if gitProviderType = '''' then (False, Some ErrGitProviderTypeEmpty)
      else if gitProviderType = BitBucketServer \<or> gitProviderType = Github \<or> gitProviderType = Gitlab then (True, None)
      else (False, Some (PlainError (''the Git provider '' @ gl_Quote G gitProviderType @ '' is not supported''))))"

text \<open>The switch on the type: the name of the provider and the options it adds.\<close>

definition provider_for ::
  "GitLib \<Rightarrow> GitProviderConfig \<Rightarrow> go_error + (string \<times> ProviderWithFn list)"
where
  "provider_for G provider =
     (if gpc_Type provider = Github then Inr (GitHubProviderName, [])
      else if gpc_Type provider = Gitlab then
        Inr (GitLabProviderName, [WithToken (gpc_TokenType provider) (gpc_Token provider)])
      else if gpc_Type provider = BitBucketServer then
        Inr (BitBucketServerProviderName, [WithToken ''token'' (gpc_Token provider), WithUsername ''git''])
      else if gpc_Type provider = AzureDevOps then
        Inr (AzureDevOpsProviderName, [WithToken (gpc_TokenType provider) (gpc_Token provider)])
      else Inl (PlainError (''the Git provider '' @ gl_Quote G (gpc_Type provider) @ '' is not supported'')))"

definition domain_options :: "GitProviderConfig \<Rightarrow> go_error + ProviderWithFn list" where
  "domain_options provider =
     (if gpc_Domain provider \<noteq> '''' then
        (case decorateCustomDomainByType (gpc_Type provider) (gpc_Domain provider) of
           Inl err \<Rightarrow> Inl err
         | Inr domain \<Rightarrow> Inr [WithDomain domain])
      else Inr [])"

definition NewGitProviderClientFactory ::
  "'w GitPlatform \<Rightarrow> GitLib \<Rightarrow> GitProviderConfig \<Rightarrow> ('w, 'w Provider) go"
where
  "NewGitProviderClientFactory P G provider =
     (if gpc_Type provider = '''' then fail ErrGitProviderTypeEmpty
      else if gpc_TokenType provider = '''' then fail ErrTokenTypeIsEmpty
      else if gpc_Token provider = '''' then fail ErrTokenIsEmpty
      else if gpc_TokenType provider \<noteq> ''oauth2'' then
        fail (PlainError (''git provider token type is invalid '' @ gpc_TokenType provider))
      else
        (case domain_options provider of
           Inl err \<Rightarrow> fail err
         | Inr domainOpts \<Rightarrow>
             (case provider_for G provider of
                Inl err \<Rightarrow> fail err
              | Inr (providerName, typeOpts) \<Rightarrow>
                  Factory_Create P G providerName
                    ([WithOAuth2Token (gpc_Token provider)] @
                     (if gpc_DestructiveCalls provider then [WithDestructiveAPICalls] else []) @
                     domainOpts @ typeOpts))))"

section \<open>What the factory returns\<close>

lemma create_with_Inr:
  assumes "run_state (create_with G name opts setup provider) s = (Returned (Inr pv), t)"
  shows "\<exists>client. pv = provider client"
  using assms
  by (auto simp: create_with_def attempt_def split: sum.splits outcome.splits prod.splits)

lemma git_only_setups:
  "git_only (GitHub_Setup P opts)" "git_only (GitLab_Setup P opts)" "git_only (BitBucketServer_Setup P opts)"
  "git_only (AzureDevOps_Setup P opts)"
  unfolding GitHub_Setup_def GitLab_Setup_def BitBucketServer_Setup_def AzureDevOps_Setup_def Let_def
  by (intro git_only_intros)+

lemma git_only_create_with: "(\<And>opts. git_only (setup opts)) \<Longrightarrow> git_only (create_with G name opts setup provider)"
  unfolding create_with_def by (intro git_only_intros)

lemma git_only_Factory_Create: "git_only (Factory_Create P G name opts)"
  unfolding Factory_Create_def by (intro git_only_intros git_only_create_with git_only_setups)

lemma git_only_factory: "git_only (NewGitProviderClientFactory P G config)"
  unfolding NewGitProviderClientFactory_def
  by (auto intro!: git_only_intros git_only_Factory_Create split: sum.split prod.split)

context git_platform
begin

lemma Factory_Create_contract:
  assumes "run_state (Factory_Create P G name opts) s = (Returned (Inr pv), t)"
  shows "git_provider pv \<and> pv_Name pv = name"
  using assms github.git_provider_axioms gitlab.git_provider_axioms bitbucket.git_provider_axioms
    azure.git_provider_axioms
  by (auto simp: Factory_Create_def GitHubProvider_def GitLabProvider_def BitBucketServerProvider_def
      AzureDevOpsProvider_def split: if_splits dest!: create_with_Inr)

end

end
