(* ===== verification/Pull_Request_Strategy.thy ===== *)
theory Pull_Request_Strategy
  imports Strategy_Registry Provider_Factory
begin

text \<open>
  \<open>server/strategy/pullrequest\<close>: the strategy that clones the repository, writes the new
  version into the manifests, pushes the branch of the promotion and opens or updates its pull
  request. The locale \<open>provider_factory\<close> says what it needs of the factory of providers; the
  default factory gives it, and from it follows the contract \<open>promotion_strategy\<close> that the
  reconcilers and the webhook handlers rely on. The strategy is not a \<open>total_strategy\<close>: a
  URL that is not one of Bitbucket Server makes it panic.
\<close>

section \<open>The strategy\<close>

record 'w PullRequestStrategy =
  prs_gitClientFactory :: "GitProviderConfig \<Rightarrow> ('w, 'w Provider) go"

type_synonym 'w Opt = "'w PullRequestStrategy option \<Rightarrow> go_error + 'w PullRequestStrategy option"

text \<open>The field \<open>gitClientFactory\<close> of a \<open>PullRequest\<close> under construction, nil at first.\<close>

definition GitClientFactory :: "(GitProviderConfig \<Rightarrow> ('w, 'w Provider) go) \<Rightarrow> 'w Opt" where
  "GitClientFactory cf = (\<lambda>g. Inr (Some \<lparr>prs_gitClientFactory = cf\<rparr>))"

fun apply_Opts :: "'w Opt list \<Rightarrow> 'w PullRequestStrategy option \<Rightarrow> go_error + 'w PullRequestStrategy option" where
  "apply_Opts [] g = Inr g"
| "apply_Opts (opt # opts) g = (case opt g of Inl err \<Rightarrow> Inl err | Inr g' \<Rightarrow> apply_Opts opts g')"

definition setDefaults ::
  "'w GitPlatform \<Rightarrow> GitLib \<Rightarrow> 'w PullRequestStrategy option \<Rightarrow> 'w PullRequestStrategy"
where
  "setDefaults P G g =
     (case g of None \<Rightarrow> \<lparr>prs_gitClientFactory = NewGitProviderClientFactory P G\<rparr> | Some g' \<Rightarrow> g')"

definition PullRequest_New ::
  "'w GitPlatform \<Rightarrow> GitLib \<Rightarrow> 'w Opt list \<Rightarrow> go_error + 'w PullRequestStrategy"
where
  "PullRequest_New P G opts =
     (case apply_Opts opts None of Inl err \<Rightarrow> Inl err | Inr g \<Rightarrow> Inr (setDefaults P G g))"

definition PullRequest_Handles :: "Promotion \<Rightarrow> bool" where
  "PullRequest_Handles p \<longleftrightarrow> st_PullRequest (pr_Strategy p) \<noteq> None"

definition ErrSpecIsNil :: go_error where
  "ErrSpecIsNil = PlainError ''PullRequest spec in Pipeline is nil''"

definition fetchCredentials :: "'w Platform \<Rightarrow> string \<Rightarrow> string \<Rightarrow> ('w, string \<rightharpoonup> string) go" where
  "fetchCredentials K ns secretRef =
     attempt (returning (client_GetSecret K \<lparr>ok_Namespace = ns, ok_Name = secretRef\<rparr>))
       (Wrapped ''failed to fetch Secret'')
       (\<lambda>secret. ok (sec_Data secret))"

text \<open>\<open>clone.go\<close>. The client is closed when the function returns, whatever \<open>Clone\<close> did.\<close>

definition cloneRepo ::
  "'w GitPlatform \<Rightarrow> GitLib \<Rightarrow> PullRequestPromotion \<Rightarrow> string \<Rightarrow> (string \<rightharpoonup> string) \<Rightarrow> ('w, nat) go"
where
  "cloneRepo P G prSpec dir credentials =
     (case gl_UrlParse G (prp_URL prSpec) of
        Inl err \<Rightarrow> fail (Wrapped ''failed parsing URL from spec'' err)
      | Inr u \<Rightarrow>
          (case gl_AuthOptions G u credentials of
             Inl err \<Rightarrow> fail (Wrapped (''failed configuring auth opts for repo URL '' @ gl_Quote G (gl_UrlString G u)) err)
           | Inr authOpts \<Rightarrow>
               attempt (git_do (GitNewClient dir) (gp_NewGitClient P dir authOpts)) (Wrapped ''failed creating git client'')
                 (\<lambda>c. do { x \<leftarrow> perform (CallGit (GitClone c (prp_URL prSpec) (prp_BaseBranch prSpec)))
                                  (gp_Clone P c (prp_URL prSpec) (prp_BaseBranch prSpec));
                           _ \<leftarrow> perform (CallGit (GitClose c)) (gp_Close P c);
                           case x of
                             Inl err \<Rightarrow> fail (Wrapped ''failed cloning repository'' err)
                           | Inr _ \<Rightarrow> ok c })))"

definition setterShortHand :: string where
  "setterShortHand = ''$promotion''"

text \<open>The filter of \<open>patch.go\<close>: the setter applied to every node, in order.\<close>

fun filter_nodes :: "GitLib \<Rightarrow> setter_schema \<Rightarrow> string list \<Rightarrow> go_error + string list" where
  "filter_nodes G schema [] = Inr []"
| "filter_nodes G schema (n # ns) =
     (case gl_SetFilter G ''version'' schema n of
        Inl err \<Rightarrow> Inl (Wrapped ''failed to apply filter'' err)
      | Inr n' \<Rightarrow>
          (case filter_nodes G schema ns of Inl err \<Rightarrow> Inl err | Inr ns' \<Rightarrow> Inr (n' # ns')))"

definition promotion_setter :: "GitLib \<Rightarrow> StrategyPromotion \<Rightarrow> setter_schema" where
  "promotion_setter G promotion =
     \<lparr>ss_Definition = gl_SetterDefinitionPrefix G @ sp_PipelineNamespace promotion @ '':'' @ sp_PipelineName promotion
        @ '':'' @ env_Name (sp_Environment promotion),
      ss_Name = ''version'', ss_Value = sp_Version promotion\<rparr>"

definition patchManifests ::
  "'w GitPlatform \<Rightarrow> GitLib \<Rightarrow> string \<Rightarrow> StrategyPromotion \<Rightarrow> ('w, unit) go"
where
  "patchManifests P G inPath promotion =
     (let schema = promotion_setter G promotion;
          token = gl_Quote G setterShortHand;
          pipeline = \<lparr>kp_InputPath = inPath, kp_Token = token, kp_Filter = filter_nodes G schema, kp_OutputPath = inPath\<rparr>
      in do { _ \<leftarrow> perform (CallGit (GitSetShortHandRef setterShortHand)) (gp_SetShortHandRef P setterShortHand);
              attempt (git_do (GitExecutePipeline inPath token (ss_Definition schema) (ss_Value schema))
                         (gp_ExecutePipeline P pipeline))
                (Wrapped ''failed to execute pipeline'') ok })"

text \<open>\<open>errors.go\<close>: the message of an error that no code of the package returns.\<close>

definition ErrMissingSecretField_Error :: "string \<Rightarrow> string" where
  "ErrMissingSecretField_Error fieldName = ''missing field in Secret: '' @ fieldName"

text \<open>The first pull request from the branch.\<close>

fun find_source :: "string \<Rightarrow> GitPullRequest list \<Rightarrow> int option" where
  "find_source head [] = None"
| "find_source head (pr # prs) = (if gpr_Source pr = head then Some (gpr_Number pr) else find_source head prs)"

definition pr_title :: "StrategyPromotion \<Rightarrow> string" where
  "pr_title promotion =
     ''Promote '' @ sp_PipelineNamespace promotion @ ''/'' @ sp_PipelineName promotion @ '' in ''
       @ env_Name (sp_Environment promotion) @ '' to '' @ sp_Version promotion"

definition pr_description :: "StrategyPromotion \<Rightarrow> string" where
  "pr_description promotion =
     ''<details>'' @ [CHR 0x0A] @ ''<summary>metadata</summary>'' @ [CHR 0x0A] @ ''!!! DO NOT EDIT !!!'' @ [CHR 0x0A, CHR 0x0A]
       @ sp_PipelineNamespace promotion @ ''/'' @ sp_PipelineName promotion @ ''/'' @ env_Name (sp_Environment promotion)
       @ [CHR 0x0A] @ ''</details>''"

text \<open>Lines 177--232: the client is there; create the pull request, or else update the one that
  exists.\<close>

definition open_or_update ::
  "'w Provider \<Rightarrow> string \<Rightarrow> string \<Rightarrow> string \<Rightarrow> StrategyPromotion \<Rightarrow> ('w, GitPullRequest) go"
where
  "open_or_update client head baseBranch gitURL promotion =
     do { x \<leftarrow> pv_CreatePullRequest client
                 \<lparr>pri_RepositoryURL = gitURL, pri_Title = pr_title promotion, pri_Body = pr_description promotion,
                  pri_Head = head, pri_Base = baseBranch, pri_Commits = []\<rparr>;
          case x of
            Panicked msg \<Rightarrow> result (Panicked msg)
          | Returned (Inr pr) \<Rightarrow> ok pr
          | Returned (Inl _) \<Rightarrow>
              attempt (pv_ListPullRequests client gitURL) (Wrapped ''failed listing PRs'')
                (\<lambda>prList. case find_source head prList of
                   None \<Rightarrow> fail (PlainError (''failed to create or find existing PR: headBranch='' @ head
                                   @ '' baseBranch='' @ baseBranch))
                 | Some no \<Rightarrow>
                     attempt (pv_UpdatePullRequest client gitURL no \<lparr>upo_Title = pr_title promotion, upo_Body = ''''\<rparr>)
                       (Wrapped ''failed to update existing PR'') ok) }"

definition createPullRequest ::
  "'w PullRequestStrategy \<Rightarrow> GitLib \<Rightarrow> string \<Rightarrow> string \<Rightarrow> string \<Rightarrow> string \<Rightarrow> string \<Rightarrow> StrategyPromotion \<Rightarrow>
     ('w, GitPullRequest) go"
where
  "createPullRequest g G token head baseBranch gitProviderType gitURL promotion =
     (if token = '''' then fail ErrTokenIsEmpty
      else
        attempt (result (ParseURL G gitProviderType gitURL)) (Wrapped ''failed parsing git provider URL'')
          (\<lambda>parsedURL.
             attempt (prs_gitClientFactory g
                        \<lparr>gpc_Token = token, gpc_TokenType = ''oauth2'', gpc_Type = gitProviderType,
                         gpc_Domain = pu_Domain parsedURL, gpc_DestructiveCalls = False\<rparr>)
               (Wrapped ''failed creating git provider client'')
               (\<lambda>client. open_or_update client head baseBranch gitURL promotion)))"

definition headBranch :: "StrategyPromotion \<Rightarrow> string" where
  "headBranch promotion =
     ''promotion-'' @ sp_PipelineNamespace promotion @ ''-'' @ sp_PipelineName promotion @ ''-''
       @ env_Name (sp_Environment promotion)"

text \<open>Lines 103--119: commit what changed.\<close>

definition commit_if_dirty :: "'w GitPlatform \<Rightarrow> nat \<Rightarrow> ('w, unit) go" where
  "commit_if_dirty P gitClient =
     attempt (git_do (GitIsClean gitClient) (gp_IsClean P gitClient)) (Wrapped ''failed to determine worktree state'')
       (\<lambda>clean. if clean then ok ()
          else attempt (git_do (GitCommit gitClient ''promoting version'' ''Promotion Server'')
                          (gp_Commit P gitClient ''promoting version'' ''Promotion Server''))
                 (Wrapped ''failed to commit manifests'') (\<lambda>_. ok ()))"

text \<open>Lines 121--126.\<close>

definition push_branch :: "'w GitPlatform \<Rightarrow> nat \<Rightarrow> ('w, unit) go" where
  "push_branch P gitClient =
     do { x \<leftarrow> perform (CallGit (GitPush gitClient)) (gp_Push P gitClient);
          case x of
            Inr _ \<Rightarrow> ok ()
          | Inl err \<Rightarrow> if err_Error err \<noteq> ''already up-to-date'' then fail (Wrapped ''failed to push changes'' err)
                       else ok () }"

text \<open>Lines 85--137: the clone directory exists.\<close>

definition promote_in ::
  "'w PullRequestStrategy \<Rightarrow> 'w GitPlatform \<Rightarrow> GitLib \<Rightarrow> 'w Platform \<Rightarrow> string \<Rightarrow> PullRequestPromotion \<Rightarrow>
     StrategyPromotion \<Rightarrow> ('w, PromotionResult) go"
where
  "promote_in g P G K cloneDir prSpec promotion =
     attempt (fetchCredentials K (sp_PipelineNamespace promotion) (prp_SecretRef prSpec))
       (Wrapped ''failed to fetch credentials'') (\<lambda>creds.
     attempt (cloneRepo P G prSpec cloneDir creds) (Wrapped ''failed to clone repo'') (\<lambda>gitClient.
     attempt (git_do (GitSwitchBranch gitClient (headBranch promotion)) (gp_SwitchBranch P gitClient (headBranch promotion)))
       (Wrapped ''failed to switch branch'') (\<lambda>_.
     attempt (patchManifests P G cloneDir promotion) (Wrapped ''failed to patch manifest files'') (\<lambda>_.
     attempt (commit_if_dirty P gitClient) id (\<lambda>_.
     attempt (push_branch P gitClient) id (\<lambda>_.
     attempt (createPullRequest g G (case creds ''token'' of None \<Rightarrow> '''' | Some t \<Rightarrow> t) (headBranch promotion)
                (prp_BaseBranch prSpec) (prp_Type prSpec) (prp_URL prSpec) promotion)
       (Wrapped ''failed to create PR'') (\<lambda>pr.
     ok \<lparr>res_Location = gpr_Link pr\<rparr>)))))))"

text \<open>The directory is removed however \<open>promote_in\<close> ends, also by a panic; a failure to remove
  it is only logged.\<close>

definition PullRequest_Promote ::
  "'w PullRequestStrategy \<Rightarrow> 'w GitPlatform \<Rightarrow> GitLib \<Rightarrow> 'w Platform \<Rightarrow> Promotion \<Rightarrow> StrategyPromotion \<Rightarrow>
     ('w, PromotionResult) go"
where
  "PullRequest_Promote g P G K promSpec promotion =
     (case st_PullRequest (pr_Strategy promSpec) of
        None \<Rightarrow> fail ErrSpecIsNil
      | Some prSpec \<Rightarrow>
          (case gitProviderIsValid G (prp_Type prSpec) of
             (_, Some err) \<Rightarrow> fail (Wrapped ''invalid git provider type'' err)
           | (_, None) \<Rightarrow>
               if prp_Type prSpec = '''' then fail ErrGitProviderTypeEmpty
               else
                 attempt (git_do (GitMkdirTemp ''promotion-'') (gp_MkdirTemp P ''promotion-''))
                   (Wrapped ''failed to create temporary clone dir'')
                   (\<lambda>cloneDir. do { x \<leftarrow> promote_in g P G K cloneDir prSpec promotion;
                                    _ \<leftarrow> perform (CallGit (GitRemoveAll cloneDir)) (gp_RemoveAll P cloneDir);
                                    result x })))"

definition PullRequest ::
  "'w PullRequestStrategy \<Rightarrow> 'w GitPlatform \<Rightarrow> GitLib \<Rightarrow> 'w Platform \<Rightarrow> 'w strategy"
where
  "PullRequest g P G K = \<lparr>s_Handles = PullRequest_Handles, s_Promote = PullRequest_Promote g P G K\<rparr>"

text \<open>Dashes in the names make the branches of different pipelines coincide.\<close>

lemma headBranch_ambiguous:
  "headBranch (p\<lparr>sp_PipelineNamespace := ns @ ''-'' @ n, sp_PipelineName := m\<rparr>) =
   headBranch (p\<lparr>sp_PipelineNamespace := ns, sp_PipelineName := n @ ''-'' @ m\<rparr>)"
  by (simp add: headBranch_def)

section \<open>Its contract\<close>

locale provider_factory =
  fixes g :: "'w PullRequestStrategy"
  assumes factory_git_only: "git_only (prs_gitClientFactory g config)"
    and factory_contract: "run_state (prs_gitClientFactory g config) s = (Returned (Inr pv), t) \<Longrightarrow> git_provider pv"


lemma attempt_from:
  assumes "\<And>a s t. run_state m s = (Returned (Inr a), t) \<Longrightarrow> Good a"
  shows "attempt m wrap k = attempt m wrap (\<lambda>a. if Good a then k a else fail (PlainError ''''))"
proof (rule state.expand, rule ext)
  fix s
  obtain x t where "run_state m s = (x, t)" by fastforce
  with assms [of s] show "run_state (attempt m wrap k) s = run_state (attempt m wrap (\<lambda>a. if Good a then k a else fail (PlainError ''''))) s"
    by (auto simp: attempt_def split: outcome.split sum.split)
qed

lemma git_only_attempt_from:
  assumes "git_only m" and "\<And>a s t. run_state m s = (Returned (Inr a), t) \<Longrightarrow> git_only (k a)"
  shows "git_only (attempt m wrap k)"
proof -
  have "git_only (attempt m wrap (\<lambda>a. if git_only (k a) then k a else fail (PlainError '''')))"
    by (intro git_only_attempt assms(1)) (simp add: git_only_result)
  moreover have "attempt m wrap k = attempt m wrap (\<lambda>a. if git_only (k a) then k a else fail (PlainError ''''))"
    by (rule attempt_from) (rule assms(2))
  ultimately show ?thesis by (rule ssubst [rotated])
qed

lemma git_only_quiet: "git_only m \<Longrightarrow> emits quiet m"
proof -
  have "is_git c \<Longrightarrow> quiet c" for c by (cases c) auto
  then show "git_only m \<Longrightarrow> emits quiet m" by (auto simp: git_only_def elim: emits_mono)
qed

lemma git_only_caches: "git_only m \<Longrightarrow> keeps cachesMap m"
  by (simp add: git_only_def)

lemma git_only_cloneRepo: "git_only (cloneRepo P G prSpec dir creds)"
  unfolding cloneRepo_def by (intro git_only_intros)

lemma git_only_patchManifests: "git_only (patchManifests P G dir promotion)"
  unfolding patchManifests_def Let_def by (intro git_only_intros)

lemma git_only_commit_push: "git_only (commit_if_dirty P c)" "git_only (push_branch P c)"
  unfolding commit_if_dirty_def push_branch_def by (intro git_only_intros)+

context git_provider
begin

lemma git_only_open_or_update: "git_only (open_or_update pv head base url promotion)"
  unfolding open_or_update_def by (intro git_only_intros create_git_only list_git_only update_git_only)

end

context provider_factory
begin

lemma git_only_createPullRequest: "git_only (createPullRequest g G token head base ty url promotion)"
  unfolding createPullRequest_def
  by (intro git_only_intros git_only_attempt_from factory_git_only git_provider.git_only_open_or_update factory_contract)

lemmas step_intros = git_only_cloneRepo git_only_patchManifests git_only_commit_push git_only_createPullRequest

lemma promote_in_quiet: "emits quiet (promote_in g P G K dir prSpec promotion)"
  unfolding promote_in_def fetchCredentials_def
  by (intro emits_attempt emits_returning emits_ops emits_return git_only_quiet [OF step_intros(1)]
      git_only_quiet [OF step_intros(2)] git_only_quiet [OF step_intros(3)] git_only_quiet [OF step_intros(4)]
      git_only_quiet [OF step_intros(5)] emits_perform) simp_all

lemma promote_in_caches: "keeps cachesMap (promote_in g P G K dir prSpec promotion)"
  unfolding promote_in_def fetchCredentials_def
  by (intro keeps_intros git_only_caches [OF step_intros(1)] git_only_caches [OF step_intros(2)]
      git_only_caches [OF step_intros(3)] git_only_caches [OF step_intros(4)] git_only_caches [OF step_intros(5)])

end

sublocale provider_factory \<subseteq> strategy: promotion_strategy "PullRequest g P G K" for P G K
proof unfold_locales
  show "emits quiet (s_Promote (PullRequest g P G K) spec prom)" for spec prom
    unfolding PullRequest_def PullRequest_Promote_def
    by (auto intro!: emits_intros promote_in_quiet split: option.split prod.split)
  show "keeps cachesMap (s_Promote (PullRequest g P G K) spec prom)" for spec prom
    unfolding PullRequest_def PullRequest_Promote_def
    by (auto intro!: keeps_intros promote_in_caches split: option.split prod.split)
qed

text \<open>The default factory.\<close>

lemma factory_create:
  assumes "run_state (NewGitProviderClientFactory P G config) s = (Returned (Inr pv), t)"
  shows "\<exists>opts. run_state (Factory_Create P G (gpc_Type config) opts) s = (Returned (Inr pv), t)"
  using assms
  by (auto simp: NewGitProviderClientFactory_def provider_for_def provider_names provider_types
      split: if_splits sum.splits)

sublocale git_platform \<subseteq> default: provider_factory "\<lparr>prs_gitClientFactory = NewGitProviderClientFactory P G\<rparr>" for G
proof (rule provider_factory.intro, goal_cases)
  case (1 config)
  then show ?case by (simp add: git_only_factory)
next
  case (2 config s pv t)
  then show ?case using factory_create [of P G config s pv t] Factory_Create_contract by auto
qed

context git_platform
begin

lemma default_pull_request_strategy:
  "promotion_strategy (PullRequest \<lparr>prs_gitClientFactory = NewGitProviderClientFactory P G\<rparr> P' G' K)"
  by (rule default.strategy.promotion_strategy_axioms)

end

end
