(* ===== verification/Pull_Request_Properties.thy ===== *)
theory Pull_Request_Properties
  imports Pull_Request_Strategy
begin

text \<open>
  What the pull request strategy guarantees: the clone directory is removed on every path, the
  steps of a promotion come in order and nothing is published before the manifests are patched,
  a branch has one pull request however often it is promoted, and the inputs on which the
  strategy refuses or panics. The last section runs it on a hosting service in memory.
\<close>

section \<open>Steps of a promotion\<close>

definition clone_steps ::
  "GitLib \<Rightarrow> string \<Rightarrow> nat \<Rightarrow> PullRequestPromotion \<Rightarrow> StrategyPromotion \<Rightarrow> call list"
where
  "clone_steps G dir c prSpec promotion =
     [CallGetSecret \<lparr>ok_Namespace = sp_PipelineNamespace promotion, ok_Name = prp_SecretRef prSpec\<rparr>,
      CallGit (GitNewClient dir), CallGit (GitClone c (prp_URL prSpec) (prp_BaseBranch prSpec)), CallGit (GitClose c),
      CallGit (GitSwitchBranch c (headBranch promotion)), CallGit (GitSetShortHandRef setterShortHand),
      CallGit (GitExecutePipeline dir (gl_Quote G setterShortHand) (ss_Definition (promotion_setter G promotion))
                 (sp_Version promotion)),
      CallGit (GitIsClean c)]"

fun publishing :: "call \<Rightarrow> bool" where
  "publishing (CallGit c) = publishes c"
| "publishing _ = False"

text \<open>All steps up to the push were made, and after it only git was talked to.\<close>

definition pushed_after_steps ::
  "GitLib \<Rightarrow> string \<Rightarrow> PullRequestPromotion \<Rightarrow> StrategyPromotion \<Rightarrow> call list \<Rightarrow> bool"
where
  "pushed_after_steps G dir prSpec promotion d \<longleftrightarrow>
     (\<exists>c commit rest.
        d = clone_steps G dir c prSpec promotion @ commit @ CallGit (GitPush c) # rest \<and>
        (commit = [] \<or> commit = [CallGit (GitCommit c ''promoting version'' ''Promotion Server'')]) \<and>
        list_all is_git rest)"

definition stepwise ::
  "GitLib \<Rightarrow> string \<Rightarrow> PullRequestPromotion \<Rightarrow> StrategyPromotion \<Rightarrow> (go_error + 'a) outcome \<Rightarrow> call list \<Rightarrow> bool"
where
  "stepwise G dir prSpec promotion x d \<longleftrightarrow>
     pushed_after_steps G dir prSpec promotion d \<or>
     (\<exists>err. x = Returned (Inl err)) \<and> list_all (\<lambda>c. \<not> publishing c) d"

lemma git_only_trace: "git_only m \<Longrightarrow> run_state m s = (x, t) \<Longrightarrow> \<exists>d. trace t = trace s @ d \<and> list_all is_git d"
  unfolding git_only_def by (meson emits_runE)

context provider_factory
begin

lemma after_push:
  "wp (attempt (createPullRequest g G token head base ty url promotion) wrap (\<lambda>pr. ok \<lparr>res_Location = gpr_Link pr\<rparr>))
     (\<lambda>x t. \<exists>d. trace t = trace s @ d \<and> list_all is_git d) s"
proof (rule wp_runI)
  fix x t
  assume run: "run_state (attempt (createPullRequest g G token head base ty url promotion) wrap
      (\<lambda>pr. ok \<lparr>res_Location = gpr_Link pr\<rparr>)) s = (x, t)"
  show "\<exists>d. trace t = trace s @ d \<and> list_all is_git d"
    by (rule git_only_trace [OF _ run]) (intro git_only_intros git_only_createPullRequest)
qed

lemma after_push_steps:
  assumes "trace s' = trace s @ clone_steps G dir c prSpec promotion @ commit @ [CallGit (GitPush c)]"
    and "commit = [] \<or> commit = [CallGit (GitCommit c ''promoting version'' ''Promotion Server'')]"
  shows "wp (attempt (createPullRequest g G token head base ty url promotion) wrap (\<lambda>pr. ok \<lparr>res_Location = gpr_Link pr\<rparr>))
     (\<lambda>x t. \<exists>d. trace t = trace s @ d \<and> stepwise G dir prSpec promotion x d) s'"
proof (rule wp_mono [OF after_push])
  fix x and t :: "'w sys"
  assume "\<exists>d. trace t = trace s' @ d \<and> list_all is_git d"
  then obtain d where d: "trace t = trace s' @ d" "list_all is_git d" by blast
  have "pushed_after_steps G dir prSpec promotion (clone_steps G dir c prSpec promotion @ commit @ CallGit (GitPush c) # d)"
    unfolding pushed_after_steps_def using assms(2) d(2) by blast
  with d(1) assms(1) show "\<exists>d. trace t = trace s @ d \<and> stepwise G dir prSpec promotion x d"
    by (auto simp: stepwise_def)
qed

end

text \<open>A stage before the push: if it succeeds with \<open>a\<close>, its calls are one of \<open>S a\<close>; it does
  not panic and publishes nothing.\<close>

definition stage :: "('a \<Rightarrow> call list set) \<Rightarrow> ('w, 'a) go \<Rightarrow> bool" where
  "stage S m \<longleftrightarrow>
     (\<forall>s. wp m (\<lambda>x t. \<exists>d. trace t = trace s @ d \<and> list_all (\<lambda>c. \<not> publishing c) d \<and>
        (case x of Returned (Inr a) \<Rightarrow> d \<in> S a | Returned (Inl _) \<Rightarrow> True | Panicked _ \<Rightarrow> False)) s)"

lemma stage_attempt:
  fixes m :: "('w, 'a) go" and k :: "'a \<Rightarrow> ('w, 'b) go" and s1 :: "'w sys"
  assumes "stage S m" and "trace s1 = trace s @ d0" and "list_all (\<lambda>c. \<not> publishing c) d0"
    and "\<And>a d s2. d \<in> S a \<Longrightarrow> trace s2 = trace s @ d0 @ d \<Longrightarrow> list_all (\<lambda>c. \<not> publishing c) (d0 @ d) \<Longrightarrow>
      wp (k a) (\<lambda>x t. \<exists>d. trace t = trace s @ d \<and> stepwise G dir prSpec promotion x d) s2"
  shows "wp (attempt m wrap k) (\<lambda>x t. \<exists>d. trace t = trace s @ d \<and> stepwise G dir prSpec promotion x d) s1"
  unfolding wp_attempt
proof (rule wp_mono)
  show "wp m (\<lambda>x t. \<exists>d. trace t = trace s1 @ d \<and> list_all (\<lambda>c. \<not> publishing c) d \<and>
      (case x of Returned (Inr a) \<Rightarrow> d \<in> S a | Returned (Inl _) \<Rightarrow> True | Panicked _ \<Rightarrow> False)) s1"
    using assms(1) by (simp add: stage_def)
next
  fix x :: "(go_error + 'a) outcome" and t :: "'w sys"
  assume "\<exists>d. trace t = trace s1 @ d \<and> list_all (\<lambda>c. \<not> publishing c) d \<and>
      (case x of Returned (Inr a) \<Rightarrow> d \<in> S a | Returned (Inl _) \<Rightarrow> True | Panicked _ \<Rightarrow> False)"
  then obtain d where d: "trace t = trace s @ d0 @ d" "list_all (\<lambda>c. \<not> publishing c) (d0 @ d)"
    "case x of Returned (Inr a) \<Rightarrow> d \<in> S a | Returned (Inl _) \<Rightarrow> True | Panicked _ \<Rightarrow> False"
    using assms(2,3) by auto
  show "case x of
      Panicked msg \<Rightarrow> \<exists>d. trace t = trace s @ d \<and> stepwise G dir prSpec promotion (Panicked msg) d
    | Returned (Inl err) \<Rightarrow> \<exists>d. trace t = trace s @ d \<and> stepwise G dir prSpec promotion (Returned (Inl (wrap err))) d
    | Returned (Inr a) \<Rightarrow> wp (k a) (\<lambda>x t. \<exists>d. trace t = trace s @ d \<and> stepwise G dir prSpec promotion x d) t"
    using d assms(4) [OF _ d(1,2)] by (auto simp: stepwise_def split: outcome.splits sum.splits)
qed

lemma stage_fetchCredentials:
  "stage (\<lambda>_. {[CallGetSecret \<lparr>ok_Namespace = ns, ok_Name = ref\<rparr>]}) (fetchCredentials K ns ref)"
  by (auto simp: stage_def fetchCredentials_def wp_rules op_defs split: sum.split)

lemma stage_cloneRepo:
  "stage (\<lambda>c. {[CallGit (GitNewClient dir), CallGit (GitClone c (prp_URL prSpec) (prp_BaseBranch prSpec)),
      CallGit (GitClose c)]}) (cloneRepo P G prSpec dir creds)"
  by (auto simp: stage_def cloneRepo_def wp_rules split: sum.split)

lemma stage_call: "\<not> publishes c \<Longrightarrow> stage (\<lambda>_. {[CallGit c]}) (git_do c f)"
  by (auto simp: stage_def wp_rules split: sum.split)

lemma stage_patchManifests:
  "stage (\<lambda>_. {[CallGit (GitSetShortHandRef setterShortHand),
     CallGit (GitExecutePipeline dir (gl_Quote G setterShortHand) (ss_Definition (promotion_setter G promotion))
                (ss_Value (promotion_setter G promotion)))]})
     (patchManifests P G dir promotion)"
  by (auto simp: stage_def patchManifests_def wp_rules Let_def split: sum.split)

lemma stage_commit_if_dirty:
  "stage (\<lambda>_. {[CallGit (GitIsClean c)],
     [CallGit (GitIsClean c), CallGit (GitCommit c ''promoting version'' ''Promotion Server'')]})
     (commit_if_dirty P c)"
  by (auto simp: stage_def commit_if_dirty_def wp_rules split: sum.split)

context provider_factory
begin

lemma push_steps:
  assumes "trace s' = trace s @ clone_steps G dir c prSpec promotion @ commit"
    and "commit = [] \<or> commit = [CallGit (GitCommit c ''promoting version'' ''Promotion Server'')]"
  shows "wp (attempt (push_branch P c) id
      (\<lambda>_. attempt (createPullRequest g G token head base ty url promotion) wrap (\<lambda>pr. ok \<lparr>res_Location = gpr_Link pr\<rparr>)))
     (\<lambda>x t. \<exists>d. trace t = trace s @ d \<and> stepwise G dir prSpec promotion x d) s'"
proof -
  have "pushed_after_steps G dir prSpec promotion (clone_steps G dir c prSpec promotion @ commit @ [CallGit (GitPush c)])"
    unfolding pushed_after_steps_def using assms(2) by (intro exI [of _ c] exI [of _ commit] exI [of _ "[]"]) simp
  then have failed: "stepwise G dir prSpec promotion (x :: (go_error + PromotionResult) outcome)
      (clone_steps G dir c prSpec promotion @ commit @ [CallGit (GitPush c)])" for x
    by (simp add: stepwise_def)
  define tail where "tail = attempt (createPullRequest g G token head base ty url promotion) wrap
      (\<lambda>pr. ok \<lparr>res_Location = gpr_Link pr\<rparr>)"
  have "wp tail (\<lambda>x t. \<exists>d. trace t = trace s @ d \<and> stepwise G dir prSpec promotion x d) s2"
    if "trace s2 = trace s' @ [CallGit (GitPush c)]" for s2
    unfolding tail_def by (rule after_push_steps [OF _ assms(2)]) (simp add: that assms(1))
  then show ?thesis
    unfolding push_branch_def tail_def [symmetric]
    by (simp add: wp_rules assms(1) failed split: sum.split)
qed

lemma promote_in_stepwise:
  "wp (promote_in g P G K dir prSpec promotion)
     (\<lambda>x t. \<exists>d. trace t = trace s @ d \<and> stepwise G dir prSpec promotion x d) s"
  unfolding promote_in_def
  apply (rule stage_attempt [OF stage_fetchCredentials, where ?d0.0 = "[]"], simp, simp)
  apply (rule stage_attempt [OF stage_cloneRepo], assumption, assumption)
  apply (rule stage_attempt [OF stage_call], simp, assumption, assumption)
  apply (rule stage_attempt [OF stage_patchManifests], assumption, assumption)
  apply (rule stage_attempt [OF stage_commit_if_dirty], assumption, assumption)
  apply (elim insertE emptyE)
   apply (rule push_steps [where commit = "[]"]; simp add: clone_steps_def promotion_setter_def)
  apply (rule push_steps; auto simp: clone_steps_def promotion_setter_def)
  done

end

section \<open>Pull requests at the hosting service\<close>

text \<open>What the service is known to do with the open pull requests \<open>prs\<close> of the repository
  \<open>hnd\<close>: it refuses a second one for a branch, numbers them apart, lists them all, and edits the
  title of the one with the given number. Nobody else changes them meanwhile.\<close>

abbreviation retitle :: "int \<Rightarrow> string \<Rightarrow> ggp_PullRequestInfo \<Rightarrow> ggp_PullRequestInfo" where
  "retitle n title j \<equiv> (if pi_Number j = n then j\<lparr>pi_Title := title\<rparr> else j)"

locale hosting = git_retry P "\<lambda>\<sigma> \<tau>. idles \<sigma> \<tau> \<and> prs (world (fst \<tau>)) = prs (world (fst \<sigma>))"
  for P :: "'w GitPlatform" and prs :: "'w \<Rightarrow> ggp_PullRequestInfo list" +
  fixes hnd :: nat
  assumes get_law: "gp_GetRepository P client ref w = (x, w') \<Longrightarrow>
      prs w' = prs w \<and> (\<forall>repo. x = Inr repo \<longrightarrow> gr_Handle repo = hnd)"
    and create_law: "gp_CreatePullRequest P hnd title head base desc w = (y, w') \<Longrightarrow>
      (case y of
         Inl err \<Rightarrow> prs w' = prs w
       | Inr i \<Rightarrow> (\<forall>j \<in> set (prs w). pi_SourceBranch j \<noteq> head \<and> pi_Number j \<noteq> pi_Number i) \<and>
           pi_SourceBranch i = head \<and> pi_Title i = title \<and> prs w' = prs w @ [i])"
    and list_law: "gp_ListPullRequests P hnd w = (z, w') \<Longrightarrow> prs w' = prs w \<and> (\<forall>l. z = Inr l \<longrightarrow> l = prs w)"
    and edit_law: "gp_EditPullRequest P hnd n title w = (y, w') \<Longrightarrow>
      (case y of Inl err \<Rightarrow> prs w' = prs w | Inr i \<Rightarrow> prs w' = map (retitle n title) (prs w))"

sublocale hosting \<subseteq> platform: git_platform P
  by unfold_locales (auto intro: retry_run_mono [OF OnError_retries])

text \<open>An invariant that the promotions of pipelines keep: numbers are distinct and a branch has at
  most one pull request.\<close>

definition one_per_branch :: "ggp_PullRequestInfo list \<Rightarrow> bool" where
  "one_per_branch l \<longleftrightarrow> distinct (map pi_Number l) \<and> distinct (map pi_SourceBranch l)"

text \<open>Afterwards the branch has exactly one pull request, with the new title, and the others are
  untouched.\<close>

definition upserted :: "string \<Rightarrow> string \<Rightarrow> ggp_PullRequestInfo list \<Rightarrow> ggp_PullRequestInfo list \<Rightarrow> bool" where
  "upserted head title l l' \<longleftrightarrow>
     one_per_branch l' \<and>
     (\<exists>i. filter (\<lambda>j. pi_SourceBranch j = head) l' = [i] \<and> pi_Title i = title) \<and>
     filter (\<lambda>j. pi_SourceBranch j \<noteq> head) l' = filter (\<lambda>j. pi_SourceBranch j \<noteq> head) l"

definition upsert_result ::
  "string \<Rightarrow> string \<Rightarrow> ggp_PullRequestInfo list \<Rightarrow> (go_error + 'a) outcome \<Rightarrow> ggp_PullRequestInfo list \<Rightarrow> bool"
where
  "upsert_result head title l x l' \<longleftrightarrow>
     (case x of Returned (Inr _) \<Rightarrow> upserted head title l l' | _ \<Rightarrow> l' = l)"

lemma upsert_result_simps [simp]:
  "upsert_result head title l (Returned (Inr pr)) l' \<longleftrightarrow> upserted head title l l'"
  "upsert_result head title l (Returned (Inl err)) l' \<longleftrightarrow> l' = l"
  "upsert_result head title l (Panicked msg) l' \<longleftrightarrow> l' = l"
  by (simp_all add: upsert_result_def)

lemma upserted_created:
  assumes "one_per_branch l" and "\<forall>j \<in> set l. pi_SourceBranch j \<noteq> head \<and> pi_Number j \<noteq> pi_Number i"
    and "pi_SourceBranch i = head" and "pi_Title i = title"
  shows "upserted head title l (l @ [i])"
  using assms by (auto simp: upserted_def one_per_branch_def filter_empty_conv)

lemma retitle_frame:
  "pi_SourceBranch (retitle n title j) = pi_SourceBranch j" "pi_Number (retitle n title j) = pi_Number j"
  by simp_all

lemma one_source:
  assumes "one_per_branch l" and "i \<in> set l"
  shows "filter (\<lambda>j. pi_SourceBranch j = pi_SourceBranch i) l = [i]"
  using assms
proof (induction l)
  case (Cons a l)
  show ?case
  proof (cases "a = i")
    case True
    with Cons.prems have "pi_SourceBranch i \<notin> pi_SourceBranch ` set l" by (simp add: one_per_branch_def)
    then have "pi_SourceBranch j \<noteq> pi_SourceBranch i" if "j \<in> set l" for j
      using that by (metis imageI)
    with True show ?thesis by (simp add: filter_empty_conv)
  next
    case False
    with Cons show ?thesis by (auto simp: one_per_branch_def)
  qed
qed simp

lemma upserted_updated:
  assumes one: "one_per_branch l" and i: "i \<in> set l" "pi_SourceBranch i = head"
  shows "upserted head title l (map (retitle (pi_Number i) title) l)"
proof -
  let ?r = "retitle (pi_Number i) title"
  have "one_per_branch (map ?r l)"
    using one by (simp add: one_per_branch_def comp_def retitle_frame del: if_image_distrib cong: map_cong)
  moreover have "filter (\<lambda>j. pi_SourceBranch j = head) (map ?r l) = [?r i]"
    using one_source [OF one i(1)] by (simp add: filter_map comp_def retitle_frame i(2))
  moreover have "?r j = j" if "j \<in> set l" "pi_SourceBranch j \<noteq> head" for j
    using one i that by (auto simp: one_per_branch_def distinct_map inj_on_def)
  then have "filter (\<lambda>j. pi_SourceBranch j \<noteq> head) (map ?r l) = filter (\<lambda>j. pi_SourceBranch j \<noteq> head) l"
    by (auto simp: filter_map comp_def retitle_frame intro!: map_idI)
  ultimately show ?thesis unfolding upserted_def by auto
qed

lemma find_source_first:
  "find_source head (map to_PullRequest l) = Some no \<Longrightarrow> \<exists>i \<in> set l. pi_SourceBranch i = head \<and> pi_Number i = no"
  by (induction l) (auto simp: to_PullRequest_def split: if_splits)

context hosting
begin

abbreviation unchanged :: "'w sys \<Rightarrow> 'w sys \<Rightarrow> bool" where
  "unchanged s t \<equiv> prs (world t) = prs (world s)"

lemmas laws = get_law [OF surjective_pairing, THEN conjunct1]
  get_law [OF surjective_pairing, THEN conjunct2, rule_format]
  list_law [OF surjective_pairing, THEN conjunct1] list_law [OF surjective_pairing, THEN conjunct2, rule_format]
  create_law [OF surjective_pairing] edit_law [OF surjective_pairing]

lemma repository_found:
  "wp (ggp_GetRepository P G client url)
     (\<lambda>x t. unchanged s t \<and> (\<forall>repo. x = Returned (Inr repo) \<longrightarrow> gr_Handle repo = hnd)) s"
proof (cases "gl_ParseOrgRepositoryURL G url")
  case (Inl err)
  then show ?thesis by (simp add: ggp_GetRepository_def wp_rules)
next
  case (Inr ref0)
  define ref where "ref = WithCombinedSubOrgs (ref0\<lparr>orr_Domain := AddSchemeToDomain (orr_Domain ref0)\<rparr>)"
  let ?get = "perform (CallGit (GgpGetRepository client ref)) (gp_GetRepository P client ref)"
  let ?m = "OnError P IsGitNotFound (assigning ?get (\<lambda>x v. v\<lparr>cv_repo := x\<rparr>))"
  have keep: "preserves (unchanged s) ?get" by (simp add: preserves_def run_perform laws)
  have "wp ?m (\<lambda>x t. unchanged s t \<and> (\<forall>v. x = Returned (Inr v) \<longrightarrow> (\<exists>repo. cv_repo v = Some repo \<and> gr_Handle repo = hnd))) s"
  proof (rule wp_runI)
    fix x t
    assume run: "run_state ?m s = (x, t)"
    show "unchanged s t \<and> (\<forall>v. x = Returned (Inr v) \<longrightarrow> (\<exists>repo. cv_repo v = Some repo \<and> gr_Handle repo = hnd))"
      using OnError_preserves [OF run _ keep] laws(2) by (auto simp: run_perform)
  qed
  then show ?thesis
    by (auto simp: ggp_GetRepository_def Inr retried_repository_def ref_def [symmetric] wp_rules elim!: wp_mono
        split: outcome.splits sum.splits option.splits)
qed

lemma create_upserts:
  assumes "pri_Commits input = []" and "one_per_branch (prs (world s))"
  shows "wp (GitHub_CreatePullRequest P G client input)
    (\<lambda>x t. upsert_result (pri_Head input) (pri_Title input) (prs (world s)) x (prs (world t))) s"
proof (cases "GetGitProviderUrl G (pri_RepositoryURL input)")
  case (Inl err)
  then show ?thesis by (simp add: GitHub_CreatePullRequest_def wp_rules)
next
  case (Inr url)
  have created: "wp (write_and_open P G input [] False repo)
      (\<lambda>x t. upsert_result (pri_Head input) (pri_Title input) (prs (world s)) x (prs (world t))) s'" if "unchanged s s'" "gr_Handle repo = hnd" for repo s'
  proof -
    let ?call = "gp_CreatePullRequest P hnd (pri_Title input) (pri_Head input) (pri_Base input) (pri_Body input) (world s')"
    show ?thesis
    proof (cases "fst ?call")
      case (Inl err)
      with that laws(5) [of "pri_Title input" "pri_Head input" "pri_Base input" "pri_Body input" "world s'"] show ?thesis
        by (simp add: write_and_open_def WriteFilesToBranch_def ggp_CreatePullRequest_def wp_rules)
    next
      case (Inr i)
      with that laws(5) [of "pri_Title input" "pri_Head input" "pri_Base input" "pri_Body input" "world s'"]
        upserted_created [OF assms(2), of "pri_Head input" i "pri_Title input"] show ?thesis
        by (simp add: write_and_open_def WriteFilesToBranch_def ggp_CreatePullRequest_def wp_rules)
    qed
  qed
  have "wp (attempt (ggp_GetRepository P G client url) id (write_and_open P G input [] False))
      (\<lambda>x t. upsert_result (pri_Head input) (pri_Title input) (prs (world s)) x (prs (world t))) s"
    unfolding wp_attempt
    by (rule wp_mono [OF repository_found]) (auto simp: created split: outcome.split sum.split)
  then show ?thesis
    using Inr assms(1) by (simp add: GitHub_CreatePullRequest_def wp_attempt wp_return)
qed

lemma list_found:
  "wp (GitHub_ListPullRequests P G client url)
     (\<lambda>x t. unchanged s t \<and> (\<forall>l. x = Returned (Inr l) \<longrightarrow> l = map to_PullRequest (prs (world s)))) s"
proof -
  have "wp (ggp_ListPullRequests P repo)
      (\<lambda>x t. unchanged s t \<and> (\<forall>l. x = Returned (Inr l) \<longrightarrow> l = map to_PullRequest (prs (world s)))) s'"
    if "unchanged s s'" "gr_Handle repo = hnd" for repo s'
    using that laws(3,4) [of "world s'"]
    by (auto simp: ggp_ListPullRequests_def wp_rules split: sum.split)
  then show ?thesis
    unfolding GitHub_ListPullRequests_def provider_ListPullRequests_def wp_attempt
    by (intro wp_mono [OF repository_found]) (auto split: outcome.split sum.split)
qed

lemma update_upserts:
  assumes "one_per_branch (prs (world s))" and "i \<in> set (prs (world s))" "pi_SourceBranch i = head"
  shows "wp (GitHub_UpdatePullRequest P G client url (pi_Number i) options)
    (\<lambda>x t. upsert_result head (upo_Title options) (prs (world s)) x (prs (world t))) s"
proof -
  have "wp (ggp_UpdatePullRequest P repo (pi_Number i) (upo_Title options))
      (\<lambda>x t. upsert_result head (upo_Title options) (prs (world s)) x (prs (world t))) s'"
    if "unchanged s s'" "gr_Handle repo = hnd" for repo s'
    using that laws(6) [of "pi_Number i" "upo_Title options" "world s'"] upserted_updated [OF assms, of "upo_Title options"]
    by (auto simp: ggp_UpdatePullRequest_def wp_rules split: sum.splits)
  then show ?thesis
    unfolding GitHub_UpdatePullRequest_def provider_UpdatePullRequest_def wp_attempt
    by (intro wp_mono [OF repository_found]) (auto split: outcome.split sum.split)
qed

text \<open>Create, or find and update.\<close>

lemma open_or_update_upserts:
  assumes "one_per_branch (prs (world s))"
  shows "wp (open_or_update (GitHubProvider P G client) head base url promotion)
    (\<lambda>x t. upsert_result head (pr_title promotion) (prs (world s)) x (prs (world t))) s"
proof -
  let ?Q = "\<lambda>x t. upsert_result head (pr_title promotion) (prs (world s)) x (prs (world t))"
  let ?opts = "\<lparr>upo_Title = pr_title promotion, upo_Body = ''''\<rparr>"
  have update: "wp (attempt (GitHub_UpdatePullRequest P G client url no ?opts) (Wrapped ''failed to update existing PR'') ok) ?Q s2"
    if "unchanged s s2" "find_source head (map to_PullRequest (prs (world s))) = Some no" for no s2
  proof -
    from find_source_first [OF that(2)] obtain i where
      i: "i \<in> set (prs (world s))" "pi_SourceBranch i = head" "pi_Number i = no" by blast
    show ?thesis
      unfolding wp_attempt i(3) [symmetric]
      by (rule wp_mono [OF update_upserts [where head = head]])
         (use i assms that(1) in \<open>auto simp: wp_rules split: outcome.splits sum.splits\<close>)
  qed
  have list: "wp (attempt (GitHub_ListPullRequests P G client url) (Wrapped ''failed listing PRs'')
      (\<lambda>prList. case find_source head prList of
         None \<Rightarrow> fail (PlainError (''failed to create or find existing PR: headBranch='' @ head @ '' baseBranch='' @ base))
       | Some no \<Rightarrow> attempt (GitHub_UpdatePullRequest P G client url no ?opts) (Wrapped ''failed to update existing PR'') ok))
      ?Q s1" if "unchanged s s1" for s1
    unfolding wp_attempt [of "GitHub_ListPullRequests P G client url"]
    by (rule wp_mono [OF list_found])
       (use that update in \<open>auto simp: wp_return split: outcome.splits sum.splits option.split\<close>)
  show ?thesis
    unfolding open_or_update_def GitHubProvider_def Provider.select_convs wp_bind
    by (rule wp_mono [OF create_upserts])
       (use assms list in \<open>auto simp: wp_return split: outcome.splits sum.splits\<close>)
qed

end

section \<open>A hosting service in memory\<close>

text \<open>One repository: its open pull requests, whether the promotion changes a manifest, and the
  secrets of the cluster.\<close>

record git_store =
  gs_Secrets :: "(ObjectKey \<times> Secret) list"
  gs_PullRequests :: "ggp_PullRequestInfo list"
  gs_Clean :: bool

fun mem_OnError ::
  "nat \<Rightarrow> (go_error \<Rightarrow> bool) \<Rightarrow> ('w retry_state, go_error option) state \<Rightarrow> ('w retry_state, go_error option) state"
where
  "mem_OnError 0 retriable fn = result None"
| "mem_OnError (Suc n) retriable fn =
     do { r \<leftarrow> fn;
          case r of
            None \<Rightarrow> result None
          | Some err \<Rightarrow> if retriable err \<and> 0 < n then mem_OnError n retriable fn else result (Some err) }"

text \<open>Creating a second pull request for a branch is refused.\<close>

definition mem_CreatePullRequest ::
  "string \<Rightarrow> string \<Rightarrow> string \<Rightarrow> git_store \<Rightarrow> (go_error + ggp_PullRequestInfo) \<times> git_store"
where
  "mem_CreatePullRequest title head desc w =
     (if list_ex (\<lambda>i. pi_SourceBranch i = head) (gs_PullRequests w) then (Inl (GitError False ''already exists''), w)
      else (let pr = \<lparr>pi_Title = title, pi_Description = desc, pi_WebURL = ''https://github.com/org/config/pull'',
                      pi_Merged = False, pi_SourceBranch = head, pi_Number = foldr max (map pi_Number (gs_PullRequests w)) 0 + 1\<rparr>
            in (Inr pr, w\<lparr>gs_PullRequests := gs_PullRequests w @ [pr]\<rparr>)))"

definition mem_EditPullRequest ::
  "int \<Rightarrow> string \<Rightarrow> git_store \<Rightarrow> (go_error + ggp_PullRequestInfo) \<times> git_store"
where
  "mem_EditPullRequest number title w =
     (case find (\<lambda>i. pi_Number i = number) (gs_PullRequests w) of
        None \<Rightarrow> (Inl (GitError True ''not found''), w)
      | Some i \<Rightarrow> (Inr (i\<lparr>pi_Title := title\<rparr>),
          w\<lparr>gs_PullRequests := map (\<lambda>j. if pi_Number j = number then j\<lparr>pi_Title := title\<rparr> else j) (gs_PullRequests w)\<rparr>))"

definition mem_git :: "git_store GitPlatform" where
  "mem_git =
     \<lparr>gp_OnError = (\<lambda>b. mem_OnError (bo_Steps b)),
      gp_MkdirTemp = (\<lambda>pattern w. (Inr (''/tmp/'' @ pattern), w)),
      gp_RemoveAll = (\<lambda>dir w. (Inr (), w)),
      gp_NewGitClient = (\<lambda>dir auth w. (Inr 1, w)),
      gp_Clone = (\<lambda>c url branch w. (Inr ''sha'', w)),
      gp_Close = (\<lambda>c w. ((), w)),
      gp_SwitchBranch = (\<lambda>c b w. (Inr (), w)),
      gp_SetShortHandRef = (\<lambda>r w. ((), w)),
      gp_ExecutePipeline = (\<lambda>p w. (Inr (), w)),
      gp_IsClean = (\<lambda>c w. (Inr (gs_Clean w), w)),
      gp_Commit = (\<lambda>c m a w. (Inr ''sha'', w)),
      gp_Push = (\<lambda>c w. (Inr (), w)),
      gp_GithubNewClient = (\<lambda>opts w. (Inr 2, w)),
      gp_GitlabNewClient = (\<lambda>tok ty opts w. (Inr 2, w)),
      gp_StashNewClient = (\<lambda>user tok opts w. (Inr 2, w)),
      gp_GetRepository = (\<lambda>c ref w. (Inr \<lparr>gr_Handle = 3, gr_Identity = orr_Organization ref,
                                        gr_Repository = orr_RepositoryName ref\<rparr>, w)),
      gp_ListCommits = (\<lambda>r b w. (Inr [''sha''], w)),
      gp_CreateBranch = (\<lambda>r h sha w. (Inr (), w)),
      gp_CreateCommit = (\<lambda>r b m fs w. (Inr ''sha'', w)),
      gp_CreatePullRequest = (\<lambda>r title head base. mem_CreatePullRequest title head),
      gp_ListTree = (\<lambda>r sha path rec w. (Inr [], w)),
      gp_ListPullRequests = (\<lambda>r w. (Inr (gs_PullRequests w), w)),
      gp_EditPullRequest = (\<lambda>r. mem_EditPullRequest),
      gp_ScmNewClient = (\<lambda>d server tok w. (Inr 2, w)),
      gp_ScmFindRepository = (\<lambda>c n w. (Inr \<lparr>sr_FullName = n, sr_Namespace = n, sr_Name = n\<rparr>, w)),
      gp_ScmListCommits = (\<lambda>c n r p w. (Inr [''sha''], w)),
      gp_ScmCreateContent = (\<lambda>c n p ps w. (Inr (), w)),
      gp_ScmUpdateContent = (\<lambda>c n p ps w. (Inr (), w)),
      gp_ScmCreateRef = (\<lambda>c n h sha w. (Inr (), w)),
      gp_ScmDo = (\<lambda>c r w. (Inr \<lparr>rsp_Status = 201, rsp_Error = PlainError ''''\<rparr>, w)),
      gp_ScmCreatePullRequest = (\<lambda>c n title head base body w. (Inl (PlainError ''no''), w)),
      gp_ScmListContents = (\<lambda>c u p sha w. (Inr [], w)),
      gp_ScmListPullRequests = (\<lambda>c u w. (Inr [], w)),
      gp_ScmUpdatePullRequest = (\<lambda>c u n title body w. (Inl (PlainError ''no''), w))\<rparr>"

definition mem_gitlib :: GitLib where
  "mem_gitlib =
     \<lparr>gl_Quote = (\<lambda>s. s), gl_RepositoryAPIURL = '''',
      gl_NewEndpoint = (\<lambda>u. Inr \<lparr>ep_Protocol = ''https'', ep_Host = '''', ep_Path = ''''\<rparr>),
      gl_EndpointString = ep_Path,
      gl_ParseUserRepositoryURL = (\<lambda>u. Inr \<lparr>urr_Domain = ''github.com'', urr_RepositoryName = ''config''\<rparr>),
      gl_ParseOrgRepositoryURL = (\<lambda>u. Inr \<lparr>orr_Domain = ''github.com'', orr_Organization = ''org'',
        orr_SubOrganizations = [], orr_RepositoryName = ''config'', orr_key = ''''\<rparr>),
      gl_UrlParse = (\<lambda>u. Inr \<lparr>url_Host = ''github.com'', url_Path = u\<rparr>),
      gl_UrlString = url_Path, gl_AuthOptions = (\<lambda>u creds. Inr ''auth''), gl_SupportedDomain = (\<lambda>c. ''github.com''),
      gl_SetterDefinitionPrefix = ''io.k8s.cli.setters.'', gl_SetFilter = (\<lambda>n sc node. Inr node)\<rparr>"

lemma mem_OnError_retries:
  assumes idle: "\<And>\<sigma>. wait \<sigma> \<sigma>"
  shows "run_state (mem_OnError (Suc n) retriable fn) \<sigma> = (r, \<tau>) \<Longrightarrow> retry_run wait retriable fn (Suc n) \<sigma> r \<tau>"
proof (induction n arbitrary: \<sigma>)
  case 0
  then show ?case
    by (cases "run_state fn \<sigma>")
       (auto split: option.splits if_splits intro: retry_run.intros retry_run.exhausted [unfolded One_nat_def])
next
  case (Suc n)
  obtain x \<sigma>1 where fn: "run_state fn \<sigma> = (x, \<sigma>1)" by (cases "run_state fn \<sigma>")
  show ?case
  proof (cases "\<exists>e. x = Some e \<and> retriable e")
    case True
    then obtain e where e: "x = Some e" "retriable e" by blast
    with Suc.prems fn have "run_state (mem_OnError (Suc n) retriable fn) \<sigma>1 = (r, \<tau>)" by simp
    from Suc.IH [OF this] fn e show ?thesis by (auto intro: retry_run.again idle)
  next
    case False
    with Suc.prems fn show ?thesis by (auto split: option.splits if_splits intro: retry_run.intros)
  qed
qed

lemma mem_git_OnError: "gp_OnError mem_git b = mem_OnError (bo_Steps b)"
  by (simp add: mem_git_def)

lemma foldr_max_ge: "(n :: int) \<in> set ns \<Longrightarrow> n \<le> foldr max ns a"
  by (induction ns) (auto simp: max.coboundedI2)

interpretation mem_git: hosting mem_git gs_PullRequests 3
proof (unfold_locales, goal_cases)
  case (1 b retriable fn \<sigma> r \<tau>)
  obtain n where n: "bo_Steps b = Suc n" using 1(1) by (cases "bo_Steps b") simp_all
  from 1(2) show ?case unfolding n mem_git_OnError by (rule mem_OnError_retries [rotated]) (simp add: idles_def)
next
  case (2 client ref w x w')
  then show ?case by (auto simp: mem_git_def)
next
  case (3 title head base desc w y w')
  have "pi_Number j \<noteq> foldr max (map pi_Number (gs_PullRequests w)) 0 + 1" if "j \<in> set (gs_PullRequests w)" for j
    using foldr_max_ge [of "pi_Number j" "map pi_Number (gs_PullRequests w)" 0] that by auto
  with 3 show ?case
    by (auto simp: mem_git_def mem_CreatePullRequest_def list_ex_iff Let_def split: if_splits)
next
  case (4 w z w')
  then show ?case by (auto simp: mem_git_def)
next
  case (5 n title w y w')
  then show ?case by (auto simp: mem_git_def mem_EditPullRequest_def split: option.splits)
qed

section \<open>Properties\<close>

definition sample_pr_spec :: PullRequestPromotion where
  "sample_pr_spec = \<lparr>prp_Type = ''github'', prp_URL = ''https://github.com/org/config'', prp_BaseBranch = ''main'',
                     prp_SecretRef = ''creds''\<rparr>"

definition pr_promotion :: "PullRequestPromotion \<Rightarrow> Promotion" where
  "pr_promotion spec = \<lparr>pr_Manual = False, pr_Strategy = \<lparr>st_PullRequest = Some spec, st_Notification = None,
                        st_SecretRef = None\<rparr>\<rparr>"

text \<open>The calls of a whole promotion.\<close>

definition promotion_shape ::
  "GitLib \<Rightarrow> 'w GitPlatform \<Rightarrow> Promotion \<Rightarrow> StrategyPromotion \<Rightarrow> 'w sys \<Rightarrow> (go_error + 'a) outcome \<Rightarrow> call list \<Rightarrow> bool"
where
  "promotion_shape G P promSpec promotion s x d \<longleftrightarrow>
     d = [] \<and> (\<exists>err. x = Returned (Inl err)) \<or>
     d = [CallGit (GitMkdirTemp ''promotion-'')] \<and> (\<exists>err. x = Returned (Inl err)) \<and>
       (\<exists>err. fst (gp_MkdirTemp P ''promotion-'' (world s)) = Inl err) \<or>
     (\<exists>prSpec dir steps. st_PullRequest (pr_Strategy promSpec) = Some prSpec \<and>
        fst (gp_MkdirTemp P ''promotion-'' (world s)) = Inr dir \<and>
        d = [CallGit (GitMkdirTemp ''promotion-'')] @ steps @ [CallGit (GitRemoveAll dir)] \<and>
        stepwise G dir prSpec promotion x steps)"

lemma PullRequest_Promote_shape:
  fixes s :: "'w sys"
  assumes "provider_factory g"
  shows "wp (PullRequest_Promote g P G K promSpec promotion)
    (\<lambda>x t. \<exists>d. trace t = trace s @ d \<and> promotion_shape G P promSpec promotion s x d) s"
proof (cases "\<exists>prSpec b. st_PullRequest (pr_Strategy promSpec) = Some prSpec \<and>
    gitProviderIsValid G (prp_Type prSpec) = (b, None) \<and> prp_Type prSpec \<noteq> ''''")
  case False
  then show ?thesis
    by (auto simp: PullRequest_Promote_def wp_rules promotion_shape_def split: option.split prod.split)
next
  case True
  then obtain prSpec b where spec: "st_PullRequest (pr_Strategy promSpec) = Some prSpec"
    "gitProviderIsValid G (prp_Type prSpec) = (b, None)" "prp_Type prSpec \<noteq> ''''" by blast
  let ?mkdir = "gp_MkdirTemp P ''promotion-'' (world s)"
  let ?s1 = "s\<lparr>world := snd ?mkdir, trace := trace s @ [CallGit (GitMkdirTemp ''promotion-'')]\<rparr>"
  show ?thesis
  proof (cases "fst ?mkdir")
    case (Inl err)
    with spec show ?thesis by (simp add: PullRequest_Promote_def wp_rules promotion_shape_def)
  next
    case (Inr dir)
    have "wp (promote_in g P G K dir prSpec promotion)
        (\<lambda>x. wp (do { _ \<leftarrow> perform (CallGit (GitRemoveAll dir)) (gp_RemoveAll P dir); result x })
          (\<lambda>x t. \<exists>d. trace t = trace s @ d \<and> promotion_shape G P promSpec promotion s x d)) ?s1"
      by (rule wp_mono [OF provider_factory.promote_in_stepwise [OF assms]])
         (use spec Inr in \<open>auto simp: wp_rules promotion_shape_def\<close>)
    with spec Inr show ?thesis by (simp add: PullRequest_Promote_def wp_attempt wp_returning wp_perform wp_bind)
  qed
qed

text \<open>C12. Whatever happens, the clone does not stay behind. A promotion by pull request either makes
  no call at all, or fails to create the temporary directory, or creates it first and, as its very
  last call, removes just this directory, also when a step between fails or panics.\<close>

theorem clone_dir_always_removed:
  assumes "provider_factory g"
  shows "\<exists>d. trace (exec (PullRequest_Promote g P G K promSpec promotion) s) = trace s @ d \<and>
    (d = [] \<or>
     d = [CallGit (GitMkdirTemp ''promotion-'')] \<and> (\<exists>err. fst (gp_MkdirTemp P ''promotion-'' (world s)) = Inl err) \<or>
     (\<exists>dir steps. fst (gp_MkdirTemp P ''promotion-'' (world s)) = Inr dir \<and>
        d = [CallGit (GitMkdirTemp ''promotion-'')] @ steps @ [CallGit (GitRemoveAll dir)]))"
  using PullRequest_Promote_shape [OF assms, of P G K promSpec promotion s] unfolding wp_exec promotion_shape_def
  by blast



abbreviation default_strategy :: "'w GitPlatform \<Rightarrow> GitLib \<Rightarrow> 'w PullRequestStrategy" where
  "default_strategy P G \<equiv> \<lparr>prs_gitClientFactory = NewGitProviderClientFactory P G\<rparr>"


text \<open>Every call that precedes the pull request succeeds, whatever the state of the outside.\<close>

definition pushes_work :: "'w GitPlatform \<Rightarrow> GitLib \<Rightarrow> 'w Platform \<Rightarrow> bool" where
  "pushes_work P G K \<longleftrightarrow>
     (\<forall>p w e. fst (gp_MkdirTemp P p w) \<noteq> Inl e) \<and>
     (\<forall>k w e. fst (pf_GetSecret K k w) \<noteq> Inl e) \<and>
     (\<forall>k w x. fst (pf_GetSecret K k w) = Inr x \<longrightarrow> (\<exists>t. sec_Data x ''token'' = Some t \<and> t \<noteq> '''')) \<and>
     (\<forall>u e. gl_UrlParse G u \<noteq> Inl e) \<and> (\<forall>u c e. gl_AuthOptions G u c \<noteq> Inl e) \<and>
     (\<forall>d a w e. fst (gp_NewGitClient P d a w) \<noteq> Inl e) \<and> (\<forall>c u b w e. fst (gp_Clone P c u b w) \<noteq> Inl e) \<and>
     (\<forall>c b w e. fst (gp_SwitchBranch P c b w) \<noteq> Inl e) \<and> (\<forall>p w e. fst (gp_ExecutePipeline P p w) \<noteq> Inl e) \<and>
     (\<forall>c w e. fst (gp_IsClean P c w) \<noteq> Inl e) \<and> (\<forall>c m a w e. fst (gp_Commit P c m a w) \<noteq> Inl e) \<and>
     (\<forall>c w e. fst (gp_Push P c w) \<noteq> Inl e)"

lemma ParseURL_panics:
  assumes "\<nexists>pre host grp key repo. bitbucket_url url pre host grp key repo"
  shows "ParseURL G ''bitbucket-server'' url = Panicked index_out_of_range"
proof -
  have "FindStringSubmatch url = None" using assms unfolding FindStringSubmatch_None by blast
  then show ?thesis by (simp add: ParseURL_def provider_names ParseBitbucketServerURL_def)
qed

text \<open>A stage that succeeds from every state, with a result in \<open>A\<close>, and only appends to the trace.\<close>

definition succeeds :: "('a \<Rightarrow> bool) \<Rightarrow> ('w, 'a) go \<Rightarrow> bool" where
  "succeeds A m \<longleftrightarrow> (\<forall>s. wp m (\<lambda>x t. \<exists>a d. x = Returned (Inr a) \<and> A a \<and> trace t = trace s @ d) s)"

lemma succeeds_attempt:
  assumes "succeeds A m" and "\<And>a d t. A a \<Longrightarrow> trace t = trace s @ d \<Longrightarrow> wp (k a) Q t"
    and "trace s' = trace s @ d0"
  shows "wp (attempt m wrap k) Q s'"
  unfolding wp_attempt
proof (rule wp_mono)
  show "wp m (\<lambda>x t. \<exists>a d. x = Returned (Inr a) \<and> A a \<and> trace t = trace s' @ d) s'"
    using assms(1) by (simp add: succeeds_def)
qed (use assms(2,3) in auto)

lemma succeeds_steps:
  assumes "pushes_work P G K"
  shows "succeeds (\<lambda>creds. \<exists>t. creds ''token'' = Some t \<and> t \<noteq> '''') (fetchCredentials K ns ref)"
    and "succeeds (\<lambda>_. True) (cloneRepo P G prSpec dir creds)"
    and "succeeds (\<lambda>_. True) (git_do (GitSwitchBranch c b) (gp_SwitchBranch P c b))"
    and "succeeds (\<lambda>_. True) (patchManifests P G dir promotion)"
    and "succeeds (\<lambda>_. True) (commit_if_dirty P c)"
proof -
  note works = assms [unfolded pushes_work_def]
  show "succeeds (\<lambda>creds. \<exists>t. creds ''token'' = Some t \<and> t \<noteq> '''') (fetchCredentials K ns ref)"
    using works by (auto simp: succeeds_def fetchCredentials_def wp_rules op_defs split: sum.split)
  show "succeeds (\<lambda>_. True) (cloneRepo P G prSpec dir creds)"
    using works by (auto simp: succeeds_def cloneRepo_def wp_rules split: sum.split)
  show "succeeds (\<lambda>_. True) (git_do (GitSwitchBranch c b) (gp_SwitchBranch P c b))"
    unfolding succeeds_def wp_returning wp_perform
  proof
    fix s :: "'a sys"
    show "\<exists>a d. Returned (fst (gp_SwitchBranch P c b (world s))) = Returned (Inr a) \<and> True \<and>
        trace (s\<lparr>world := snd (gp_SwitchBranch P c b (world s)), trace := trace s @ [CallGit (GitSwitchBranch c b)]\<rparr>) = trace s @ d"
      using works by (cases "fst (gp_SwitchBranch P c b (world s))") auto
  qed
  show "succeeds (\<lambda>_. True) (patchManifests P G dir promotion)"
    using works by (auto simp: succeeds_def patchManifests_def wp_rules Let_def split: sum.split)
  show "succeeds (\<lambda>_. True) (commit_if_dirty P c)"
    using works by (auto simp: succeeds_def commit_if_dirty_def wp_rules split: sum.split)
qed

lemma promote_in_panics:
  assumes "prp_Type prSpec = ''bitbucket-server''"
    and "\<nexists>pre host grp key repo. bitbucket_url (prp_URL prSpec) pre host grp key repo" and "pushes_work P G K"
  shows "wp (promote_in g P G K dir prSpec promotion)
    (\<lambda>x t. x = Panicked index_out_of_range \<and> (\<exists>d c. trace t = trace s @ d @ [CallGit (GitPush c)])) s"
proof -
  note steps = succeeds_steps [OF assms(3)]
  have pr: "createPullRequest g G token head base ''bitbucket-server'' (prp_URL prSpec) promotion = result (Panicked index_out_of_range)"
    if "token \<noteq> ''''" for token head base
    using that ParseURL_panics [OF assms(2), of G] by (auto simp: createPullRequest_def attempt_def)
  have push: "wp (attempt (push_branch P c) id (\<lambda>_. attempt (createPullRequest g G token head base (prp_Type prSpec) (prp_URL prSpec) promotion) wrap k))
      (\<lambda>x t. x = Panicked index_out_of_range \<and> (\<exists>d c. trace t = trace s @ d @ [CallGit (GitPush c)])) s'"
    if "token \<noteq> ''''" "trace s' = trace s @ d" for c token head base wrap k s' d
    using assms(3) that by (auto simp: pushes_work_def push_branch_def wp_rules assms(1) pr split: sum.split)
  show ?thesis
    unfolding promote_in_def
    apply (rule succeeds_attempt [OF steps(1)])
     apply (rule succeeds_attempt [OF steps(2)])
      apply (rule succeeds_attempt [OF steps(3)])
       apply (rule succeeds_attempt [OF steps(4)])
        apply (rule succeeds_attempt [OF steps(5)])
         apply (rule push; force)
        apply assumption+
    apply (rule append_Nil2 [symmetric])
    done
qed

text \<open>A URL that is not one of Bitbucket Server makes the promotion panic, and only after it has
  published: when everything up to the push works, the strategy pushes the branch and then panics on
  the URL instead of reporting it; the clone is removed all the same.\<close>

theorem bitbucket_url_panics_after_push:
  assumes "st_PullRequest (pr_Strategy promSpec) = Some prSpec" and "prp_Type prSpec = ''bitbucket-server''"
    and "\<nexists>pre host grp key repo. bitbucket_url (prp_URL prSpec) pre host grp key repo" and "pushes_work P G K"
  shows "value_of (PullRequest_Promote g P G K promSpec promotion) s = Panicked index_out_of_range \<and>
    (\<exists>d c dir. trace (exec (PullRequest_Promote g P G K promSpec promotion) s) =
       trace s @ d @ [CallGit (GitPush c), CallGit (GitRemoveAll dir)])"
proof -
  let ?Q = "\<lambda>x t. x = Panicked index_out_of_range \<and>
      (\<exists>d c dir. trace t = trace s @ d @ [CallGit (GitPush c), CallGit (GitRemoveAll dir)])"
  have valid: "gitProviderIsValid G ''bitbucket-server'' = (True, None)"
    by (simp add: gitProviderIsValid_def BitBucketServer_def)
  let ?mkdir = "gp_MkdirTemp P ''promotion-'' (world s)"
  let ?s1 = "s\<lparr>world := snd ?mkdir, trace := trace s @ [CallGit (GitMkdirTemp ''promotion-'')]\<rparr>"
  obtain dir where dir: "fst ?mkdir = Inr dir"
    using assms(4) by (cases "fst ?mkdir") (auto simp: pushes_work_def)
  have "wp (promote_in g P G K dir prSpec promotion)
      (\<lambda>x. wp (do { _ \<leftarrow> perform (CallGit (GitRemoveAll dir)) (gp_RemoveAll P dir); result x }) ?Q) ?s1"
    by (rule wp_mono [OF promote_in_panics [OF assms(2-4)]]) (auto simp: wp_rules)
  then have "wp (PullRequest_Promote g P G K promSpec promotion) ?Q s"
    by (simp add: PullRequest_Promote_def assms(1,2) valid dir wp_attempt wp_returning wp_perform wp_bind)
  then show ?thesis by (simp add: wp_exec)
qed

text \<open>The strategy serves GitHub, GitLab and Bitbucket Server and nothing else. A promotion without
  a pull request part, or with any other type of provider, \<open>azure-devops\<close> included, is refused with
  an error before anything is done: no call is made and the state is unchanged.\<close>

theorem unsupported_provider_refused:
  assumes "\<And>prSpec. st_PullRequest (pr_Strategy promSpec) = Some prSpec \<Longrightarrow>
    prp_Type prSpec \<notin> {''github'', ''gitlab'', ''bitbucket-server''}"
  shows "\<exists>err. run_state (PullRequest_Promote g P G K promSpec promotion) s = (Returned (Inl err), s)"
  using assms
  by (auto simp: PullRequest_Promote_def gitProviderIsValid_def provider_types split: option.split)



section \<open>Examples\<close>

definition git_mem_platform :: "git_store Platform" where
  "git_mem_platform =
     \<lparr>pf_GetPipeline = (\<lambda>key w. (Inl (not_found ''pipeline''), w)),
      pf_GetCluster = (\<lambda>key w. (Inl (not_found ''cluster''), w)),
      pf_GetSecret = (\<lambda>key w. (mem_get key ''secret'' (gs_Secrets w), w)),
      pf_ListPipelines = (\<lambda>idx key w. (Inr [], w)),
      pf_Patch = (\<lambda>owner p w. (Inr (), w)),
      pf_StatusPatch = (\<lambda>owner base p w. (Inr (), w)),
      pf_StatusUpdate = (\<lambda>p w. (Inr (), w)),
      pf_Event = (\<lambda>key ty reason msg w. ((), w)),
      pf_AnnotatedEvent = (\<lambda>key ann ty reason msg w. ((), w)),
      pf_Kubeconfig = (\<lambda>key w. (Inr ''kubeconfig'', w)),
      pf_NewCache = (\<lambda>cfg w. (Inr 0, w)),
      pf_RunCache = (\<lambda>h w. (0, w)),
      pf_CancelCache = (\<lambda>h w. ((), w)),
      pf_GetInformer = (\<lambda>h gvk w. (Inr h, w)),
      pf_AddEventHandler = (\<lambda>i key w. (Inr (), w)),
      pf_HasSynced = (\<lambda>i w. (True, w)),
      pf_CacheGet = (\<lambda>h gvk key w. (Inl (not_found ''application''), w)),
      pf_SendEvent = (\<lambda>key w. ((), w)),
      pf_QueueGet = (\<lambda>w. (None, w)),
      pf_QueueAdd = (\<lambda>k w. ((), w)),
      pf_QueueAddRateLimited = (\<lambda>k w. ((), w)),
      pf_QueueDone = (\<lambda>k w. ((), w)),
      pf_QueueForget = (\<lambda>k w. ((), w)),
      pf_Sleep = (\<lambda>d w. ((), w))\<rparr>"

definition sample_git_store :: git_store where
  "sample_git_store =
     \<lparr>gs_Secrets = [(\<lparr>ok_Namespace = ''default'', ok_Name = ''creds''\<rparr>, \<lparr>sec_Data = [''token'' \<mapsto> ''t0p'']\<rparr>)],
      gs_PullRequests = [], gs_Clean = False\<rparr>"

definition sample_git_sys :: "git_store sys" where
  "sample_git_sys = \<lparr>world = sample_git_store, trace = [], cachesMap = Map.empty\<rparr>"

definition promotion_of :: "string \<Rightarrow> StrategyPromotion" where
  "promotion_of version = \<lparr>sp_PipelineNamespace = ''default'', sp_PipelineName = ''app'',
     sp_Environment = sample_env ''prod'', sp_Version = version\<rparr>"

abbreviation sample_pr_run :: "(go_error + PromotionResult) outcome \<times> git_store sys" where
  "sample_pr_run \<equiv> run_state (PullRequest_Promote (default_strategy mem_git mem_gitlib) mem_git mem_gitlib
     git_mem_platform (pr_promotion sample_pr_spec) (promotion_of ''v2'')) sample_git_sys"

lemmas pr_run_defs = PullRequest_Promote_def promote_in_def fetchCredentials_def cloneRepo_def patchManifests_def
  commit_if_dirty_def push_branch_def createPullRequest_def open_or_update_def NewGitProviderClientFactory_def
  domain_options_def decorateCustomDomainByType_def provider_for_def Factory_Create_def create_with_def
  provider_option_defs GitHub_Setup_def GitHubProvider_def GitHub_CreatePullRequest_def GetGitProviderUrl_def
  ggp_GetRepository_def retried_repository_def OnError_def write_and_open_def WriteFilesToBranch_def
  ggp_CreatePullRequest_def attempt_def returning_def assigning_def op_defs run_perform Let_def
  mem_git_def mem_gitlib_def DefaultBackoff_def mem_CreatePullRequest_def to_PullRequest_def
  gitProviderIsValid_def ParseURL_def provider_names provider_types
  sample_pr_spec_def pr_promotion_def promotion_of_def sample_git_sys_def sample_git_store_def git_mem_platform_def
  mem_get_def

lemma sample_pr_success:
  "fst sample_pr_run = Returned (Inr \<lparr>res_Location = ''https://github.com/org/config/pull''\<rparr>)"
  by (simp add: pr_run_defs numeral_eq_Suc)


lemma default_factory: "provider_factory (default_strategy mem_git mem_gitlib)"
  by (rule mem_git.platform.default.provider_factory_axioms)

theorem clone_dir_always_removed_witness:
  "\<exists>steps. trace (snd sample_pr_run) =
     [CallGit (GitMkdirTemp ''promotion-'')] @ steps @ [CallGit (GitRemoveAll ''/tmp/promotion-'')]"
proof -
  have "trace (snd sample_pr_run) \<noteq> []" by (simp add: pr_run_defs numeral_eq_Suc)
  with clone_dir_always_removed [OF default_factory, of mem_git mem_gitlib git_mem_platform "pr_promotion sample_pr_spec"
      "promotion_of ''v2''" sample_git_sys]
  show ?thesis by (auto simp: mem_git_def sample_git_sys_def)
qed


abbreviation sample_upsert :: "string \<Rightarrow> (git_store sys, (go_error + GitPullRequest) outcome) state" where
  "sample_upsert version \<equiv> open_or_update (GitHubProvider mem_git mem_gitlib 2) ''promotion-default-app-prod'' ''main''
     ''https://github.com/org/config'' (promotion_of version)"


definition misfit_spec :: PullRequestPromotion where
  "misfit_spec = sample_pr_spec\<lparr>prp_Type := ''bitbucket-server'', prp_URL := ''https://bitbucket.example.com/config''\<rparr>"

definition open_platform :: "git_store Platform" where
  "open_platform = git_mem_platform\<lparr>pf_GetSecret := (\<lambda>k w. (Inr \<lparr>sec_Data = [''token'' \<mapsto> ''t0p'']\<rparr>, w))\<rparr>"

theorem bitbucket_url_panics_after_push_witness:
  "value_of (PullRequest_Promote (default_strategy mem_git mem_gitlib) mem_git mem_gitlib open_platform
     (pr_promotion misfit_spec) (promotion_of ''v2'')) sample_git_sys = Panicked index_out_of_range"
proof -
  have "FindStringSubmatch (prp_URL misfit_spec) = None"
    by (simp add: misfit_spec_def sample_pr_spec_def match_here_def StripPrefix_def HasPrefix_def key_repo_def)
  then have "\<nexists>pre host grp key repo. bitbucket_url (prp_URL misfit_spec) pre host grp key repo"
    unfolding FindStringSubmatch_None by blast
  moreover have "pushes_work mem_git mem_gitlib open_platform"
    by (simp add: pushes_work_def mem_git_def mem_gitlib_def open_platform_def)
  ultimately show ?thesis
    using bitbucket_url_panics_after_push [of "pr_promotion misfit_spec" misfit_spec mem_git mem_gitlib open_platform]
    by (simp add: pr_promotion_def misfit_spec_def)
qed

theorem unsupported_provider_refused_witness:
  "\<exists>err. run_state (PullRequest_Promote (default_strategy mem_git mem_gitlib) mem_git mem_gitlib git_mem_platform
     (pr_promotion (sample_pr_spec\<lparr>prp_Type := ''azure-devops''\<rparr>)) (promotion_of ''v2'')) sample_git_sys =
     (Returned (Inl err), sample_git_sys)"
  by (rule unsupported_provider_refused) (simp add: pr_promotion_def)


end
