(* ===== verification/Startup.thy ===== *)
theory Startup
  imports Level_Promotion Pipeline_Reconciler Promotion_Server Pull_Request_Properties "HOL-Library.Sublist"
begin

text \<open>
  \<open>main.go\<close> and the setup of the controllers: the command line flags, the registry of the two
  strategies, the choice between the two reconcilers, their \<open>SetupWithManager\<close> with the indexes and
  watches, the health checks, the promotion server, and the start of the manager, in the order of the
  code and with every exit. The calls to controller-runtime and to the network are those of
  \<open>boot_call\<close>; their results are a parameter \<open>bp\<close>, which may answer each call with an error.
  The goroutine that serves the webhooks is one call, \<open>ServeWebhooks\<close>.
\<close>

section \<open>Calls of the start-up\<close>

record ManagerOptions =
  mo_MetricsBindAddress :: string
  mo_Port :: int
  mo_HealthProbeBindAddress :: string
  mo_LeaderElection :: bool
  mo_LeaderElectionID :: string

text \<open>What is given to \<open>Complete\<close>: the reconciler, the index that the watch on GitopsClusters looks
  in, and whether the channel of application events is watched.\<close>

datatype 'w controller =
    LevelController "'w PipelineReconciler" string bool
  | EdgeController EdgeReconciler string bool

datatype runnable = CacheRunner | CacheCollector

datatype 'w boot_call =
    NewManager ManagerOptions
  | NewEventRecorder string string
  | ManagerAdd runnable
  | IndexField string "client_object \<Rightarrow> string list outcome"
  | GetEventRecorderFor string
  | BuildController "'w controller"
  | AddHealthzCheck string
  | AddReadyzCheck string
  | SetupSignalHandler
  | Listen string
  | ServeWebhooks "'w PromotionServer"
  | StartManager

record ('b, 'w) boot =
  bt_outside :: 'b
  bt_calls :: "'w boot_call list"

type_synonym ('b, 'w) boot_platform = "'w boot_call \<Rightarrow> 'b \<Rightarrow> go_error option \<times> 'b"

definition bcall :: "('b, 'w) boot_platform \<Rightarrow> 'w boot_call \<Rightarrow> (('b, 'w) boot, go_error option) state" where
  "bcall bp c =
     State (\<lambda>b. (fst (bp c (bt_outside b)),
                 b\<lparr>bt_outside := snd (bp c (bt_outside b)), bt_calls := bt_calls b @ [c]\<rparr>))"

text \<open>\<open>if err := m; err != nil { return wrap(err) }\<close>, and the same with \<open>os.Exit(1)\<close>.\<close>

definition check :: "('s, go_error option) state \<Rightarrow> (go_error \<Rightarrow> go_error) \<Rightarrow> ('s, go_error option) state \<Rightarrow>
    ('s, go_error option) state" where
  "check m wrap k = do { err \<leftarrow> m; case err of Some e \<Rightarrow> result (Some (wrap e)) | None \<Rightarrow> k }"

definition or_exit :: "('s, go_error option) state \<Rightarrow> ('s, nat) state \<Rightarrow> ('s, nat) state" where
  "or_exit m k = do { err \<leftarrow> m; case err of Some e \<Rightarrow> result 1 | None \<Rightarrow> k }"

section \<open>Setup of the controllers\<close>

definition gitopsClusterIndexKey :: string where
  "gitopsClusterIndexKey = ''.spec.environment.ClusterRef''"

abbreviation index_failed :: "go_error \<Rightarrow> go_error" where
  "index_failed \<equiv> Wrapped ''failed setting index fields''"

definition caches_setupWithManager ::
  "('b, 'w) boot_platform \<Rightarrow> Lib \<Rightarrow> (('b, 'w) boot, go_error option) state"
where
  "caches_setupWithManager bp L =
     check (bcall bp (ManagerAdd CacheRunner)) id
       (check (bcall bp (ManagerAdd CacheCollector)) id
         (check (bcall bp (IndexField cacheIndex (indexTargetCache L))) index_failed
           (check (bcall bp (IndexField applicationKey (indexApplication L))) index_failed
             (result None))))"

text \<open>A recorder is given or not; \<open>cfg\<close> is the manager's configuration.\<close>

definition level_NewPipelineReconciler :: "string \<Rightarrow> bool \<Rightarrow> 'w StrategyRegistry \<Rightarrow> 'w PipelineReconciler" where
  "level_NewPipelineReconciler controllerName eventRecorder stratReg =
     \<lparr>r_ControllerName = controllerName, r_recorder = eventRecorder, r_stratReg = stratReg,
      r_localClusterConfig = ''''\<rparr>"

text \<open>Line 426: the error of the caches' setup is dropped.\<close>

definition level_SetupWithManager ::
  "('b, 'w) boot_platform \<Rightarrow> Lib \<Rightarrow> string \<Rightarrow> 'w PipelineReconciler \<Rightarrow> (('b, 'w) boot, go_error option) state"
where
  "level_SetupWithManager bp L cfg r =
     do { err \<leftarrow> caches_setupWithManager bp L;
          case err of
            Some _ \<Rightarrow> result None
          | None \<Rightarrow>
              check (bcall bp (IndexField gitopsClusterIndexKey (indexClusterKind ''GitopsCluster''))) index_failed
                (do { _ \<leftarrow> (if r_recorder r then result None else bcall bp (GetEventRecorderFor (r_ControllerName r)));
                      bcall bp (BuildController
                        (LevelController (r\<lparr>r_recorder := True, r_localClusterConfig := cfg\<rparr>) gitopsClusterIndexKey True)) }) }"

definition edge_NewPipelineReconciler :: "string \<Rightarrow> EdgeReconciler" where
  "edge_NewPipelineReconciler controllerName = \<lparr>er_ControllerName = controllerName, er_recorder = False\<rparr>"

definition edge_SetupWithManager ::
  "('b, 'w) boot_platform \<Rightarrow> EdgeReconciler \<Rightarrow> (('b, 'w) boot, go_error option) state"
where
  "edge_SetupWithManager bp r =
     check (bcall bp (IndexField gitopsClusterIndexKey (pc_indexClusterKind ''GitopsCluster''))) index_failed
       (do { _ \<leftarrow> (if er_recorder r then result None else bcall bp (GetEventRecorderFor (er_ControllerName r)));
             bcall bp (BuildController (EdgeController (r\<lparr>er_recorder := True\<rparr>) gitopsClusterIndexKey False)) })"

section \<open>The program\<close>

definition controllerName :: string where
  "controllerName = ''pipeline-controller''"

record Flags =
  fl_metricsAddr :: string
  fl_eventsAddr :: string
  fl_enableLeaderElection :: bool
  fl_probeAddr :: string
  fl_promServerAddr :: string
  fl_promotionRateLimit :: "64 word"
  fl_promotionRateLimitIntervalSeconds :: "64 word"
  fl_promotionRetryDelaySeconds :: int
  fl_promotionRetryMaxDelaySeconds :: int
  fl_promotionRetryFailureThreshold :: int
  fl_useLevelTriggeredController :: bool

definition default_Flags :: Flags where
  "default_Flags =
     \<lparr>fl_metricsAddr = '':8080'', fl_eventsAddr = '''', fl_enableLeaderElection = False, fl_probeAddr = '':8081'',
      fl_promServerAddr = '':8082'', fl_promotionRateLimit = DefaultRateLimitCount,
      fl_promotionRateLimitIntervalSeconds = word_of_int DefaultRateLimitInterval,
      fl_promotionRetryDelaySeconds = 2, fl_promotionRetryMaxDelaySeconds = 20, fl_promotionRetryFailureThreshold = 3,
      fl_useLevelTriggeredController = False\<rparr>"

text \<open>\<open>time.Duration(n) * time.Second\<close>, which wraps around.\<close>

definition seconds :: "64 word \<Rightarrow> int" where
  "seconds n = sint (n * 1000000000)"

definition manager_options :: "Flags \<Rightarrow> ManagerOptions" where
  "manager_options fl =
     \<lparr>mo_MetricsBindAddress = fl_metricsAddr fl, mo_Port = 9443, mo_HealthProbeBindAddress = fl_probeAddr fl,
      mo_LeaderElection = fl_enableLeaderElection fl, mo_LeaderElectionID = controllerName @ ''-leader-election''\<rparr>"

definition server_options :: "Flags \<Rightarrow> 'w StrategyRegistry \<Rightarrow> 'w Promotion_Server.Opt list" where
  "server_options fl stratReg =
     [WithRateLimit (fl_promotionRateLimit fl) (seconds (fl_promotionRateLimitIntervalSeconds fl)),
      WithRetry (fl_promotionRetryDelaySeconds fl) (fl_promotionRetryMaxDelaySeconds fl)
        (fl_promotionRetryFailureThreshold fl),
      ListenAddr (fl_promServerAddr fl), StrategyRegistry_opt stratReg]"

text \<open>\<open>NewPromotionServer\<close> listens at the address of the configured server.\<close>

definition listen_result :: "('b, 'w) boot_platform \<Rightarrow> 'b \<Rightarrow> string \<Rightarrow> go_error + unit" where
  "listen_result bp b addr = (case fst (bp (Listen addr) b) of None \<Rightarrow> Inr () | Some err \<Rightarrow> Inl err)"

definition boot_NewPromotionServer ::
  "('b, 'w) boot_platform \<Rightarrow> WebhookLib \<Rightarrow> 'w Platform \<Rightarrow> 'w Promotion_Server.Opt list \<Rightarrow>
     (('b, 'w) boot, go_error + 'w PromotionServer) state"
where
  "boot_NewPromotionServer bp W K opts =
     State (\<lambda>b. (NewPromotionServer W (listen_result bp (bt_outside b)) (Some K) opts,
                 case apply_opts opts zero_PromotionServer of
                   Inl err \<Rightarrow> b
                 | Inr s \<Rightarrow> exec (bcall bp (Listen (srv_addr (Promotion_Server.setDefaults W K s)))) b))"

definition setup_controller ::
  "('b, 'w) boot_platform \<Rightarrow> Lib \<Rightarrow> string \<Rightarrow> Flags \<Rightarrow> 'w StrategyRegistry \<Rightarrow> (('b, 'w) boot, go_error option) state"
where
  "setup_controller bp L cfg fl stratReg =
     (if fl_useLevelTriggeredController fl then
        level_SetupWithManager bp L cfg (level_NewPipelineReconciler controllerName True stratReg)
      else edge_SetupWithManager bp (edge_NewPipelineReconciler controllerName))"

definition start_server ::
  "('b, 'w) boot_platform \<Rightarrow> WebhookLib \<Rightarrow> 'w Platform \<Rightarrow> Flags \<Rightarrow> 'w StrategyRegistry \<Rightarrow> (('b, 'w) boot, nat) state"
where
  "start_server bp W K fl stratReg =
     do { _ \<leftarrow> bcall bp SetupSignalHandler;
          r \<leftarrow> boot_NewPromotionServer bp W K (server_options fl stratReg);
          case r of
            Inl err \<Rightarrow> result 1
          | Inr promServer \<Rightarrow>
              do { _ \<leftarrow> bcall bp (ServeWebhooks promServer);
                   or_exit (bcall bp StartManager) (result 0) } }"

text \<open>The registry: the pull request strategy first.\<close>

definition main_registry :: "'w PullRequestStrategy \<Rightarrow> 'w GitPlatform \<Rightarrow> GitLib \<Rightarrow> 'w Platform \<Rightarrow> 'w StrategyRegistry" where
  "main_registry g P G K = Registry_Register (Registry_Register [] (PullRequest g P G K)) (Notification K)"

text \<open>The exit code of the program.\<close>

definition main_program ::
  "('b, 'w) boot_platform \<Rightarrow> Lib \<Rightarrow> WebhookLib \<Rightarrow> 'w Platform \<Rightarrow> 'w GitPlatform \<Rightarrow> GitLib \<Rightarrow> string \<Rightarrow> Flags \<Rightarrow>
     (('b, 'w) boot, nat) state"
where
  "main_program bp L W K P G cfg fl =
     or_exit (bcall bp (NewManager (manager_options fl)))
       (case PullRequest_New P G [] of
          Inl err \<Rightarrow> result 1
        | Inr pullRequestStrategy \<Rightarrow>
            or_exit (bcall bp (NewEventRecorder (fl_eventsAddr fl) controllerName))
              (let stratReg = main_registry pullRequestStrategy P G K
               in or_exit (setup_controller bp L cfg fl stratReg)
                    (or_exit (bcall bp (AddHealthzCheck ''healthz''))
                      (or_exit (bcall bp (AddReadyzCheck ''readyz'')) (start_server bp W K fl stratReg)))))"

section \<open>Rules\<close>

lemma wp_bcall: "wp (bcall bp c) Q b \<longleftrightarrow>
    Q (fst (bp c (bt_outside b))) (b\<lparr>bt_outside := snd (bp c (bt_outside b)), bt_calls := bt_calls b @ [c]\<rparr>)"
  by (simp add: wp_def bcall_def)

lemma wp_check: "wp (check m wrap k) Q b \<longleftrightarrow>
    wp m (\<lambda>err b. case err of Some e \<Rightarrow> Q (Some (wrap e)) b | None \<Rightarrow> wp k Q b) b"
  by (simp add: check_def wp_def split: prod.split option.split)

lemma wp_or_exit: "wp (or_exit m k) Q b \<longleftrightarrow>
    wp m (\<lambda>err b. case err of Some e \<Rightarrow> Q 1 b | None \<Rightarrow> wp k Q b) b"
  by (simp add: or_exit_def wp_def split: prod.split option.split)

lemmas wp_boot = wp_bcall wp_check wp_or_exit wp_bind wp_return

section \<open>The calls of a start\<close>

definition caches_calls :: "Lib \<Rightarrow> 'w boot_call list" where
  "caches_calls L =
     [ManagerAdd CacheRunner, ManagerAdd CacheCollector, IndexField cacheIndex (indexTargetCache L),
      IndexField applicationKey (indexApplication L)]"

definition controller_calls :: "Lib \<Rightarrow> string \<Rightarrow> Flags \<Rightarrow> 'w StrategyRegistry \<Rightarrow> 'w boot_call list" where
  "controller_calls L cfg fl reg =
     (if fl_useLevelTriggeredController fl then
        caches_calls L @
        [IndexField gitopsClusterIndexKey (indexClusterKind ''GitopsCluster''),
         BuildController (LevelController
           \<lparr>r_ControllerName = controllerName, r_recorder = True, r_stratReg = reg, r_localClusterConfig = cfg\<rparr>
           gitopsClusterIndexKey True)]
      else
        [IndexField gitopsClusterIndexKey (indexClusterKind ''GitopsCluster''), GetEventRecorderFor controllerName,
         BuildController (EdgeController \<lparr>er_ControllerName = controllerName, er_recorder = True\<rparr>
           gitopsClusterIndexKey False)])"

text \<open>The controller is set up, or the setup of the caches stopped on the way.\<close>

definition controller_setup :: "Lib \<Rightarrow> string \<Rightarrow> Flags \<Rightarrow> 'w StrategyRegistry \<Rightarrow> 'w boot_call list \<Rightarrow> bool" where
  "controller_setup L cfg fl reg cs \<longleftrightarrow>
     cs = controller_calls L cfg fl reg \<or>
     fl_useLevelTriggeredController fl \<and> (\<exists>n \<in> {1, 2, 3, 4}. cs = take n (caches_calls L))"

definition configured_server :: "WebhookLib \<Rightarrow> 'w Platform \<Rightarrow> Flags \<Rightarrow> 'w StrategyRegistry \<Rightarrow> 'w PromotionServer" where
  "configured_server W K fl reg =
     Promotion_Server.setDefaults W K (zero_PromotionServer\<lparr>srv_rateLimit_count := fl_promotionRateLimit fl,
       srv_rateLimit_interval := seconds (fl_promotionRateLimitIntervalSeconds fl),
       srv_retry := \<lparr>ro_Delay = fl_promotionRetryDelaySeconds fl, ro_MaxDelay = fl_promotionRetryMaxDelaySeconds fl,
                     ro_Threshold = fl_promotionRetryFailureThreshold fl\<rparr>,
       srv_addr := fl_promServerAddr fl, srv_stratReg := reg\<rparr>)"

definition startup_calls :: "WebhookLib \<Rightarrow> 'w Platform \<Rightarrow> Flags \<Rightarrow> 'w StrategyRegistry \<Rightarrow> 'w boot_call list \<Rightarrow> 'w boot_call list" where
  "startup_calls W K fl reg setup =
     [NewManager (manager_options fl), NewEventRecorder (fl_eventsAddr fl) controllerName] @ setup @
     [AddHealthzCheck ''healthz'', AddReadyzCheck ''readyz'', SetupSignalHandler,
      Listen (srv_addr (configured_server W K fl reg)), ServeWebhooks (configured_server W K fl reg), StartManager]"

abbreviation default_registry :: "'w GitPlatform \<Rightarrow> GitLib \<Rightarrow> 'w Platform \<Rightarrow> 'w StrategyRegistry" where
  "default_registry P G K \<equiv> main_registry \<lparr>prs_gitClientFactory = NewGitProviderClientFactory P G\<rparr> P G K"

text \<open>The last call is one that can fail.\<close>

definition ends_failing :: "('b, 'w) boot_platform \<Rightarrow> 'w boot_call list \<Rightarrow> bool" where
  "ends_failing bp cs \<longleftrightarrow> cs \<noteq> [] \<and> (\<exists>w err. fst (bp (last cs) w) = Some err)"

lemma apply_server_options:
  "apply_opts (server_options fl reg) zero_PromotionServer = Inr (zero_PromotionServer\<lparr>
     srv_rateLimit_count := fl_promotionRateLimit fl, srv_rateLimit_interval := seconds (fl_promotionRateLimitIntervalSeconds fl),
     srv_retry := \<lparr>ro_Delay = fl_promotionRetryDelaySeconds fl, ro_MaxDelay = fl_promotionRetryMaxDelaySeconds fl,
                   ro_Threshold = fl_promotionRetryFailureThreshold fl\<rparr>,
     srv_addr := fl_promServerAddr fl, srv_stratReg := reg\<rparr>)"
  by (simp add: server_options_def WithRateLimit_def WithRetry_def ListenAddr_def StrategyRegistry_opt_def)

lemma wp_boot_NewPromotionServer:
  "wp (boot_NewPromotionServer bp W K (server_options fl reg)) Q b \<longleftrightarrow>
     wp (bcall bp (Listen (srv_addr (configured_server W K fl reg))))
       (\<lambda>err. Q (case err of Some e \<Rightarrow> Inl (Wrapped ''failed creating listener'' e) | None \<Rightarrow> Inr (configured_server W K fl reg))) b"
  by (simp add: boot_NewPromotionServer_def NewPromotionServer_def apply_server_options listen_result_def wp_bcall
      configured_server_def wp_def bcall_def Let_def split: option.split)

lemma caches_setup_calls:
  "wp (caches_setupWithManager bp L)
     (\<lambda>err t. case err of
        None \<Rightarrow> bt_calls t = bt_calls b @ caches_calls L
      | Some e \<Rightarrow> \<exists>n \<in> {1, 2, 3, 4}. bt_calls t = bt_calls b @ take n (caches_calls L)) b"
  by (auto simp: caches_setupWithManager_def caches_calls_def wp_boot take_Cons' split: option.split)

text \<open>How far the setup of a controller got.\<close>

definition setup_reached ::
  "('b, 'w) boot_platform \<Rightarrow> Lib \<Rightarrow> string \<Rightarrow> Flags \<Rightarrow> 'w StrategyRegistry \<Rightarrow> 'w boot_call list \<Rightarrow> go_error option \<Rightarrow>
     ('b, 'w) boot \<Rightarrow> bool"
where
  "setup_reached bp L cfg fl reg before err t \<longleftrightarrow>
     (case err of
        None \<Rightarrow> \<exists>cs. controller_setup L cfg fl reg cs \<and> bt_calls t = before @ cs
      | Some e \<Rightarrow> ends_failing bp (bt_calls t) \<and> prefix (bt_calls t) (before @ controller_calls L cfg fl reg))"

lemma setup_controller_calls: "wp (setup_controller bp L cfg fl reg) (setup_reached bp L cfg fl reg (bt_calls b)) b"
proof (cases "fl_useLevelTriggeredController fl")
  case True
  have "wp (level_SetupWithManager bp L cfg (level_NewPipelineReconciler controllerName True reg))
     (setup_reached bp L cfg fl reg (bt_calls b)) b"
    unfolding level_SetupWithManager_def wp_bind
    by (rule wp_mono [OF caches_setup_calls])
       (use True in \<open>auto simp: controller_setup_def controller_calls_def level_NewPipelineReconciler_def wp_boot wp_if
          ends_failing_def setup_reached_def split: option.splits\<close>)
  with True show ?thesis by (simp add: setup_controller_def)
next
  case False
  then show ?thesis
    by (auto simp: setup_controller_def edge_SetupWithManager_def edge_NewPipelineReconciler_def controller_setup_def
        controller_calls_def pc_indexClusterKind_def wp_boot wp_if ends_failing_def setup_reached_def split: option.splits)
qed

lemma controller_calls_setup: "controller_setup L cfg fl reg (controller_calls L cfg fl reg)"
  by (simp add: controller_setup_def)

text \<open>How far a start got, with the setup it made.\<close>

definition start_reached ::
  "('b, 'w) boot_platform \<Rightarrow> WebhookLib \<Rightarrow> 'w Platform \<Rightarrow> Flags \<Rightarrow> 'w StrategyRegistry \<Rightarrow> 'w boot_call list \<Rightarrow> nat \<Rightarrow>
     'w boot_call list \<Rightarrow> bool"
where
  "start_reached bp W K fl reg setup code cs \<longleftrightarrow>
     code = 1 \<and> ends_failing bp cs \<and> prefix cs (startup_calls W K fl reg setup) \<or>
     code = 0 \<and> cs = startup_calls W K fl reg setup"

abbreviation boot_start :: "Flags \<Rightarrow> 'w boot_call list" where
  "boot_start fl \<equiv> [NewManager (manager_options fl), NewEventRecorder (fl_eventsAddr fl) controllerName]"

abbreviation boot_end ::
  "('b, 'w) boot_platform \<Rightarrow> WebhookLib \<Rightarrow> 'w Platform \<Rightarrow> Flags \<Rightarrow> 'w StrategyRegistry \<Rightarrow> (('b, 'w) boot, nat) state"
where
  "boot_end bp W K fl reg \<equiv>
     or_exit (bcall bp (AddHealthzCheck ''healthz''))
       (or_exit (bcall bp (AddReadyzCheck ''readyz'')) (start_server bp W K fl reg))"

lemma boot_end_calls:
  assumes "bt_calls u = boot_start fl @ setup"
  shows "wp (boot_end bp W K fl reg) (\<lambda>code t. start_reached bp W K fl reg setup code (bt_calls t)) u"
  using assms by (auto simp: start_server_def wp_boot wp_boot_NewPromotionServer wp_case_sum ends_failing_def
      start_reached_def startup_calls_def split: option.split)

lemma start_reached_failing:
  assumes "ends_failing bp cs" and "prefix cs (boot_start fl @ setup)"
  shows "start_reached bp W K fl reg setup 1 cs"
proof -
  have "prefix cs (startup_calls W K fl reg setup)"
    unfolding startup_calls_def append_assoc [symmetric] by (rule prefix_prefix) (use assms(2) in simp)
  with assms(1) show ?thesis by (simp add: start_reached_def)
qed

lemma ends_failing_short:
  "fst (bp c w) = Some err \<Longrightarrow> ends_failing bp [c]" "fst (bp d w) = Some err \<Longrightarrow> ends_failing bp [c, d]"
  by (auto simp: ends_failing_def)

lemma boot_controller_calls:
  assumes u: "bt_calls u = boot_start fl"
  shows "wp (or_exit (setup_controller bp L cfg fl reg) (boot_end bp W K fl reg))
    (\<lambda>code t. \<exists>setup. controller_setup L cfg fl reg setup \<and> start_reached bp W K fl reg setup code (bt_calls t)) u"
  unfolding wp_or_exit [of "setup_controller _ _ _ _ _"]
proof (rule wp_mono [OF setup_controller_calls], goal_cases)
  case (1 err t)
  show ?case
  proof (cases err)
    case None
    with 1 u obtain cs where cs: "controller_setup L cfg fl reg cs" "bt_calls t = boot_start fl @ cs"
      by (auto simp: setup_reached_def)
    show ?thesis unfolding None option.case
      by (rule wp_mono [OF boot_end_calls [OF cs(2)]]) (use cs(1) in blast)
  next
    case (Some e)
    with 1 u have "start_reached bp W K fl reg (controller_calls L cfg fl reg) 1 (bt_calls t)"
      by (intro start_reached_failing) (auto simp: setup_reached_def)
    then show ?thesis unfolding Some option.case using controller_calls_setup by blast
  qed
qed

lemma main_program_calls:
  assumes "bt_calls b = []"
  shows "wp (main_program bp L W K P G cfg fl)
    (\<lambda>code t. \<exists>setup. controller_setup L cfg fl (default_registry P G K) setup \<and>
       start_reached bp W K fl (default_registry P G K) setup code (bt_calls t)) b"
proof -
  let ?cs = "controller_calls L cfg fl (default_registry P G K)"
  have "wp (main_program bp L W K P G cfg fl)
      (\<lambda>code t. \<exists>setup. controller_setup L cfg fl (default_registry P G K) setup \<and>
         start_reached bp W K fl (default_registry P G K) setup code (bt_calls t)) b"
    if "controller_setup L cfg fl (default_registry P G K) ?cs"
    unfolding main_program_def PullRequest_New_def Pull_Request_Strategy.setDefaults_def apply_Opts.simps sum.case option.case Let_def
      wp_or_exit [of "bcall bp (NewManager _)"] wp_or_exit [of "bcall bp (NewEventRecorder _ _)"] wp_bcall
    using assms that
    by (auto intro!: boot_controller_calls exI [of _ ?cs] start_reached_failing [unfolded One_nat_def]
        intro: ends_failing_short split: option.splits)
  then show ?thesis by (simp add: controller_calls_setup)
qed

section \<open>Wiring\<close>

text \<open>What a call relies on, given the calls before it: a reconciler or server has the registry
  \<open>reg\<close>, and a controller finds the indexes that it and its watches query.\<close>

fun call_wired :: "Lib \<Rightarrow> 'w StrategyRegistry \<Rightarrow> 'w boot_call set \<Rightarrow> 'w boot_call \<Rightarrow> bool" where
  "call_wired L reg before (BuildController (LevelController r key _)) \<longleftrightarrow>
     r_stratReg r = reg \<and> IndexField cacheIndex (indexTargetCache L) \<in> before \<and>
     IndexField applicationKey (indexApplication L) \<in> before \<and>
     IndexField key (indexClusterKind ''GitopsCluster'') \<in> before"
| "call_wired L reg before (BuildController (EdgeController r key _)) \<longleftrightarrow>
     IndexField key (indexClusterKind ''GitopsCluster'') \<in> before"
| "call_wired L reg before (ServeWebhooks s) \<longleftrightarrow> srv_stratReg s = reg"
| "call_wired L reg before _ \<longleftrightarrow> True"

fun well_wired :: "Lib \<Rightarrow> 'w StrategyRegistry \<Rightarrow> 'w boot_call set \<Rightarrow> 'w boot_call list \<Rightarrow> bool" where
  "well_wired L reg before [] \<longleftrightarrow> True"
| "well_wired L reg before (c # cs) \<longleftrightarrow> call_wired L reg before c \<and> well_wired L reg (insert c before) cs"

lemma well_wired_append:
  "well_wired L reg before (cs @ ds) \<longleftrightarrow> well_wired L reg before cs \<and> well_wired L reg (before \<union> set cs) ds"
  by (induction cs arbitrary: before) auto

lemma well_wired_prefix: "well_wired L reg before ds \<Longrightarrow> prefix cs ds \<Longrightarrow> well_wired L reg before cs"
  by (auto simp: prefix_def well_wired_append)

lemma configured_server_registry: "srv_stratReg (configured_server W K fl reg) = reg"
  by (simp add: configured_server_def Promotion_Server.setDefaults_def)

lemma registry_handles:
  "s_Handles (PullRequest g P G K) = PullRequest_Handles" "s_Handles (Notification K) = Notification_Handles"
  by (simp_all add: PullRequest_def Notification_def)

lemma well_wired_setup: "controller_setup L cfg fl reg cs \<Longrightarrow> well_wired L reg before cs"
  by (auto simp: controller_setup_def controller_calls_def caches_calls_def take_Cons')

lemma well_wired_startup:
  "controller_setup L cfg fl reg cs \<Longrightarrow> well_wired L reg {} (startup_calls W K fl reg cs)"
  by (simp add: startup_calls_def well_wired_append well_wired_setup configured_server_registry)

section \<open>Properties\<close>



text \<open>C15. The parts are put together as their contracts ask. In every start, also one that stops on the
  way, the reconciler and the server get the same registry, in which a promotion with a pull request
  part goes to the pull request strategy and another one with a notification part to the
  notification strategy; both keep the contract that reconciler and webhook handlers rely on, if the
  retry helper of the git libraries keeps its own. A controller is built only after the indexes that
  its queries look in have been registered with their functions.\<close>

theorem program_well_wired:
  assumes "bt_calls b = []" and "git_platform P"
  shows "well_wired L (default_registry P G K) {} (bt_calls (exec (main_program bp L W K P G cfg fl) b)) \<and>
    list_all promotion_strategy (default_registry P G K) \<and>
    Registry_Get (default_registry P G K) p =
      (if PullRequest_Handles p then Inr (PullRequest \<lparr>prs_gitClientFactory = NewGitProviderClientFactory P G\<rparr> P G K)
       else if Notification_Handles p then Inr (Notification K)
       else Inl (PlainError ''no known promotion strategy requested''))"
proof -
  let ?reg = "default_registry P G K"
  obtain cs where "controller_setup L cfg fl ?reg cs"
    and "start_reached bp W K fl ?reg cs (value_of (main_program bp L W K P G cfg fl) b)
      (bt_calls (exec (main_program bp L W K P G cfg fl) b))"
    using main_program_calls [OF assms(1)] unfolding wp_exec by blast
  then have "well_wired L ?reg {} (bt_calls (exec (main_program bp L W K P G cfg fl) b))"
    using well_wired_startup well_wired_prefix by (fastforce simp: start_reached_def)
  moreover note git_platform.default_pull_request_strategy [OF assms(2), of G P G K]
  ultimately show ?thesis
    by (simp add: main_registry_def Registry_Register_def notification.promotion_strategy_axioms registry_handles)
qed

theorem program_well_wired_witness:
  "well_wired mem_lib (default_registry mem_git mem_gitlib git_mem_platform) {}
     (bt_calls (exec (main_program (\<lambda>c w. (None, w)) mem_lib sample_webhook git_mem_platform mem_git mem_gitlib ''local''
        (default_Flags\<lparr>fl_useLevelTriggeredController := True\<rparr>)) \<lparr>bt_outside = (), bt_calls = []\<rparr>)) \<and>
   list_all promotion_strategy (default_registry mem_git mem_gitlib git_mem_platform)"
  using program_well_wired [OF _ mem_git.platform.git_platform_axioms, of "\<lparr>bt_outside = (), bt_calls = []\<rparr>" mem_lib
      mem_gitlib git_mem_platform "\<lambda>c w. (None, w)" sample_webhook "''local''" "default_Flags\<lparr>fl_useLevelTriggeredController := True\<rparr>"]
  by simp

section \<open>A failing setup of the caches\<close>

definition only_fails :: "('b, 'w) boot_platform \<Rightarrow> 'w boot_call \<Rightarrow> bool" where
  "only_fails bp failing \<longleftrightarrow> (\<forall>c w. fst (bp c w) \<noteq> None \<longleftrightarrow> c = failing)"

lemma only_fails_other: "only_fails bp failing \<Longrightarrow> c \<noteq> failing \<Longrightarrow> fst (bp c w) = None"
  unfolding only_fails_def by blast

lemma only_fails_self: "only_fails bp failing \<Longrightarrow> \<exists>e. fst (bp failing w) = Some e"
  by (auto simp: only_fails_def)

text \<open>What the calls of a start look like in which no controller is built.\<close>

abbreviation no_controller :: "'w boot_call list \<Rightarrow> bool" where
  "no_controller cs \<equiv> \<forall>r. BuildController r \<notin> set cs"

lemma cache_setup_stops:
  assumes "failing \<in> set (caches_calls L)" and "only_fails bp failing" and "no_controller (bt_calls b)"
  shows "wp (caches_setupWithManager bp L) (\<lambda>err t. err \<noteq> None \<and> no_controller (bt_calls t)) b"
proof -
  obtain e where "fst (bp failing w) = Some (e w)" for w using only_fails_self [OF assms(2)] by metis
  with assms(1,3) only_fails_other [OF assms(2)] show ?thesis
    by (auto simp: caches_setupWithManager_def caches_calls_def wp_boot split: option.split)
qed

lemma cut_short_start:
  assumes "failing \<in> set (caches_calls L)" and "only_fails bp failing" and "no_controller (bt_calls b)"
  shows "wp (boot_end bp W K fl reg)
    (\<lambda>code t. code = 0 \<and> StartManager \<in> set (bt_calls t) \<and> no_controller (bt_calls t)) b"
proof -
  have "fst (bp c w) = None" if "c \<notin> set (caches_calls L)" for c w
    by (rule only_fails_other [OF assms(2)]) (use assms(1) that in blast)
  with assms(3) show ?thesis
    by (simp add: start_server_def wp_boot wp_boot_NewPromotionServer wp_case_sum caches_calls_def)
qed

text \<open>C40. A failing setup of the caches goes unnoticed. If the level-triggered controller is chosen and
  one of the calls of the caches' setup fails while all others succeed, the program starts all the
  same and ends with code 0, but no controller is ever built: nothing is reconciled.\<close>

theorem cache_setup_failure_unnoticed:
  assumes "bt_calls b = []" and "fl_useLevelTriggeredController fl" and "failing \<in> set (caches_calls L)"
    and "only_fails bp failing"
  shows "value_of (main_program bp L W K P G cfg fl) b = 0 \<and>
    StartManager \<in> set (bt_calls (exec (main_program bp L W K P G cfg fl) b)) \<and>
    (\<forall>r. BuildController r \<notin> set (bt_calls (exec (main_program bp L W K P G cfg fl) b)))"
proof -
  let ?reg = "default_registry P G K"
  let ?Q = "\<lambda>code t. code = (0 :: nat) \<and> StartManager \<in> set (bt_calls t) \<and> no_controller (bt_calls t)"
  have setup_done: "wp (setup_controller bp L cfg fl ?reg) (\<lambda>err t. err = None \<and> no_controller (bt_calls t)) u"
    if "no_controller (bt_calls u)" for u
    unfolding setup_controller_def level_SetupWithManager_def if_P [OF assms(2)] wp_bind
    by (rule wp_mono [OF cache_setup_stops [OF assms(3,4) that]]) (auto simp: wp_return)
  have "wp (or_exit (setup_controller bp L cfg fl ?reg) (boot_end bp W K fl ?reg)) ?Q u" if "no_controller (bt_calls u)" for u
    unfolding wp_or_exit [of "setup_controller _ _ _ _ _"]
    by (rule wp_mono [OF setup_done [OF that]]) (auto intro: cut_short_start [OF assms(3,4)])
  moreover have "fst (bp (NewManager o1) w) = None" "fst (bp (NewEventRecorder a n) w) = None" for o1 a n w
    using only_fails_other [OF assms(4)] assms(3) by (auto simp: caches_calls_def)
  ultimately have "wp (main_program bp L W K P G cfg fl) ?Q b"
    unfolding main_program_def PullRequest_New_def Pull_Request_Strategy.setDefaults_def apply_Opts.simps sum.case option.case Let_def
      wp_or_exit [of "bcall bp (NewManager _)"] wp_or_exit [of "bcall bp (NewEventRecorder _ _)"] wp_bcall
    using assms(1) by simp
  then show ?thesis by (simp add: wp_exec)
qed

definition broken_boot :: "(unit, git_store) boot_platform" where
  "broken_boot c w = (case c of ManagerAdd CacheCollector \<Rightarrow> (Some (PlainError ''already started''), w) | _ \<Rightarrow> (None, w))"

theorem cache_setup_failure_unnoticed_witness:
  "value_of (main_program broken_boot mem_lib sample_webhook git_mem_platform mem_git mem_gitlib ''local''
     (default_Flags\<lparr>fl_useLevelTriggeredController := True\<rparr>)) \<lparr>bt_outside = (), bt_calls = []\<rparr> = 0"
proof -
  have "only_fails broken_boot (ManagerAdd CacheCollector)"
    by (auto simp: only_fails_def broken_boot_def split: boot_call.splits runnable.splits)
  then show ?thesis
    by (intro cache_setup_failure_unnoticed [of _ _ "ManagerAdd CacheCollector" mem_lib, THEN conjunct1])
       (simp_all add: caches_calls_def)
qed

end
