(* ===== verification/Go_Heap.thy ===== *)
theory Go_Heap
  imports PC_Prelude
begin

text \<open>
  The memory behind Go's pointers, slices and maps, as far as copying is concerned: a heap of
  cells, one per allocation, a free address, and the traversals of an object that follow its
  references. \<open>read\<close> follows every reference of a value and gives the tree it denotes with
  the addresses it visits, or \<open>None\<close> when a reference leads to a cell of another type, which
  Go's type system excludes. The locale \<open>deep_copier\<close> is the contract of a
  \<open>DeepCopyInto\<close> function: the copy denotes the same tree, all its cells are new and
  distinct, and no old cell is written. It is closed under the ways the generated code
  composes copies: fields, elements of a slice, and what a pointer points to.
\<close>

named_theorems copiers \<open>composition rules of the contract of deep copies\<close>

section \<open>Heap\<close>

record 'c heap =
  hp_next :: nat
  hp_cell :: "nat \<Rightarrow> 'c"

definition set_cell :: "nat \<Rightarrow> 'c \<Rightarrow> 'c heap \<Rightarrow> 'c heap" where
  "set_cell a c h = h\<lparr>hp_cell := (hp_cell h)(a := c)\<rparr>"

text \<open>\<open>new(T)\<close> and \<open>make(T, n)\<close>: the next address, with the given zero value.\<close>

definition alloc :: "'c \<Rightarrow> 'c heap \<Rightarrow> nat \<times> 'c heap" where
  "alloc z h = (hp_next h, set_cell (hp_next h) z (h\<lparr>hp_next := Suc (hp_next h)\<rparr>))"

text \<open>Every address is below the next free one; nothing allocated before is written since.\<close>

definition allocated :: "'c heap \<Rightarrow> nat list \<Rightarrow> bool" where
  "allocated h as = (\<forall>a \<in> set as. a < hp_next h)"

definition extends :: "'c heap \<Rightarrow> 'c heap \<Rightarrow> bool" where
  "extends h h' \<longleftrightarrow> hp_next h \<le> hp_next h' \<and> (\<forall>a < hp_next h. hp_cell h' a = hp_cell h a)"

text \<open>Addresses allocated on the way from one heap to another, each met once.\<close>

definition fresh :: "'c heap \<Rightarrow> 'c heap \<Rightarrow> nat list \<Rightarrow> bool" where
  "fresh h h' bs \<longleftrightarrow> distinct bs \<and> (\<forall>b \<in> set bs. hp_next h \<le> b \<and> b < hp_next h')"

definition agree_on :: "nat list \<Rightarrow> 'c heap \<Rightarrow> 'c heap \<Rightarrow> bool" where
  "agree_on as h h' = (\<forall>a \<in> set as. hp_cell h' a = hp_cell h a)"

lemma extends_refl [simp]: "extends h h"
  by (simp add: extends_def)

lemma extends_trans: "extends h h1 \<Longrightarrow> extends h1 h2 \<Longrightarrow> extends h h2"
  by (auto simp: extends_def)

lemma extends_alloc: "alloc z h = (b, h1) \<Longrightarrow> extends h h1"
  by (auto simp: alloc_def extends_def set_cell_def)

lemma extends_set_fresh: "extends h h1 \<Longrightarrow> hp_next h \<le> b \<Longrightarrow> extends h (set_cell b c h1)"
  by (auto simp: extends_def set_cell_def)

lemma allocated_append [simp]: "allocated h (as @ bs) \<longleftrightarrow> allocated h as \<and> allocated h bs"
  by (auto simp: allocated_def)

lemma allocated_Cons [simp]: "allocated h (a # as) \<longleftrightarrow> a < hp_next h \<and> allocated h as"
  by (auto simp: allocated_def)

lemma hp_next_set_cell [simp]: "hp_next (set_cell a c h) = hp_next h"
  by (simp add: set_cell_def)

lemma allocated_set_cell [simp]: "allocated (set_cell a c h) as \<longleftrightarrow> allocated h as"
  by (simp add: allocated_def)

lemma hp_cell_set_cell [simp]: "hp_cell (set_cell a c h) b = (if b = a then c else hp_cell h b)"
  by (simp add: set_cell_def)

lemma allocated_mono: "allocated h as \<Longrightarrow> extends h h1 \<Longrightarrow> allocated h1 as"
  by (auto simp: allocated_def extends_def dest: order_less_le_trans)

lemma allocated_agree: "allocated h as \<Longrightarrow> extends h h1 \<Longrightarrow> agree_on as h h1"
  by (simp add: allocated_def extends_def agree_on_def)

lemma agree_on_append [simp]: "agree_on (as @ bs) h h' \<longleftrightarrow> agree_on as h h' \<and> agree_on bs h h'"
  by (auto simp: agree_on_def)

lemma agree_on_refl [simp]: "agree_on as h h"
  by (simp add: agree_on_def)

lemma fresh_append:
  assumes "fresh h h1 as" "extends h h1" "fresh h1 h2 bs" "extends h1 h2"
  shows "fresh h h2 (as @ bs)"
  using assms by (fastforce simp: fresh_def extends_def)

lemma fresh_agree: "fresh h h1 bs \<Longrightarrow> extends h1 h2 \<Longrightarrow> agree_on bs h1 h2"
  by (simp add: fresh_def extends_def agree_on_def)

lemma fresh_disjoint: "allocated h as \<Longrightarrow> fresh h h' bs \<Longrightarrow> set as \<inter> set bs = {}"
  by (fastforce simp: allocated_def fresh_def)

lemma fresh_allocated: "fresh h h' bs \<Longrightarrow> allocated h' bs"
  by (simp add: fresh_def allocated_def)

section \<open>The contract of a deep copy\<close>

type_synonym ('a, 'c) copy_fun = "'a \<Rightarrow> 'c heap \<Rightarrow> 'a \<times> 'c heap"
type_synonym ('a, 't, 'c) read_fun = "'c heap \<Rightarrow> 'a \<Rightarrow> ('t \<times> nat list) option"

locale deep_copier =
  fixes copy :: "('a, 'c) copy_fun"
    and read :: "('a, 't, 'c) read_fun"
  assumes copy_law: "read h x = Some (t, as) \<Longrightarrow> allocated h as \<Longrightarrow> copy x h = (y, h') \<Longrightarrow>
      \<exists>bs. read h' y = Some (t, bs) \<and> fresh h h' bs \<and> extends h h'"
    and frame: "read h x = Some (t, as) \<Longrightarrow> agree_on as h h' \<Longrightarrow> read h' x = Some (t, as)"
begin

text \<open>What a caller of the copy relies on: the same contents, no cell in common, and from then
  on a write to the one is not seen through the other, in either direction.\<close>

lemma isolated:
  assumes "read h x = Some (t, as)" "allocated h as" "copy x h = (y, h')"
  obtains bs where "read h' y = Some (t, bs)" "distinct bs" "set as \<inter> set bs = {}"
    "extends h h'" "read h' x = Some (t, as)"
    "\<And>g. agree_on bs h' g \<Longrightarrow> read g y = Some (t, bs)"
    "\<And>g. agree_on as h' g \<Longrightarrow> read g x = Some (t, as)"
proof -
  obtain bs where bs: "read h' y = Some (t, bs)" "fresh h h' bs" "extends h h'"
    using copy_law [OF assms] by blast
  have x: "read h' x = Some (t, as)"
    using frame [OF assms(1)] allocated_agree [OF assms(2) bs(3)] by blast
  show thesis
    using that [OF bs(1) _ fresh_disjoint [OF assms(2) bs(2)] bs(3) x frame [OF bs(1)] frame [OF x]] bs(2)
    by (simp add: fresh_def)
qed

end

section \<open>Copying by composition\<close>

text \<open>\<open>*out = *in\<close> for a type without references.\<close>

definition copy_plain :: "('a, 'c) copy_fun" where
  "copy_plain x h = (x, h)"

definition read_plain :: "('a, 'a, 'c) read_fun" where
  "read_plain h x = Some (x, [])"

lemma copier_plain [copiers]: "deep_copier copy_plain read_plain"
  by unfold_locales (simp_all add: copy_plain_def read_plain_def fresh_def)

text \<open>Two fields, one after the other.\<close>

definition copy_both :: "('a, 'c) copy_fun \<Rightarrow> ('b, 'c) copy_fun \<Rightarrow> ('a \<times> 'b, 'c) copy_fun" where
  "copy_both c d = (\<lambda>(x, y) h. let (x', h1) = c x h; (y', h2) = d y h1 in ((x', y'), h2))"

lemma copy_both_pair:
  "copy_both c d (x, y) h = (let (x', h1) = c x h; (y', h2) = d y h1 in ((x', y'), h2))"
  by (simp add: copy_both_def)

definition read_both :: "('a, 't, 'c) read_fun \<Rightarrow> ('b, 'u, 'c) read_fun \<Rightarrow> ('a \<times> 'b, 't \<times> 'u, 'c) read_fun"
where
  "read_both r s h = (\<lambda>(x, y). case r h x of None \<Rightarrow> None | Some (t, as) \<Rightarrow>
     (case s h y of None \<Rightarrow> None | Some (u, bs) \<Rightarrow> Some ((t, u), as @ bs)))"

text \<open>The two laws apart, the first for one value: the elements of a slice are copied in
  turn, and the law of the rest is known only for the rest.\<close>

definition copied :: "('a, 'c) copy_fun \<Rightarrow> ('a, 't, 'c) read_fun \<Rightarrow> 'a \<Rightarrow> bool" where
  "copied c r x \<longleftrightarrow>
     (\<forall>h t as y h'. r h x = Some (t, as) \<longrightarrow> allocated h as \<longrightarrow> c x h = (y, h') \<longrightarrow>
        (\<exists>bs. r h' y = Some (t, bs) \<and> fresh h h' bs \<and> extends h h'))"

definition framed :: "('a, 't, 'c) read_fun \<Rightarrow> bool" where
  "framed r \<longleftrightarrow>
     (\<forall>h x t as h'. r h x = Some (t, as) \<longrightarrow> agree_on as h h' \<longrightarrow> r h' x = Some (t, as))"

lemma deep_copier_iff: "deep_copier c r \<longleftrightarrow> (\<forall>x. copied c r x) \<and> framed r"
  unfolding deep_copier_def copied_def framed_def by blast

lemma framedD: "framed r \<Longrightarrow> r h x = Some (t, as) \<Longrightarrow> agree_on as h h' \<Longrightarrow> r h' x = Some (t, as)"
  unfolding framed_def by blast

lemma copiedD:
  assumes "copied c r x" "r h x = Some (t, as)" "allocated h as" "c x h = (y, h')"
  obtains bs where "r h' y = Some (t, bs)" "fresh h h' bs" "extends h h'"
  using assms unfolding copied_def by blast

lemma read_both_Some:
  "read_both r s h (x, y) = Some (t, as) \<longleftrightarrow>
     (\<exists>as1 as2. r h x = Some (fst t, as1) \<and> s h y = Some (snd t, as2) \<and> as = as1 @ as2)"
  by (cases t) (auto simp: read_both_def split: option.splits)

lemma framed_both:
  assumes "framed r" "framed s"
  shows "framed (read_both r s)"
  unfolding framed_def
proof (intro allI impI)
  fix h x t as h'
  assume r: "read_both r s h x = Some (t, as)" and ag: "agree_on as h h'"
  obtain x1 x2 where x: "x = (x1, x2)" by (cases x)
  obtain as1 as2 where "r h x1 = Some (fst t, as1)" "s h x2 = Some (snd t, as2)" and as: "as = as1 @ as2"
    using r by (auto simp: x read_both_Some)
  moreover have "agree_on as1 h h'" "agree_on as2 h h'"
    using ag by (simp_all add: as)
  ultimately have "r h' x1 = Some (fst t, as1)" "s h' x2 = Some (snd t, as2)"
    using framedD [OF assms(1)] framedD [OF assms(2)] by blast+
  then show "read_both r s h' x = Some (t, as)"
    by (simp add: x read_both_Some as)
qed

lemma copied_both:
  assumes c1: "copied c r x1" and c2: "copied d s x2" and f: "framed r" "framed s"
  shows "copied (copy_both c d) (read_both r s) (x1, x2)"
  unfolding copied_def
proof (intro allI impI)
  fix h t as y h'
  assume r: "read_both r s h (x1, x2) = Some (t, as)" and al: "allocated h as"
    and cp: "copy_both c d (x1, x2) h = (y, h')"
  obtain as1 as2 where r1: "r h x1 = Some (fst t, as1)" and r2: "s h x2 = Some (snd t, as2)"
    and as: "as = as1 @ as2"
    using r by (auto simp: read_both_Some)
  have al1: "allocated h as1" and al2: "allocated h as2" using al by (simp_all add: as)
  obtain y1 h1 where d1: "c x1 h = (y1, h1)" by (cases "c x1 h")
  obtain y2 h2 where d2: "d x2 h1 = (y2, h2)" by (cases "d x2 h1")
  have y: "y = (y1, y2)" "h' = h2" using cp by (auto simp: copy_both_def d1 d2)
  obtain bs1 where b1: "r h1 y1 = Some (fst t, bs1)" "fresh h h1 bs1" "extends h h1"
    by (rule copiedD [OF c1 r1 al1 d1])
  have "s h1 x2 = Some (snd t, as2)"
    by (rule framedD [OF f(2) r2 allocated_agree [OF al2 b1(3)]])
  then obtain bs2 where b2: "s h2 y2 = Some (snd t, bs2)" "fresh h1 h2 bs2" "extends h1 h2"
    by (rule copiedD [OF c2 _ allocated_mono [OF al2 b1(3)] d2])
  have "r h2 y1 = Some (fst t, bs1)"
    by (rule framedD [OF f(1) b1(1) fresh_agree [OF b1(2) b2(3)]])
  then have "read_both r s h' y = Some (t, bs1 @ bs2)"
    using b2(1) by (simp add: y read_both_Some)
  then show "\<exists>bs. read_both r s h' y = Some (t, bs) \<and> fresh h h' bs \<and> extends h h'"
    using fresh_append [OF b1(2,3) b2(2,3)] extends_trans [OF b1(3) b2(3)] y by blast
qed

lemma copier_both [copiers]:
  "deep_copier c r \<Longrightarrow> deep_copier d s \<Longrightarrow> deep_copier (copy_both c d) (read_both r s)"
  by (simp add: deep_copier_iff framed_both copied_both)

text \<open>A struct, after \<open>*out = *in\<close>: the fields that hold references are read by
  \<open>get\<close> and overwritten by \<open>put\<close>, all others are kept.\<close>

definition copy_field ::
  "('s \<Rightarrow> 'a) \<Rightarrow> ('a \<Rightarrow> 's \<Rightarrow> 's) \<Rightarrow> ('a, 'c) copy_fun \<Rightarrow> ('s, 'c) copy_fun" where
  "copy_field get put c x h = (let (y, h') = c (get x) h in (put y x, h'))"

definition read_field ::
  "('s \<Rightarrow> 'a) \<Rightarrow> ('s \<Rightarrow> 't \<Rightarrow> 'u) \<Rightarrow> ('a, 't, 'c) read_fun \<Rightarrow> ('s, 'u, 'c) read_fun" where
  "read_field get mk r h x = map_option (\<lambda>(t, as). (mk x t, as)) (r h (get x))"

lemma copier_field:
  assumes "deep_copier c r" "\<And>y x. get (put y x) = y" "\<And>y x t. mk (put y x) t = mk x t"
  shows "deep_copier (copy_field get put c) (read_field get mk r)"
proof
  fix h x u as y h'
  assume "read_field get mk r h x = Some (u, as)" "allocated h as"
    and cp: "copy_field get put c x h = (y, h')"
  then obtain t where "r h (get x) = Some (t, as)" and u: "u = mk x t"
    by (auto simp: read_field_def)
  moreover obtain z where "c (get x) h = (z, h')" and y: "y = put z x"
    using cp by (auto simp: copy_field_def split: prod.splits)
  ultimately obtain bs where "r h' z = Some (t, bs)" "fresh h h' bs" "extends h h'"
    using deep_copier.copy_law [OF assms(1)] \<open>allocated h as\<close> by blast
  then show "\<exists>bs. read_field get mk r h' y = Some (u, bs) \<and> fresh h h' bs \<and> extends h h'"
    by (simp add: read_field_def u y assms(2,3))
next
  fix h x u as h'
  assume "read_field get mk r h x = Some (u, as)" and ag: "agree_on as h h'"
  then obtain t where t: "r h (get x) = Some (t, as)" "u = mk x t"
    by (auto simp: read_field_def)
  show "read_field get mk r h' x = Some (u, as)"
    by (simp add: read_field_def t(2) deep_copier.frame [OF assms(1) t(1) ag])
qed

text \<open>The elements of a slice, in order.\<close>

fun copy_list :: "('a, 'c) copy_fun \<Rightarrow> ('a list, 'c) copy_fun" where
  "copy_list c [] h = ([], h)"
| "copy_list c (x # xs) h = (let (y, h1) = c x h; (ys, h2) = copy_list c xs h1 in (y # ys, h2))"

fun read_list :: "('a, 't, 'c) read_fun \<Rightarrow> ('a list, 't list, 'c) read_fun" where
  "read_list r h [] = Some ([], [])"
| "read_list r h (x # xs) = (case r h x of None \<Rightarrow> None | Some (t, as) \<Rightarrow>
     (case read_list r h xs of None \<Rightarrow> None | Some (ts, bs) \<Rightarrow> Some (t # ts, as @ bs)))"

lemma copy_list_Cons:
  "copy_list c (x # xs) h = (let (p, h') = copy_both c (copy_list c) (x, xs) h in (fst p # snd p, h'))"
  by (simp add: copy_both_def Let_def split: prod.splits)

lemma read_list_Cons:
  "read_list r h (x # xs) = map_option (\<lambda>(p, as). (fst p # snd p, as)) (read_both r (read_list r) h (x, xs))"
  by (simp add: read_both_def split: option.splits)

lemma read_list_Cons_Some:
  "read_list r h (x # xs) = Some (t, as) \<longleftrightarrow>
     (\<exists>u us. t = u # us \<and> read_both r (read_list r) h (x, xs) = Some ((u, us), as))"
  unfolding read_list_Cons by auto

lemma framed_list:
  assumes "framed r"
  shows "framed (read_list r)"
proof -
  have "read_list r h xs = Some (t, as) \<Longrightarrow> agree_on as h h' \<Longrightarrow> read_list r h' xs = Some (t, as)"
    for h h' xs t as
  proof (induction xs arbitrary: t as)
    case (Cons x xs)
    obtain u us as1 as2 where t: "t = u # us" "as = as1 @ as2" and "r h x = Some (u, as1)"
      and "read_list r h xs = Some (us, as2)"
      using Cons.prems(1) by (auto simp: read_list_Cons_Some read_both_Some simp del: read_list.simps)
    moreover have "agree_on as1 h h'" "agree_on as2 h h'"
      using Cons.prems(2) t by simp_all
    ultimately have "r h' x = Some (u, as1)" "read_list r h' xs = Some (us, as2)"
      using framedD [OF assms] Cons.IH by blast+
    then show ?case by (simp add: t)
  qed simp
  then show ?thesis unfolding framed_def by blast
qed

lemma copied_list:
  assumes "\<And>x. copied c r x" "framed r"
  shows "copied (copy_list c) (read_list r) xs"
proof (induction xs)
  case Nil
  show ?case by (simp add: copied_def fresh_def)
next
  case (Cons x xs)
  have both: "copied (copy_both c (copy_list c)) (read_both r (read_list r)) (x, xs)"
    by (rule copied_both [OF assms(1) Cons.IH assms(2) framed_list [OF assms(2)]])
  show ?case
    unfolding copied_def
  proof (intro allI impI)
    fix h t as y h'
    assume r: "read_list r h (x # xs) = Some (t, as)" and al: "allocated h as"
      and cp: "copy_list c (x # xs) h = (y, h')"
    obtain u where u: "read_both r (read_list r) h (x, xs) = Some (u, as)" and t: "t = fst u # snd u"
      using r by (auto simp: read_list_Cons_Some simp del: read_list.simps)
    obtain z where z: "copy_both c (copy_list c) (x, xs) h = (z, h')" and y: "y = fst z # snd z"
      using cp unfolding copy_list_Cons by (auto simp: Let_def split: prod.splits)
    obtain bs where "read_both r (read_list r) h' z = Some (u, bs)" "fresh h h' bs" "extends h h'"
      by (rule copiedD [OF both u al z])
    then show "\<exists>bs. read_list r h' y = Some (t, bs) \<and> fresh h h' bs \<and> extends h h'"
      by (auto simp: y t read_list_Cons_Some simp del: read_list.simps)
  qed
qed

lemma copier_list [copiers]: "deep_copier c r \<Longrightarrow> deep_copier (copy_list c) (read_list r)"
  by (simp add: deep_copier_iff framed_list copied_list)

text \<open>What a pointer points to, with \<open>sel\<close> and \<open>mk\<close> the cells of its type: nothing for
  nil, otherwise a new cell, into which the contents are copied.\<close>

definition copy_ref ::
  "'c \<Rightarrow> ('c \<Rightarrow> 'a option) \<Rightarrow> ('a \<Rightarrow> 'c) \<Rightarrow> ('a, 'c) copy_fun \<Rightarrow> (nat option, 'c) copy_fun" where
  "copy_ref z sel mk c p h =
     (case p of
        None \<Rightarrow> (None, h)
      | Some a \<Rightarrow>
          (case sel (hp_cell h a) of
             None \<Rightarrow> (p, h)
           | Some x \<Rightarrow>
               let (b, h1) = alloc z h; (y, h2) = c x h1 in (Some b, set_cell b (mk y) h2)))"

definition read_ref ::
  "('c \<Rightarrow> 'a option) \<Rightarrow> ('a, 't, 'c) read_fun \<Rightarrow> (nat option, 't option, 'c) read_fun" where
  "read_ref sel r h p =
     (case p of
        None \<Rightarrow> Some (None, [])
      | Some a \<Rightarrow>
          (case sel (hp_cell h a) of
             None \<Rightarrow> None
           | Some x \<Rightarrow> map_option (\<lambda>(t, as). (Some t, a # as)) (r h x)))"

lemma read_ref_Some:
  "read_ref sel r h (Some a) = Some (u, as) \<longleftrightarrow>
     (\<exists>x t bs. sel (hp_cell h a) = Some x \<and> r h x = Some (t, bs) \<and> u = Some t \<and> as = a # bs)"
  by (auto simp: read_ref_def split: option.splits)

lemma read_ref_None [simp]: "read_ref sel r h None = Some (None, [])"
  by (simp add: read_ref_def)

lemma framed_ref:
  assumes "framed r"
  shows "framed (read_ref sel r)"
  unfolding framed_def
proof (intro allI impI)
  fix h p u as h'
  assume r: "read_ref sel r h p = Some (u, as)" and ag: "agree_on as h h'"
  show "read_ref sel r h' p = Some (u, as)"
  proof (cases p)
    case (Some a)
    then obtain x t bs where x: "sel (hp_cell h a) = Some x" "r h x = Some (t, bs)"
      "u = Some t" "as = a # bs"
      using r by (auto simp: read_ref_Some)
    moreover have "hp_cell h' a = hp_cell h a" "agree_on bs h h'"
      using ag by (simp_all add: x agree_on_def)
    ultimately show ?thesis
      using framedD [OF assms x(2)] by (simp add: Some read_ref_Some)
  qed (use r in simp)
qed

lemma copied_ref:
  assumes c: "\<And>x. copied c r x" and f: "framed r" and mk: "\<And>x. sel (mk x) = Some x"
  shows "copied (copy_ref z sel mk c) (read_ref sel r) p"
  unfolding copied_def
proof (intro allI impI)
  fix h u as q h'
  assume r: "read_ref sel r h p = Some (u, as)" and al: "allocated h as"
    and cp: "copy_ref z sel mk c p h = (q, h')"
  show "\<exists>bs. read_ref sel r h' q = Some (u, bs) \<and> fresh h h' bs \<and> extends h h'"
  proof (cases p)
    case None
    then show ?thesis using r cp by (simp add: copy_ref_def fresh_def)
  next
    case (Some a)
    then obtain x t as1 where x: "sel (hp_cell h a) = Some x" "r h x = Some (t, as1)"
      "u = Some t" "as = a # as1"
      using r by (auto simp: read_ref_Some)
    obtain b h1 where b: "alloc z h = (b, h1)" by (cases "alloc z h")
    obtain y h2 where y: "c x h1 = (y, h2)" by (cases "c x h1")
    have q: "q = Some b" "h' = set_cell b (mk y) h2"
      using cp by (auto simp: copy_ref_def Some x b y)
    have e1: "extends h h1" by (rule extends_alloc [OF b])
    have b': "b = hp_next h" "hp_next h1 = Suc b"
      using b by (auto simp: alloc_def set_cell_def)
    have al1: "allocated h as1" using al by (simp add: x allocated_def)
    have r1: "r h1 x = Some (t, as1)"
      by (rule framedD [OF f x(2) allocated_agree [OF al1 e1]])
    obtain bs where bs: "r h2 y = Some (t, bs)" "fresh h1 h2 bs" "extends h1 h2"
      by (rule copiedD [OF c r1 allocated_mono [OF al1 e1] y])
    have "agree_on bs h2 h'"
      using bs(2) by (auto simp: q agree_on_def set_cell_def fresh_def b')
    then have "r h' y = Some (t, bs)" by (rule framedD [OF f bs(1)])
    then have "read_ref sel r h' q = Some (u, b # bs)"
      by (simp add: q read_ref_Some x mk set_cell_def)
    moreover have "fresh h h' (b # bs)"
      using bs(2,3) by (auto simp: fresh_def q set_cell_def b' extends_def)
    moreover have "extends h h'"
      unfolding q by (rule extends_set_fresh [OF extends_trans [OF e1 bs(3)]]) (simp add: b')
    ultimately show ?thesis by blast
  qed
qed

lemma copier_ref [copiers]:
  "deep_copier c r \<Longrightarrow> (\<And>x. sel (mk x) = Some x) \<Longrightarrow>
     deep_copier (copy_ref z sel mk c) (read_ref sel r)"
  by (simp add: deep_copier_iff framed_ref copied_ref)

end
