(* ===== verification/Deep_Copy.thy ===== *)
theory Deep_Copy
  imports Go_Heap Api_Types
begin

text \<open>
  The generated \<open>DeepCopyInto\<close>, \<open>DeepCopy\<close> and \<open>DeepCopyObject\<close> functions
  (\<open>zz_generated.deepcopy.go\<close>) on the heap of \<open>Go_Heap\<close>. Each struct that holds
  references is a record whose reference fields have a type parameter: addresses
  (\<open>nat option\<close>, nil being \<open>None\<close>) for the struct in memory, the tree below the
  reference for what it denotes, so that a nil slice and an empty one, and a map entry that is
  nil, stay distinct. A slice is one cell with its elements, a map one cell with its entries.
  \<open>DeepCopyInto in\<close> is the value the function leaves in \<open>*out\<close>. The copies of
  \<open>ObjectMeta\<close>, \<open>ListMeta\<close> and \<open>Condition\<close> belong to the API machinery: they are
  parameters, which are assumed to be deep copies.
\<close>

section \<open>Structs in memory and the trees they denote\<close>

record TypeMeta =
  tm_Kind :: string
  tm_APIVersion :: string

record 'cr gTarget =
  gt_Namespace :: string
  gt_ClusterRef :: 'cr

record 'cr gClusterAppReference =
  gca_LocalAppReference :: LocalAppReference
  gca_ClusterRef :: 'cr

record ('pr, 'no, 'sr) gStrategy =
  gs_PullRequest :: 'pr
  gs_Notification :: 'no
  gs_SecretRef :: 'sr

record 'st gPromotion =
  gp_Manual :: bool
  gp_Strategy :: 'st

record ('ts, 'pr) gEnvironment =
  ge_Name :: string
  ge_Targets :: 'ts
  ge_Promotion :: 'pr

record ('es, 'pr) gPipelineSpec =
  gsp_Environments :: 'es
  gsp_AppRef :: LocalAppReference
  gsp_Promotion :: 'pr

record 'ca gTargetStatus =
  gts_ClusterAppRef :: 'ca
  gts_Ready :: bool
  gts_Revision :: string
  gts_Error :: string

record 'ts gEnvironmentStatus =
  ges_WaitingApproval :: WaitingApproval
  ges_Targets :: 'ts

record ('cs, 'es) gPipelineStatus =
  gps_ObservedGeneration :: int
  gps_Conditions :: 'cs
  gps_Environments :: 'es

record ('om, 'sp, 'st) gPipeline =
  gpl_TypeMeta :: TypeMeta
  gpl_ObjectMeta :: 'om
  gpl_Spec :: 'sp
  gpl_Status :: 'st

record ('lm, 'is) gPipelineList =
  gl_TypeMeta :: TypeMeta
  gl_ListMeta :: 'lm
  gl_Items :: 'is

type_synonym ref = "nat option"
type_synonym hTarget = "ref gTarget"
type_synonym hClusterAppReference = "ref gClusterAppReference"
type_synonym hStrategy = "(ref, ref, ref) gStrategy"
type_synonym hPromotion = "hStrategy gPromotion"
type_synonym hEnvironment = "(ref, ref) gEnvironment"
type_synonym hPipelineSpec = "(ref, ref) gPipelineSpec"
type_synonym hTargetStatus = "hClusterAppReference gTargetStatus"
type_synonym hEnvironmentStatus = "ref gEnvironmentStatus"
type_synonym hPipelineStatus = "(ref, ref) gPipelineStatus"
type_synonym 'x hPipeline = "('x, hPipelineSpec, hPipelineStatus) gPipeline"
type_synonym 'x hPipelineList = "('x, ref) gPipelineList"

type_synonym tTarget = "CrossNamespaceClusterReference option gTarget"
type_synonym tClusterAppReference = "CrossNamespaceClusterReference option gClusterAppReference"
type_synonym tStrategy =
  "(PullRequestPromotion option, NotificationPromotion option, string option) gStrategy"
type_synonym tPromotion = "tStrategy gPromotion"
type_synonym tEnvironment = "(tTarget list option, tPromotion option) gEnvironment"
type_synonym tPipelineSpec = "(tEnvironment list option, tPromotion option) gPipelineSpec"
type_synonym tTargetStatus = "tClusterAppReference gTargetStatus"
type_synonym tEnvironmentStatus = "tTargetStatus list option gEnvironmentStatus"
type_synonym tEnvironments = "(string \<times> tEnvironmentStatus option) list"
type_synonym 't tPipelineStatus = "('t list option, tEnvironments option) gPipelineStatus"
type_synonym 't tPipeline = "('t, tPipelineSpec, 't tPipelineStatus) gPipeline"
type_synonym 't tPipelineList = "('t, 't tPipeline list option) gPipelineList"

text \<open>A cell holds a value of one of the types the code allocates, or is still zero.
  \<open>'x\<close> are the values of the API machinery's types, in a struct or in cells of their own.\<close>

datatype 'x cell =
    C_Zero
  | C_ClusterAppReference hClusterAppReference
  | C_CrossNamespaceClusterReference CrossNamespaceClusterReference
  | C_Environment hEnvironment
  | C_EnvironmentStatus hEnvironmentStatus
  | C_LocalAppReference LocalAppReference
  | C_NotificationPromotion NotificationPromotion
  | C_Pipeline "'x hPipeline"
  | C_PipelineList "'x hPipelineList"
  | C_PipelineSpec hPipelineSpec
  | C_PipelineStatus hPipelineStatus
  | C_Promotion hPromotion
  | C_PullRequestPromotion PullRequestPromotion
  | C_Strategy hStrategy
  | C_Target hTarget
  | C_TargetStatus hTargetStatus
  | C_WaitingApproval WaitingApproval
  | C_LocalObjectReference string
  | C_Targets "hTarget list"
  | C_Environments "hEnvironment list"
  | C_TargetStatuses "hTargetStatus list"
  | C_Conditions "'x list"
  | C_Items "'x hPipeline list"
  | C_EnvironmentMap "(string \<times> ref) list"
  | C_Library 'x

text \<open>The contents of a cell, at the type a reference to it has.\<close>

definition cell_ClusterAppReference :: "'x cell \<Rightarrow> hClusterAppReference option" where
  "cell_ClusterAppReference c = (case c of C_ClusterAppReference x \<Rightarrow> Some x | _ \<Rightarrow> None)"

definition cell_CrossNamespaceClusterReference :: "'x cell \<Rightarrow> CrossNamespaceClusterReference option" where
  "cell_CrossNamespaceClusterReference c = (case c of C_CrossNamespaceClusterReference x \<Rightarrow> Some x | _ \<Rightarrow> None)"

definition cell_Environment :: "'x cell \<Rightarrow> hEnvironment option" where
  "cell_Environment c = (case c of C_Environment x \<Rightarrow> Some x | _ \<Rightarrow> None)"

definition cell_EnvironmentStatus :: "'x cell \<Rightarrow> hEnvironmentStatus option" where
  "cell_EnvironmentStatus c = (case c of C_EnvironmentStatus x \<Rightarrow> Some x | _ \<Rightarrow> None)"

definition cell_LocalAppReference :: "'x cell \<Rightarrow> LocalAppReference option" where
  "cell_LocalAppReference c = (case c of C_LocalAppReference x \<Rightarrow> Some x | _ \<Rightarrow> None)"

definition cell_NotificationPromotion :: "'x cell \<Rightarrow> NotificationPromotion option" where
  "cell_NotificationPromotion c = (case c of C_NotificationPromotion x \<Rightarrow> Some x | _ \<Rightarrow> None)"

definition cell_Pipeline :: "'x cell \<Rightarrow> ('x hPipeline) option" where
  "cell_Pipeline c = (case c of C_Pipeline x \<Rightarrow> Some x | _ \<Rightarrow> None)"

definition cell_PipelineList :: "'x cell \<Rightarrow> ('x hPipelineList) option" where
  "cell_PipelineList c = (case c of C_PipelineList x \<Rightarrow> Some x | _ \<Rightarrow> None)"

definition cell_PipelineSpec :: "'x cell \<Rightarrow> hPipelineSpec option" where
  "cell_PipelineSpec c = (case c of C_PipelineSpec x \<Rightarrow> Some x | _ \<Rightarrow> None)"

definition cell_PipelineStatus :: "'x cell \<Rightarrow> hPipelineStatus option" where
  "cell_PipelineStatus c = (case c of C_PipelineStatus x \<Rightarrow> Some x | _ \<Rightarrow> None)"

definition cell_Promotion :: "'x cell \<Rightarrow> hPromotion option" where
  "cell_Promotion c = (case c of C_Promotion x \<Rightarrow> Some x | _ \<Rightarrow> None)"

definition cell_PullRequestPromotion :: "'x cell \<Rightarrow> PullRequestPromotion option" where
  "cell_PullRequestPromotion c = (case c of C_PullRequestPromotion x \<Rightarrow> Some x | _ \<Rightarrow> None)"

definition cell_Strategy :: "'x cell \<Rightarrow> hStrategy option" where
  "cell_Strategy c = (case c of C_Strategy x \<Rightarrow> Some x | _ \<Rightarrow> None)"

definition cell_Target :: "'x cell \<Rightarrow> hTarget option" where
  "cell_Target c = (case c of C_Target x \<Rightarrow> Some x | _ \<Rightarrow> None)"

definition cell_TargetStatus :: "'x cell \<Rightarrow> hTargetStatus option" where
  "cell_TargetStatus c = (case c of C_TargetStatus x \<Rightarrow> Some x | _ \<Rightarrow> None)"

definition cell_WaitingApproval :: "'x cell \<Rightarrow> WaitingApproval option" where
  "cell_WaitingApproval c = (case c of C_WaitingApproval x \<Rightarrow> Some x | _ \<Rightarrow> None)"

definition cell_LocalObjectReference :: "'x cell \<Rightarrow> string option" where
  "cell_LocalObjectReference c = (case c of C_LocalObjectReference x \<Rightarrow> Some x | _ \<Rightarrow> None)"

definition cell_Targets :: "'x cell \<Rightarrow> hTarget list option" where
  "cell_Targets c = (case c of C_Targets x \<Rightarrow> Some x | _ \<Rightarrow> None)"

definition cell_Environments :: "'x cell \<Rightarrow> hEnvironment list option" where
  "cell_Environments c = (case c of C_Environments x \<Rightarrow> Some x | _ \<Rightarrow> None)"

definition cell_TargetStatuses :: "'x cell \<Rightarrow> hTargetStatus list option" where
  "cell_TargetStatuses c = (case c of C_TargetStatuses x \<Rightarrow> Some x | _ \<Rightarrow> None)"

definition cell_Conditions :: "'x cell \<Rightarrow> 'x list option" where
  "cell_Conditions c = (case c of C_Conditions x \<Rightarrow> Some x | _ \<Rightarrow> None)"

definition cell_Items :: "'x cell \<Rightarrow> 'x hPipeline list option" where
  "cell_Items c = (case c of C_Items x \<Rightarrow> Some x | _ \<Rightarrow> None)"

definition cell_EnvironmentMap :: "'x cell \<Rightarrow> (string \<times> ref) list option" where
  "cell_EnvironmentMap c = (case c of C_EnvironmentMap x \<Rightarrow> Some x | _ \<Rightarrow> None)"

lemma cell_contents [simp]:
  "cell_ClusterAppReference (C_ClusterAppReference x1) = Some x1"
  "cell_CrossNamespaceClusterReference (C_CrossNamespaceClusterReference x2) = Some x2"
  "cell_Environment (C_Environment x3) = Some x3"
  "cell_EnvironmentStatus (C_EnvironmentStatus x4) = Some x4"
  "cell_LocalAppReference (C_LocalAppReference x5) = Some x5"
  "cell_NotificationPromotion (C_NotificationPromotion x6) = Some x6"
  "cell_Pipeline (C_Pipeline x7) = Some x7"
  "cell_PipelineList (C_PipelineList x8) = Some x8"
  "cell_PipelineSpec (C_PipelineSpec x9) = Some x9"
  "cell_PipelineStatus (C_PipelineStatus x10) = Some x10"
  "cell_Promotion (C_Promotion x11) = Some x11"
  "cell_PullRequestPromotion (C_PullRequestPromotion x12) = Some x12"
  "cell_Strategy (C_Strategy x13) = Some x13"
  "cell_Target (C_Target x14) = Some x14"
  "cell_TargetStatus (C_TargetStatus x15) = Some x15"
  "cell_WaitingApproval (C_WaitingApproval x16) = Some x16"
  "cell_LocalObjectReference (C_LocalObjectReference x17) = Some x17"
  "cell_Targets (C_Targets x18) = Some x18"
  "cell_Environments (C_Environments x19) = Some x19"
  "cell_TargetStatuses (C_TargetStatuses x20) = Some x20"
  "cell_Conditions (C_Conditions x21) = Some x21"
  "cell_Items (C_Items x22) = Some x22"
  "cell_EnvironmentMap (C_EnvironmentMap x23) = Some x23"
  by (simp_all add: cell_ClusterAppReference_def cell_CrossNamespaceClusterReference_def cell_Environment_def
      cell_EnvironmentStatus_def cell_LocalAppReference_def cell_NotificationPromotion_def
      cell_Pipeline_def cell_PipelineList_def cell_PipelineSpec_def
      cell_PipelineStatus_def cell_Promotion_def cell_PullRequestPromotion_def
      cell_Strategy_def cell_Target_def cell_TargetStatus_def
      cell_WaitingApproval_def cell_LocalObjectReference_def cell_Targets_def
      cell_Environments_def cell_TargetStatuses_def cell_Conditions_def
      cell_Items_def cell_EnvironmentMap_def)

text \<open>\<open>new(T)\<close> or \<open>make([]T, n)\<close>, filled by a copy of what the old reference leads to.\<close>

abbreviation new_ClusterAppReference ::
  "(hClusterAppReference, 'x cell) copy_fun \<Rightarrow> (ref, 'x cell) copy_fun" where
  "new_ClusterAppReference \<equiv> copy_ref C_Zero cell_ClusterAppReference C_ClusterAppReference"

abbreviation new_CrossNamespaceClusterReference ::
  "(CrossNamespaceClusterReference, 'x cell) copy_fun \<Rightarrow> (ref, 'x cell) copy_fun" where
  "new_CrossNamespaceClusterReference \<equiv> copy_ref C_Zero cell_CrossNamespaceClusterReference C_CrossNamespaceClusterReference"

abbreviation new_Environment ::
  "(hEnvironment, 'x cell) copy_fun \<Rightarrow> (ref, 'x cell) copy_fun" where
  "new_Environment \<equiv> copy_ref C_Zero cell_Environment C_Environment"

abbreviation new_EnvironmentStatus ::
  "(hEnvironmentStatus, 'x cell) copy_fun \<Rightarrow> (ref, 'x cell) copy_fun" where
  "new_EnvironmentStatus \<equiv> copy_ref C_Zero cell_EnvironmentStatus C_EnvironmentStatus"

abbreviation new_LocalAppReference ::
  "(LocalAppReference, 'x cell) copy_fun \<Rightarrow> (ref, 'x cell) copy_fun" where
  "new_LocalAppReference \<equiv> copy_ref C_Zero cell_LocalAppReference C_LocalAppReference"

abbreviation new_NotificationPromotion ::
  "(NotificationPromotion, 'x cell) copy_fun \<Rightarrow> (ref, 'x cell) copy_fun" where
  "new_NotificationPromotion \<equiv> copy_ref C_Zero cell_NotificationPromotion C_NotificationPromotion"

abbreviation new_Pipeline ::
  "('x hPipeline, 'x cell) copy_fun \<Rightarrow> (ref, 'x cell) copy_fun" where
  "new_Pipeline \<equiv> copy_ref C_Zero cell_Pipeline C_Pipeline"

abbreviation new_PipelineList ::
  "('x hPipelineList, 'x cell) copy_fun \<Rightarrow> (ref, 'x cell) copy_fun" where
  "new_PipelineList \<equiv> copy_ref C_Zero cell_PipelineList C_PipelineList"

abbreviation new_PipelineSpec ::
  "(hPipelineSpec, 'x cell) copy_fun \<Rightarrow> (ref, 'x cell) copy_fun" where
  "new_PipelineSpec \<equiv> copy_ref C_Zero cell_PipelineSpec C_PipelineSpec"

abbreviation new_PipelineStatus ::
  "(hPipelineStatus, 'x cell) copy_fun \<Rightarrow> (ref, 'x cell) copy_fun" where
  "new_PipelineStatus \<equiv> copy_ref C_Zero cell_PipelineStatus C_PipelineStatus"

abbreviation new_Promotion ::
  "(hPromotion, 'x cell) copy_fun \<Rightarrow> (ref, 'x cell) copy_fun" where
  "new_Promotion \<equiv> copy_ref C_Zero cell_Promotion C_Promotion"

abbreviation new_PullRequestPromotion ::
  "(PullRequestPromotion, 'x cell) copy_fun \<Rightarrow> (ref, 'x cell) copy_fun" where
  "new_PullRequestPromotion \<equiv> copy_ref C_Zero cell_PullRequestPromotion C_PullRequestPromotion"

abbreviation new_Strategy ::
  "(hStrategy, 'x cell) copy_fun \<Rightarrow> (ref, 'x cell) copy_fun" where
  "new_Strategy \<equiv> copy_ref C_Zero cell_Strategy C_Strategy"

abbreviation new_Target ::
  "(hTarget, 'x cell) copy_fun \<Rightarrow> (ref, 'x cell) copy_fun" where
  "new_Target \<equiv> copy_ref C_Zero cell_Target C_Target"

abbreviation new_TargetStatus ::
  "(hTargetStatus, 'x cell) copy_fun \<Rightarrow> (ref, 'x cell) copy_fun" where
  "new_TargetStatus \<equiv> copy_ref C_Zero cell_TargetStatus C_TargetStatus"

abbreviation new_WaitingApproval ::
  "(WaitingApproval, 'x cell) copy_fun \<Rightarrow> (ref, 'x cell) copy_fun" where
  "new_WaitingApproval \<equiv> copy_ref C_Zero cell_WaitingApproval C_WaitingApproval"

abbreviation new_LocalObjectReference ::
  "(string, 'x cell) copy_fun \<Rightarrow> (ref, 'x cell) copy_fun" where
  "new_LocalObjectReference \<equiv> copy_ref C_Zero cell_LocalObjectReference C_LocalObjectReference"

abbreviation new_Targets ::
  "(hTarget list, 'x cell) copy_fun \<Rightarrow> (ref, 'x cell) copy_fun" where
  "new_Targets \<equiv> copy_ref C_Zero cell_Targets C_Targets"

abbreviation new_Environments ::
  "(hEnvironment list, 'x cell) copy_fun \<Rightarrow> (ref, 'x cell) copy_fun" where
  "new_Environments \<equiv> copy_ref C_Zero cell_Environments C_Environments"

abbreviation new_TargetStatuses ::
  "(hTargetStatus list, 'x cell) copy_fun \<Rightarrow> (ref, 'x cell) copy_fun" where
  "new_TargetStatuses \<equiv> copy_ref C_Zero cell_TargetStatuses C_TargetStatuses"

abbreviation new_Conditions ::
  "('x list, 'x cell) copy_fun \<Rightarrow> (ref, 'x cell) copy_fun" where
  "new_Conditions \<equiv> copy_ref C_Zero cell_Conditions C_Conditions"

abbreviation new_Items ::
  "('x hPipeline list, 'x cell) copy_fun \<Rightarrow> (ref, 'x cell) copy_fun" where
  "new_Items \<equiv> copy_ref C_Zero cell_Items C_Items"

abbreviation new_EnvironmentMap ::
  "((string \<times> ref) list, 'x cell) copy_fun \<Rightarrow> (ref, 'x cell) copy_fun" where
  "new_EnvironmentMap \<equiv> copy_ref C_Zero cell_EnvironmentMap C_EnvironmentMap"

section \<open>Copies of structs without references\<close>

text \<open>\<open>*out = *in\<close> copies them whole.\<close>

definition CrossNamespaceClusterReference_DeepCopyInto :: "(CrossNamespaceClusterReference, 'x cell) copy_fun" where
  "CrossNamespaceClusterReference_DeepCopyInto inp h = (inp, h)"

definition LocalAppReference_DeepCopyInto :: "(LocalAppReference, 'x cell) copy_fun" where
  "LocalAppReference_DeepCopyInto inp h = (inp, h)"

definition NotificationPromotion_DeepCopyInto :: "(NotificationPromotion, 'x cell) copy_fun" where
  "NotificationPromotion_DeepCopyInto inp h = (inp, h)"

definition PullRequestPromotion_DeepCopyInto :: "(PullRequestPromotion, 'x cell) copy_fun" where
  "PullRequestPromotion_DeepCopyInto inp h = (inp, h)"

definition WaitingApproval_DeepCopyInto :: "(WaitingApproval, 'x cell) copy_fun" where
  "WaitingApproval_DeepCopyInto inp h = (inp, h)"

lemma plain_DeepCopyInto:
  "CrossNamespaceClusterReference_DeepCopyInto = copy_plain"
  "LocalAppReference_DeepCopyInto = copy_plain"
  "NotificationPromotion_DeepCopyInto = copy_plain"
  "PullRequestPromotion_DeepCopyInto = copy_plain"
  "WaitingApproval_DeepCopyInto = copy_plain"
  by (simp_all add: fun_eq_iff copy_plain_def CrossNamespaceClusterReference_DeepCopyInto_def
      LocalAppReference_DeepCopyInto_def NotificationPromotion_DeepCopyInto_def
      PullRequestPromotion_DeepCopyInto_def WaitingApproval_DeepCopyInto_def)

section \<open>Copies of structs with references\<close>

text \<open>Each starts from \<open>*out = *in\<close> and replaces the references, in the order of the fields.
  \<open>copy_plain\<close> is \<open>**out = **in\<close>. Beside it stands the tree the struct denotes.\<close>

definition ClusterAppReference_DeepCopyInto :: "(hClusterAppReference, 'x cell) copy_fun" where
  "ClusterAppReference_DeepCopyInto inp h =
     (let out = inp;
          out = out\<lparr>gca_LocalAppReference := gca_LocalAppReference inp\<rparr>;
          (r, h) = new_CrossNamespaceClusterReference copy_plain (gca_ClusterRef inp) h
      in (out\<lparr>gca_ClusterRef := r\<rparr>, h))"

definition read_ClusterAppReference ::
  "(hClusterAppReference, tClusterAppReference, 'x cell) read_fun" where
  "read_ClusterAppReference =
     read_field gca_ClusterRef
       (\<lambda>x r. \<lparr>gca_LocalAppReference = gca_LocalAppReference x, gca_ClusterRef = r\<rparr>)
       (read_ref cell_CrossNamespaceClusterReference read_plain)"

definition Target_DeepCopyInto :: "(hTarget, 'x cell) copy_fun" where
  "Target_DeepCopyInto inp h =
     (let out = inp;
          (r, h) = new_CrossNamespaceClusterReference copy_plain (gt_ClusterRef inp) h
      in (out\<lparr>gt_ClusterRef := r\<rparr>, h))"

definition read_Target :: "(hTarget, tTarget, 'x cell) read_fun" where
  "read_Target =
     read_field gt_ClusterRef (\<lambda>x r. \<lparr>gt_Namespace = gt_Namespace x, gt_ClusterRef = r\<rparr>)
       (read_ref cell_CrossNamespaceClusterReference read_plain)"

definition Strategy_DeepCopyInto :: "(hStrategy, 'x cell) copy_fun" where
  "Strategy_DeepCopyInto inp h =
     (let out = inp;
          (p, h) = new_PullRequestPromotion copy_plain (gs_PullRequest inp) h;
          out = out\<lparr>gs_PullRequest := p\<rparr>;
          (n, h) = new_NotificationPromotion copy_plain (gs_Notification inp) h;
          out = out\<lparr>gs_Notification := n\<rparr>;
          (s, h) = new_LocalObjectReference copy_plain (gs_SecretRef inp) h
      in (out\<lparr>gs_SecretRef := s\<rparr>, h))"

definition read_Strategy :: "(hStrategy, tStrategy, 'x cell) read_fun" where
  "read_Strategy =
     read_field (\<lambda>x. (gs_PullRequest x, gs_Notification x, gs_SecretRef x))
       (\<lambda>x (p, n, s). \<lparr>gs_PullRequest = p, gs_Notification = n, gs_SecretRef = s\<rparr>)
       (read_both (read_ref cell_PullRequestPromotion read_plain)
         (read_both (read_ref cell_NotificationPromotion read_plain)
           (read_ref cell_LocalObjectReference read_plain)))"

definition Promotion_DeepCopyInto :: "(hPromotion, 'x cell) copy_fun" where
  "Promotion_DeepCopyInto inp h =
     (let out = inp;
          (s, h) = Strategy_DeepCopyInto (gp_Strategy inp) h
      in (out\<lparr>gp_Strategy := s\<rparr>, h))"

definition read_Promotion :: "(hPromotion, tPromotion, 'x cell) read_fun" where
  "read_Promotion =
     read_field gp_Strategy (\<lambda>x s. \<lparr>gp_Manual = gp_Manual x, gp_Strategy = s\<rparr>) read_Strategy"

definition Environment_DeepCopyInto :: "(hEnvironment, 'x cell) copy_fun" where
  "Environment_DeepCopyInto inp h =
     (let out = inp;
          (ts, h) = new_Targets (copy_list Target_DeepCopyInto) (ge_Targets inp) h;
          out = out\<lparr>ge_Targets := ts\<rparr>;
          (p, h) = new_Promotion Promotion_DeepCopyInto (ge_Promotion inp) h
      in (out\<lparr>ge_Promotion := p\<rparr>, h))"

definition read_Environment :: "(hEnvironment, tEnvironment, 'x cell) read_fun" where
  "read_Environment =
     read_field (\<lambda>x. (ge_Targets x, ge_Promotion x))
       (\<lambda>x (ts, p). \<lparr>ge_Name = ge_Name x, ge_Targets = ts, ge_Promotion = p\<rparr>)
       (read_both (read_ref cell_Targets (read_list read_Target))
         (read_ref cell_Promotion read_Promotion))"

definition PipelineSpec_DeepCopyInto :: "(hPipelineSpec, 'x cell) copy_fun" where
  "PipelineSpec_DeepCopyInto inp h =
     (let out = inp;
          (es, h) = new_Environments (copy_list Environment_DeepCopyInto) (gsp_Environments inp) h;
          out = out\<lparr>gsp_Environments := es\<rparr>;
          out = out\<lparr>gsp_AppRef := gsp_AppRef inp\<rparr>;
          (p, h) = new_Promotion Promotion_DeepCopyInto (gsp_Promotion inp) h
      in (out\<lparr>gsp_Promotion := p\<rparr>, h))"

definition read_PipelineSpec :: "(hPipelineSpec, tPipelineSpec, 'x cell) read_fun" where
  "read_PipelineSpec =
     read_field (\<lambda>x. (gsp_Environments x, gsp_Promotion x))
       (\<lambda>x (es, p). \<lparr>gsp_Environments = es, gsp_AppRef = gsp_AppRef x, gsp_Promotion = p\<rparr>)
       (read_both (read_ref cell_Environments (read_list read_Environment))
         (read_ref cell_Promotion read_Promotion))"

definition TargetStatus_DeepCopyInto :: "(hTargetStatus, 'x cell) copy_fun" where
  "TargetStatus_DeepCopyInto inp h =
     (let out = inp;
          (r, h) = ClusterAppReference_DeepCopyInto (gts_ClusterAppRef inp) h
      in (out\<lparr>gts_ClusterAppRef := r\<rparr>, h))"

definition read_TargetStatus :: "(hTargetStatus, tTargetStatus, 'x cell) read_fun" where
  "read_TargetStatus =
     read_field gts_ClusterAppRef
       (\<lambda>x r. \<lparr>gts_ClusterAppRef = r, gts_Ready = gts_Ready x, gts_Revision = gts_Revision x,
          gts_Error = gts_Error x\<rparr>)
       read_ClusterAppReference"

definition EnvironmentStatus_DeepCopyInto :: "(hEnvironmentStatus, 'x cell) copy_fun" where
  "EnvironmentStatus_DeepCopyInto inp h =
     (let out = inp;
          out = out\<lparr>ges_WaitingApproval := ges_WaitingApproval inp\<rparr>;
          (ts, h) = new_TargetStatuses (copy_list TargetStatus_DeepCopyInto) (ges_Targets inp) h
      in (out\<lparr>ges_Targets := ts\<rparr>, h))"

definition read_EnvironmentStatus :: "(hEnvironmentStatus, tEnvironmentStatus, 'x cell) read_fun"
where
  "read_EnvironmentStatus =
     read_field ges_Targets
       (\<lambda>x ts. \<lparr>ges_WaitingApproval = ges_WaitingApproval x, ges_Targets = ts\<rparr>)
       (read_ref cell_TargetStatuses (read_list read_TargetStatus))"

text \<open>One entry of the map: nil stays nil, a status is copied behind a new pointer. The
  order in which Go visits the entries is unspecified and only chooses the new addresses.\<close>

definition entry_copy :: "(string \<times> ref, 'x cell) copy_fun" where
  "entry_copy = (\<lambda>(key, val) h.
     let (outVal, h) = new_EnvironmentStatus EnvironmentStatus_DeepCopyInto val h
     in ((key, outVal), h))"

definition read_entry :: "(string \<times> ref, string \<times> tEnvironmentStatus option, 'x cell) read_fun"
where
  "read_entry =
     read_field snd (\<lambda>x v. (fst x, v)) (read_ref cell_EnvironmentStatus read_EnvironmentStatus)"

section \<open>Copies that reach into the API machinery\<close>

record ('x, 't) apimachinery =
  ObjectMeta_DeepCopyInto :: "('x, 'x cell) copy_fun"
  ObjectMeta_read :: "('x, 't, 'x cell) read_fun"
  ListMeta_DeepCopyInto :: "('x, 'x cell) copy_fun"
  ListMeta_read :: "('x, 't, 'x cell) read_fun"
  Condition_DeepCopyInto :: "('x, 'x cell) copy_fun"
  Condition_read :: "('x, 't, 'x cell) read_fun"

text \<open>What their documentation says: each is a deep copy.\<close>

definition library_copies :: "('x, 't) apimachinery \<Rightarrow> bool" where
  "library_copies L \<longleftrightarrow>
     deep_copier (ObjectMeta_DeepCopyInto L) (ObjectMeta_read L) \<and>
     deep_copier (ListMeta_DeepCopyInto L) (ListMeta_read L) \<and>
     deep_copier (Condition_DeepCopyInto L) (Condition_read L)"

definition PipelineStatus_DeepCopyInto ::
  "('x, 't) apimachinery \<Rightarrow> (hPipelineStatus, 'x cell) copy_fun" where
  "PipelineStatus_DeepCopyInto L inp h =
     (let out = inp;
          (cs, h) = new_Conditions (copy_list (Condition_DeepCopyInto L)) (gps_Conditions inp) h;
          out = out\<lparr>gps_Conditions := cs\<rparr>;
          (es, h) = new_EnvironmentMap (copy_list entry_copy) (gps_Environments inp) h
      in (out\<lparr>gps_Environments := es\<rparr>, h))"

definition read_PipelineStatus ::
  "('x, 't) apimachinery \<Rightarrow> (hPipelineStatus, 't tPipelineStatus, 'x cell) read_fun" where
  "read_PipelineStatus L =
     read_field (\<lambda>x. (gps_Conditions x, gps_Environments x))
       (\<lambda>x (cs, es). \<lparr>gps_ObservedGeneration = gps_ObservedGeneration x, gps_Conditions = cs,
          gps_Environments = es\<rparr>)
       (read_both (read_ref cell_Conditions (read_list (Condition_read L)))
         (read_ref cell_EnvironmentMap (read_list read_entry)))"

definition Pipeline_DeepCopyInto ::
  "('x, 't) apimachinery \<Rightarrow> ('x hPipeline, 'x cell) copy_fun" where
  "Pipeline_DeepCopyInto L inp h =
     (let out = inp;
          out = out\<lparr>gpl_TypeMeta := gpl_TypeMeta inp\<rparr>;
          (m, h) = ObjectMeta_DeepCopyInto L (gpl_ObjectMeta inp) h;
          out = out\<lparr>gpl_ObjectMeta := m\<rparr>;
          (sp, h) = PipelineSpec_DeepCopyInto (gpl_Spec inp) h;
          out = out\<lparr>gpl_Spec := sp\<rparr>;
          (st, h) = PipelineStatus_DeepCopyInto L (gpl_Status inp) h
      in (out\<lparr>gpl_Status := st\<rparr>, h))"

definition read_Pipeline ::
  "('x, 't) apimachinery \<Rightarrow> ('x hPipeline, 't tPipeline, 'x cell) read_fun" where
  "read_Pipeline L =
     read_field (\<lambda>x. (gpl_ObjectMeta x, gpl_Spec x, gpl_Status x))
       (\<lambda>x (m, sp, st). \<lparr>gpl_TypeMeta = gpl_TypeMeta x, gpl_ObjectMeta = m, gpl_Spec = sp,
          gpl_Status = st\<rparr>)
       (read_both (ObjectMeta_read L) (read_both read_PipelineSpec (read_PipelineStatus L)))"

definition PipelineList_DeepCopyInto ::
  "('x, 't) apimachinery \<Rightarrow> ('x hPipelineList, 'x cell) copy_fun" where
  "PipelineList_DeepCopyInto L inp h =
     (let out = inp;
          out = out\<lparr>gl_TypeMeta := gl_TypeMeta inp\<rparr>;
          (m, h) = ListMeta_DeepCopyInto L (gl_ListMeta inp) h;
          out = out\<lparr>gl_ListMeta := m\<rparr>;
          (ps, h) = new_Items (copy_list (Pipeline_DeepCopyInto L)) (gl_Items inp) h
      in (out\<lparr>gl_Items := ps\<rparr>, h))"

definition read_PipelineList ::
  "('x, 't) apimachinery \<Rightarrow> ('x hPipelineList, 't tPipelineList, 'x cell) read_fun" where
  "read_PipelineList L =
     read_field (\<lambda>x. (gl_ListMeta x, gl_Items x))
       (\<lambda>x (m, ps). \<lparr>gl_TypeMeta = gl_TypeMeta x, gl_ListMeta = m, gl_Items = ps\<rparr>)
       (read_both (ListMeta_read L) (read_ref cell_Items (read_list (read_Pipeline L))))"

section \<open>\<open>DeepCopy\<close> and \<open>DeepCopyObject\<close>\<close>

text \<open>\<open>if in == nil { return nil }; out := new(T); in.DeepCopyInto(out); return out\<close>\<close>

definition ClusterAppReference_DeepCopy :: "(ref, 'x cell) copy_fun" where
  "ClusterAppReference_DeepCopy = new_ClusterAppReference ClusterAppReference_DeepCopyInto"

definition CrossNamespaceClusterReference_DeepCopy :: "(ref, 'x cell) copy_fun" where
  "CrossNamespaceClusterReference_DeepCopy = new_CrossNamespaceClusterReference CrossNamespaceClusterReference_DeepCopyInto"

definition Environment_DeepCopy :: "(ref, 'x cell) copy_fun" where
  "Environment_DeepCopy = new_Environment Environment_DeepCopyInto"

definition EnvironmentStatus_DeepCopy :: "(ref, 'x cell) copy_fun" where
  "EnvironmentStatus_DeepCopy = new_EnvironmentStatus EnvironmentStatus_DeepCopyInto"

definition LocalAppReference_DeepCopy :: "(ref, 'x cell) copy_fun" where
  "LocalAppReference_DeepCopy = new_LocalAppReference LocalAppReference_DeepCopyInto"

definition NotificationPromotion_DeepCopy :: "(ref, 'x cell) copy_fun" where
  "NotificationPromotion_DeepCopy = new_NotificationPromotion NotificationPromotion_DeepCopyInto"

definition Pipeline_DeepCopy :: "('x, 't) apimachinery \<Rightarrow> (ref, 'x cell) copy_fun" where
  "Pipeline_DeepCopy L = new_Pipeline (Pipeline_DeepCopyInto L)"

definition PipelineList_DeepCopy :: "('x, 't) apimachinery \<Rightarrow> (ref, 'x cell) copy_fun" where
  "PipelineList_DeepCopy L = new_PipelineList (PipelineList_DeepCopyInto L)"

definition PipelineSpec_DeepCopy :: "(ref, 'x cell) copy_fun" where
  "PipelineSpec_DeepCopy = new_PipelineSpec PipelineSpec_DeepCopyInto"

definition PipelineStatus_DeepCopy :: "('x, 't) apimachinery \<Rightarrow> (ref, 'x cell) copy_fun" where
  "PipelineStatus_DeepCopy L = new_PipelineStatus (PipelineStatus_DeepCopyInto L)"

definition Promotion_DeepCopy :: "(ref, 'x cell) copy_fun" where
  "Promotion_DeepCopy = new_Promotion Promotion_DeepCopyInto"

definition PullRequestPromotion_DeepCopy :: "(ref, 'x cell) copy_fun" where
  "PullRequestPromotion_DeepCopy = new_PullRequestPromotion PullRequestPromotion_DeepCopyInto"

definition Strategy_DeepCopy :: "(ref, 'x cell) copy_fun" where
  "Strategy_DeepCopy = new_Strategy Strategy_DeepCopyInto"

definition Target_DeepCopy :: "(ref, 'x cell) copy_fun" where
  "Target_DeepCopy = new_Target Target_DeepCopyInto"

definition TargetStatus_DeepCopy :: "(ref, 'x cell) copy_fun" where
  "TargetStatus_DeepCopy = new_TargetStatus TargetStatus_DeepCopyInto"

definition WaitingApproval_DeepCopy :: "(ref, 'x cell) copy_fun" where
  "WaitingApproval_DeepCopy = new_WaitingApproval WaitingApproval_DeepCopyInto"

text \<open>A \<open>runtime.Object\<close> interface value: nil, or a pointer with its dynamic type.\<close>

datatype runtime_Object = Object_Pipeline nat | Object_PipelineList nat

definition Pipeline_DeepCopyObject ::
  "('x, 't) apimachinery \<Rightarrow> ref \<Rightarrow> 'x cell heap \<Rightarrow> runtime_Object option \<times> 'x cell heap" where
  "Pipeline_DeepCopyObject L p h =
     (let (c, h) = Pipeline_DeepCopy L p h
      in (case c of Some a \<Rightarrow> (Some (Object_Pipeline a), h) | None \<Rightarrow> (None, h)))"

definition PipelineList_DeepCopyObject ::
  "('x, 't) apimachinery \<Rightarrow> ref \<Rightarrow> 'x cell heap \<Rightarrow> runtime_Object option \<times> 'x cell heap" where
  "PipelineList_DeepCopyObject L p h =
     (let (c, h) = PipelineList_DeepCopy L p h
      in (case c of Some a \<Rightarrow> (Some (Object_PipelineList a), h) | None \<Rightarrow> (None, h)))"

section \<open>Every generated copy is a deep copy\<close>

lemma copier_struct:
  assumes "deep_copier c r" "\<And>x h. c' x h = copy_field get put c x h"
    "\<And>y x. get (put y x) = y" "\<And>y x t. mk (put y x) t = mk x t"
  shows "deep_copier c' (read_field get mk r)"
proof -
  have "c' = copy_field get put c" using assms(2) by (simp add: fun_eq_iff)
  then show ?thesis
    using copier_field [where get = get and put = put and mk = mk, OF assms(1,3,4)] by simp
qed

lemmas copy_simps = copy_field_def copy_both_pair Let_def

interpretation ClusterAppReference_copy: deep_copier ClusterAppReference_DeepCopyInto read_ClusterAppReference
  unfolding read_ClusterAppReference_def
  by (rule copier_struct [where c = "new_CrossNamespaceClusterReference copy_plain"
        and get = "gca_ClusterRef"
        and put = "\<lambda>r x. x\<lparr>gca_ClusterRef := r\<rparr>"])
     (auto intro!: copiers simp: copy_simps ClusterAppReference_DeepCopyInto_def split: prod.splits)

interpretation Target_copy: deep_copier Target_DeepCopyInto read_Target
  unfolding read_Target_def
  by (rule copier_struct [where c = "new_CrossNamespaceClusterReference copy_plain"
        and get = "gt_ClusterRef"
        and put = "\<lambda>r x. x\<lparr>gt_ClusterRef := r\<rparr>"])
     (auto intro!: copiers simp: copy_simps Target_DeepCopyInto_def split: prod.splits)

interpretation Strategy_copy: deep_copier Strategy_DeepCopyInto read_Strategy
  unfolding read_Strategy_def
  by (rule copier_struct [where c = "copy_both (new_PullRequestPromotion copy_plain)
            (copy_both (new_NotificationPromotion copy_plain) (new_LocalObjectReference copy_plain))"
        and get = "\<lambda>x. (gs_PullRequest x, gs_Notification x, gs_SecretRef x)"
        and put = "\<lambda>(p, n, s) x. x\<lparr>gs_PullRequest := p, gs_Notification := n, gs_SecretRef := s\<rparr>"])
     (auto intro!: copiers simp: copy_simps Strategy_DeepCopyInto_def split: prod.splits)

interpretation Promotion_copy: deep_copier Promotion_DeepCopyInto read_Promotion
  unfolding read_Promotion_def
  by (rule copier_struct [where c = "Strategy_DeepCopyInto"
        and get = "gp_Strategy"
        and put = "\<lambda>s x. x\<lparr>gp_Strategy := s\<rparr>"])
     (auto intro!: copiers Strategy_copy.deep_copier_axioms simp: copy_simps Promotion_DeepCopyInto_def split: prod.splits)

interpretation Environment_copy: deep_copier Environment_DeepCopyInto read_Environment
  unfolding read_Environment_def
  by (rule copier_struct [where c = "copy_both (new_Targets (copy_list Target_DeepCopyInto))
            (new_Promotion Promotion_DeepCopyInto)"
        and get = "\<lambda>x. (ge_Targets x, ge_Promotion x)"
        and put = "\<lambda>(ts, p) x. x\<lparr>ge_Targets := ts, ge_Promotion := p\<rparr>"])
     (auto intro!: copiers Target_copy.deep_copier_axioms Promotion_copy.deep_copier_axioms simp: copy_simps Environment_DeepCopyInto_def split: prod.splits)

interpretation PipelineSpec_copy: deep_copier PipelineSpec_DeepCopyInto read_PipelineSpec
  unfolding read_PipelineSpec_def
  by (rule copier_struct [where c = "copy_both (new_Environments (copy_list Environment_DeepCopyInto))
            (new_Promotion Promotion_DeepCopyInto)"
        and get = "\<lambda>x. (gsp_Environments x, gsp_Promotion x)"
        and put = "\<lambda>(es, p) x. x\<lparr>gsp_Environments := es, gsp_Promotion := p\<rparr>"])
     (auto intro!: copiers Environment_copy.deep_copier_axioms Promotion_copy.deep_copier_axioms simp: copy_simps PipelineSpec_DeepCopyInto_def split: prod.splits)

interpretation TargetStatus_copy: deep_copier TargetStatus_DeepCopyInto read_TargetStatus
  unfolding read_TargetStatus_def
  by (rule copier_struct [where c = "ClusterAppReference_DeepCopyInto"
        and get = "gts_ClusterAppRef"
        and put = "\<lambda>r x. x\<lparr>gts_ClusterAppRef := r\<rparr>"])
     (auto intro!: copiers ClusterAppReference_copy.deep_copier_axioms simp: copy_simps TargetStatus_DeepCopyInto_def split: prod.splits)

interpretation EnvironmentStatus_copy: deep_copier EnvironmentStatus_DeepCopyInto read_EnvironmentStatus
  unfolding read_EnvironmentStatus_def
  by (rule copier_struct [where c = "new_TargetStatuses (copy_list TargetStatus_DeepCopyInto)"
        and get = "ges_Targets"
        and put = "\<lambda>ts x. x\<lparr>ges_Targets := ts\<rparr>"])
     (auto intro!: copiers TargetStatus_copy.deep_copier_axioms simp: copy_simps EnvironmentStatus_DeepCopyInto_def split: prod.splits)

interpretation entry_copy: deep_copier entry_copy read_entry
  unfolding read_entry_def
  by (rule copier_struct [where c = "new_EnvironmentStatus EnvironmentStatus_DeepCopyInto"
        and get = "snd"
        and put = "\<lambda>v x. (fst x, v)"])
     (auto intro!: copiers EnvironmentStatus_copy.deep_copier_axioms simp: copy_simps entry_copy_def split: prod.splits)

lemma PipelineStatus_copier:
  assumes "library_copies L"
  shows "deep_copier (PipelineStatus_DeepCopyInto L) (read_PipelineStatus L)"
  unfolding read_PipelineStatus_def
  by (rule copier_struct [where c = "copy_both (new_Conditions (copy_list (Condition_DeepCopyInto L)))
            (new_EnvironmentMap (copy_list entry_copy))"
        and get = "\<lambda>x. (gps_Conditions x, gps_Environments x)"
        and put = "\<lambda>(cs, es) x. x\<lparr>gps_Conditions := cs, gps_Environments := es\<rparr>"])
     (use assms in \<open>auto intro!: copiers entry_copy.deep_copier_axioms simp: library_copies_def copy_simps PipelineStatus_DeepCopyInto_def split: prod.splits\<close>)

lemma Pipeline_copier:
  assumes "library_copies L"
  shows "deep_copier (Pipeline_DeepCopyInto L) (read_Pipeline L)"
  unfolding read_Pipeline_def
  by (rule copier_struct [where c = "copy_both (ObjectMeta_DeepCopyInto L)
            (copy_both PipelineSpec_DeepCopyInto (PipelineStatus_DeepCopyInto L))"
        and get = "\<lambda>x. (gpl_ObjectMeta x, gpl_Spec x, gpl_Status x)"
        and put = "\<lambda>(m, sp, st) x. x\<lparr>gpl_ObjectMeta := m, gpl_Spec := sp, gpl_Status := st\<rparr>"])
     (use assms in \<open>auto intro!: copiers PipelineSpec_copy.deep_copier_axioms PipelineStatus_copier simp: library_copies_def copy_simps Pipeline_DeepCopyInto_def split: prod.splits\<close>)

lemma PipelineList_copier:
  assumes "library_copies L"
  shows "deep_copier (PipelineList_DeepCopyInto L) (read_PipelineList L)"
  unfolding read_PipelineList_def
  by (rule copier_struct [where c = "copy_both (ListMeta_DeepCopyInto L) (new_Items (copy_list (Pipeline_DeepCopyInto L)))"
        and get = "\<lambda>x. (gl_ListMeta x, gl_Items x)"
        and put = "\<lambda>(m, ps) x. x\<lparr>gl_ListMeta := m, gl_Items := ps\<rparr>"])
     (use assms in \<open>auto intro!: copiers Pipeline_copier simp: library_copies_def copy_simps PipelineList_DeepCopyInto_def split: prod.splits\<close>)

lemmas struct_copiers =
  ClusterAppReference_copy.deep_copier_axioms Target_copy.deep_copier_axioms
  Strategy_copy.deep_copier_axioms Promotion_copy.deep_copier_axioms
  Environment_copy.deep_copier_axioms PipelineSpec_copy.deep_copier_axioms
  TargetStatus_copy.deep_copier_axioms EnvironmentStatus_copy.deep_copier_axioms

text \<open>All \<open>DeepCopy\<close> functions meet the contract, at the type of a possibly nil pointer.\<close>

lemma plain_DeepCopy_copiers:
  "deep_copier CrossNamespaceClusterReference_DeepCopy (read_ref cell_CrossNamespaceClusterReference read_plain)"
  "deep_copier LocalAppReference_DeepCopy (read_ref cell_LocalAppReference read_plain)"
  "deep_copier NotificationPromotion_DeepCopy (read_ref cell_NotificationPromotion read_plain)"
  "deep_copier PullRequestPromotion_DeepCopy (read_ref cell_PullRequestPromotion read_plain)"
  "deep_copier WaitingApproval_DeepCopy (read_ref cell_WaitingApproval read_plain)"
  by (simp_all add: CrossNamespaceClusterReference_DeepCopy_def
      LocalAppReference_DeepCopy_def
      NotificationPromotion_DeepCopy_def
      PullRequestPromotion_DeepCopy_def
      WaitingApproval_DeepCopy_def
      plain_DeepCopyInto copier_ref copier_plain)

lemma struct_DeepCopy_copiers:
  "deep_copier ClusterAppReference_DeepCopy (read_ref cell_ClusterAppReference read_ClusterAppReference)"
  "deep_copier Environment_DeepCopy (read_ref cell_Environment read_Environment)"
  "deep_copier EnvironmentStatus_DeepCopy (read_ref cell_EnvironmentStatus read_EnvironmentStatus)"
  "deep_copier PipelineSpec_DeepCopy (read_ref cell_PipelineSpec read_PipelineSpec)"
  "deep_copier Promotion_DeepCopy (read_ref cell_Promotion read_Promotion)"
  "deep_copier Strategy_DeepCopy (read_ref cell_Strategy read_Strategy)"
  "deep_copier Target_DeepCopy (read_ref cell_Target read_Target)"
  "deep_copier TargetStatus_DeepCopy (read_ref cell_TargetStatus read_TargetStatus)"
  by (simp_all add: ClusterAppReference_DeepCopy_def
      Environment_DeepCopy_def
      EnvironmentStatus_DeepCopy_def
      PipelineSpec_DeepCopy_def
      Promotion_DeepCopy_def
      Strategy_DeepCopy_def
      Target_DeepCopy_def
      TargetStatus_DeepCopy_def
      copier_ref struct_copiers)

lemma library_DeepCopy_copiers:
  assumes "library_copies L"
  shows "deep_copier (PipelineStatus_DeepCopy L) (read_ref cell_PipelineStatus (read_PipelineStatus L))"
    "deep_copier (Pipeline_DeepCopy L) (read_ref cell_Pipeline (read_Pipeline L))"
    "deep_copier (PipelineList_DeepCopy L) (read_ref cell_PipelineList (read_PipelineList L))"
  using assms
  by (simp_all add: PipelineStatus_DeepCopy_def Pipeline_DeepCopy_def PipelineList_DeepCopy_def
      copier_ref PipelineStatus_copier Pipeline_copier PipelineList_copier)

text \<open>\<open>DeepCopyObject\<close> hands out the nil interface for a nil pointer, never an interface
  that holds one, and otherwise the copy under its own type.\<close>

lemma copy_ref_nil_iff: "fst (copy_ref z sel mk c p h) = None \<longleftrightarrow> p = None"
  by (simp add: copy_ref_def Let_def split: option.splits prod.splits)

lemma DeepCopyObject_cases:
  "Pipeline_DeepCopyObject L p h =
     (map_option Object_Pipeline (fst (Pipeline_DeepCopy L p h)), snd (Pipeline_DeepCopy L p h))"
  "PipelineList_DeepCopyObject L p h =
     (map_option Object_PipelineList (fst (PipelineList_DeepCopy L p h)), snd (PipelineList_DeepCopy L p h))"
  by (simp_all add: Pipeline_DeepCopyObject_def PipelineList_DeepCopyObject_def
      split: prod.splits option.splits)

lemma DeepCopyObject_nil_iff:
  "fst (Pipeline_DeepCopyObject L p h) = None \<longleftrightarrow> p = None"
  "fst (PipelineList_DeepCopyObject L p h) = None \<longleftrightarrow> p = None"
  by (simp_all add: DeepCopyObject_cases Pipeline_DeepCopy_def PipelineList_DeepCopy_def copy_ref_nil_iff)

abbreviation read_Pipeline_ref ::
  "('x, 't) apimachinery \<Rightarrow> (ref, 't tPipeline option, 'x cell) read_fun" where
  "read_Pipeline_ref L \<equiv> read_ref cell_Pipeline (read_Pipeline L)"

abbreviation read_PipelineList_ref ::
  "('x, 't) apimachinery \<Rightarrow> (ref, 't tPipelineList option, 'x cell) read_fun" where
  "read_PipelineList_ref L \<equiv> read_ref cell_PipelineList (read_PipelineList L)"

text \<open>C36. The generated copies respect the types and meet one contract: each of the sixteen
  \<open>DeepCopy\<close> functions takes a pointer to a well-typed value of its type, that is, one whose
  references lead to cells of the types the struct declares, to a well-typed value of that type
  with the same contents in new cells, and what is read through a pointer depends on the cells it
  reaches alone; nil is copied to nil.\<close>

theorem generated_copies_deep:
  assumes "library_copies L"
  shows "deep_copier ClusterAppReference_DeepCopy (read_ref cell_ClusterAppReference read_ClusterAppReference) \<and>
    deep_copier CrossNamespaceClusterReference_DeepCopy (read_ref cell_CrossNamespaceClusterReference read_plain) \<and>
    deep_copier Environment_DeepCopy (read_ref cell_Environment read_Environment) \<and>
    deep_copier EnvironmentStatus_DeepCopy (read_ref cell_EnvironmentStatus read_EnvironmentStatus) \<and>
    deep_copier LocalAppReference_DeepCopy (read_ref cell_LocalAppReference read_plain) \<and>
    deep_copier NotificationPromotion_DeepCopy (read_ref cell_NotificationPromotion read_plain) \<and>
    deep_copier (Pipeline_DeepCopy L) (read_ref cell_Pipeline (read_Pipeline L)) \<and>
    deep_copier (PipelineList_DeepCopy L) (read_ref cell_PipelineList (read_PipelineList L)) \<and>
    deep_copier PipelineSpec_DeepCopy (read_ref cell_PipelineSpec read_PipelineSpec) \<and>
    deep_copier (PipelineStatus_DeepCopy L) (read_ref cell_PipelineStatus (read_PipelineStatus L)) \<and>
    deep_copier Promotion_DeepCopy (read_ref cell_Promotion read_Promotion) \<and>
    deep_copier PullRequestPromotion_DeepCopy (read_ref cell_PullRequestPromotion read_plain) \<and>
    deep_copier Strategy_DeepCopy (read_ref cell_Strategy read_Strategy) \<and>
    deep_copier Target_DeepCopy (read_ref cell_Target read_Target) \<and>
    deep_copier TargetStatus_DeepCopy (read_ref cell_TargetStatus read_TargetStatus) \<and>
    deep_copier WaitingApproval_DeepCopy (read_ref cell_WaitingApproval read_plain)"
  using assms
  by (simp add: plain_DeepCopy_copiers struct_DeepCopy_copiers library_DeepCopy_copiers)

text \<open>C21. Deep copies are complete and isolated: for a well-typed list of pipelines in memory, the
  copy \<open>PipelineList.DeepCopy\<close> returns denotes the same list (metadata, every pipeline with
  its spec and status, nil slices, nil map entries and all), none of its cells is a cell of the
  original and no two of its references share a cell, no existing cell is written, and from
  then on any change of memory that leaves the cells of the copy alone leaves the copy's
  contents alone, and likewise for the original: neither sees a write to the other.
\<close>

theorem PipelineList_DeepCopy_isolated:
  assumes "library_copies L"
    and "read_PipelineList_ref L h p = Some (t, as)" and "allocated h as"
    and "PipelineList_DeepCopy L p h = (q, h')"
  shows "\<exists>bs. read_PipelineList_ref L h' q = Some (t, bs) \<and> distinct bs \<and> set as \<inter> set bs = {} \<and>
           extends h h' \<and>
           (\<forall>g. agree_on bs h' g \<longrightarrow> read_PipelineList_ref L g q = Some (t, bs)) \<and>
           (\<forall>g. agree_on as h' g \<longrightarrow> read_PipelineList_ref L g p = Some (t, as))"
  by (rule deep_copier.isolated [OF library_DeepCopy_copiers(3) [OF assms(1)] assms(2-4)]) blast

text \<open>An instance of the API machinery's part for the witnesses: metadata with a name and a
  pointer to a deletion time, which its copy gives a cell of its own; conditions are plain.\<close>

datatype meta_value = Meta string ref | Time int | Cond Condition

definition cell_Time :: "meta_value cell \<Rightarrow> int option" where
  "cell_Time c = (case c of C_Library (Time t) \<Rightarrow> Some t | _ \<Rightarrow> None)"

datatype meta_tree = Meta_tree string "int option" | Cond_tree Condition | Other_tree

definition demo_meta_copy :: "(meta_value, meta_value cell) copy_fun" where
  "demo_meta_copy m h =
     (case m of
        Meta n r \<Rightarrow> let (r', h) = copy_ref C_Zero cell_Time (\<lambda>t. C_Library (Time t)) copy_plain r h
                    in (Meta n r', h)
      | _ \<Rightarrow> (m, h))"

definition demo_meta_read :: "(meta_value, meta_tree, meta_value cell) read_fun" where
  "demo_meta_read h m =
     (case m of
        Meta n r \<Rightarrow> map_option (\<lambda>(t, as). (Meta_tree n t, as)) (read_ref cell_Time read_plain h r)
      | Cond c \<Rightarrow> Some (Cond_tree c, [])
      | _ \<Rightarrow> Some (Other_tree, []))"

definition demo_machinery :: "(meta_value, meta_tree) apimachinery" where
  "demo_machinery =
     \<lparr>ObjectMeta_DeepCopyInto = demo_meta_copy, ObjectMeta_read = demo_meta_read,
      ListMeta_DeepCopyInto = demo_meta_copy, ListMeta_read = demo_meta_read,
      Condition_DeepCopyInto = demo_meta_copy, Condition_read = demo_meta_read\<rparr>"

interpretation demo_time_copy:
  deep_copier "copy_ref C_Zero cell_Time (\<lambda>t. C_Library (Time t)) copy_plain" "read_ref cell_Time read_plain"
  by (rule copier_ref [OF copier_plain]) (simp add: cell_Time_def)

lemma demo_meta_copier: "deep_copier demo_meta_copy demo_meta_read"
proof
  fix h x t as y h'
  assume r: "demo_meta_read h x = Some (t, as)" "allocated h as" "demo_meta_copy x h = (y, h')"
  show "\<exists>bs. demo_meta_read h' y = Some (t, bs) \<and> fresh h h' bs \<and> extends h h'"
  proof (cases x)
    case (Meta n p)
    then show ?thesis
      using r demo_time_copy.copy_law [of h p _ as]
      by (fastforce simp: demo_meta_read_def demo_meta_copy_def split: prod.splits)
  qed (use r in \<open>auto simp: demo_meta_read_def demo_meta_copy_def fresh_def\<close>)
next
  fix h x t as h'
  assume r: "demo_meta_read h x = Some (t, as)" and ag: "agree_on as h h'"
  show "demo_meta_read h' x = Some (t, as)"
  proof (cases x)
    case (Meta n p)
    then obtain u where u: "read_ref cell_Time read_plain h p = Some (u, as)" "t = Meta_tree n u"
      using r by (auto simp: demo_meta_read_def)
    then show ?thesis
      using demo_time_copy.frame [OF u(1) ag] by (simp add: demo_meta_read_def Meta)
  qed (use r in \<open>simp_all add: demo_meta_read_def\<close>)
qed

lemma demo_library_copies: "library_copies demo_machinery"
  by (simp add: library_copies_def demo_machinery_def demo_meta_copier)

theorem generated_copies_deep_witness:
  "deep_copier (Pipeline_DeepCopy demo_machinery) (read_ref cell_Pipeline (read_Pipeline demo_machinery)) \<and>
   deep_copier (PipelineList_DeepCopy demo_machinery) (read_ref cell_PipelineList (read_PipelineList demo_machinery)) \<and>
   deep_copier (PipelineStatus_DeepCopy demo_machinery) (read_ref cell_PipelineStatus (read_PipelineStatus demo_machinery)) \<and>
   deep_copier Environment_DeepCopy (read_ref cell_Environment read_Environment)"
  using generated_copies_deep [OF demo_library_copies] by blast

text \<open>A list of one pipeline, with a remote target, a notification and a nil status entry.\<close>

definition demo_pipeline :: "meta_value hPipeline" where
  "demo_pipeline =
     \<lparr>gpl_TypeMeta = \<lparr>tm_Kind = ''Pipeline'', tm_APIVersion = ''v1''\<rparr>,
      gpl_ObjectMeta = Meta ''app'' (Some 0),
      gpl_Spec = \<lparr>gsp_Environments = Some 2, gsp_AppRef = zero_LocalAppReference, gsp_Promotion = None\<rparr>,
      gpl_Status = \<lparr>gps_ObservedGeneration = 3, gps_Conditions = Some 6, gps_Environments = Some 7\<rparr>\<rparr>"

definition demo_cell :: "nat \<Rightarrow> meta_value cell" where
  "demo_cell a =
     (if a = 0 then C_Library (Time 5)
      else if a = 1 then C_Targets [\<lparr>gt_Namespace = ''ns'', gt_ClusterRef = Some 3\<rparr>]
      else if a = 2 then C_Environments [\<lparr>ge_Name = ''dev'', ge_Targets = Some 1, ge_Promotion = Some 4\<rparr>]
      else if a = 3 then C_CrossNamespaceClusterReference
        \<lparr>ccr_APIVersion = '''', ccr_Kind = ''GitopsCluster'', ccr_Name = ''c'', ccr_Namespace = ''''\<rparr>
      else if a = 4 then C_Promotion \<lparr>gp_Manual = True,
        gp_Strategy = \<lparr>gs_PullRequest = None, gs_Notification = Some 5, gs_SecretRef = None\<rparr>\<rparr>
      else if a = 5 then C_NotificationPromotion ()
      else if a = 6 then C_Conditions []
      else if a = 7 then C_EnvironmentMap [(''dev'', Some 8), (''old'', None)]
      else if a = 8 then C_EnvironmentStatus
        \<lparr>ges_WaitingApproval = \<lparr>wa_Revision = ''v1''\<rparr>, ges_Targets = None\<rparr>
      else if a = 9 then C_Pipeline demo_pipeline
      else if a = 10 then C_PipelineList
        \<lparr>gl_TypeMeta = \<lparr>tm_Kind = ''PipelineList'', tm_APIVersion = ''v1''\<rparr>,
         gl_ListMeta = Meta '''' None, gl_Items = Some 11\<rparr>
      else if a = 11 then C_Items [demo_pipeline]
      else C_Zero)"

definition demo_heap :: "meta_value cell heap" where
  "demo_heap = \<lparr>hp_next = 12, hp_cell = demo_cell\<rparr>"

lemmas demo_read_simps =
  read_PipelineList_def read_Pipeline_def read_PipelineSpec_def read_PipelineStatus_def
  read_Environment_def read_Promotion_def read_Strategy_def read_Target_def
  read_entry_def read_EnvironmentStatus_def read_field_def read_both_def read_plain_def read_ref_def
  demo_machinery_def demo_meta_read_def cell_Time_def


definition demo_list_tree :: "meta_tree tPipelineList option \<times> nat list" where
  "demo_list_tree =
     (Some \<lparr>gl_TypeMeta = \<lparr>tm_Kind = ''PipelineList'', tm_APIVersion = ''v1''\<rparr>,
       gl_ListMeta = Meta_tree '''' None,
       gl_Items = Some [\<lparr>gpl_TypeMeta = \<lparr>tm_Kind = ''Pipeline'', tm_APIVersion = ''v1''\<rparr>,
         gpl_ObjectMeta = Meta_tree ''app'' (Some 5),
         gpl_Spec = \<lparr>gsp_Environments = Some [\<lparr>ge_Name = ''dev'',
             ge_Targets = Some [\<lparr>gt_Namespace = ''ns'', gt_ClusterRef =
               Some \<lparr>ccr_APIVersion = '''', ccr_Kind = ''GitopsCluster'', ccr_Name = ''c'', ccr_Namespace = ''''\<rparr>\<rparr>],
             ge_Promotion = Some \<lparr>gp_Manual = True,
               gp_Strategy = \<lparr>gs_PullRequest = None, gs_Notification = Some (), gs_SecretRef = None\<rparr>\<rparr>\<rparr>],
           gsp_AppRef = zero_LocalAppReference, gsp_Promotion = None\<rparr>,
         gpl_Status = \<lparr>gps_ObservedGeneration = 3, gps_Conditions = Some [],
           gps_Environments = Some [(''dev'', Some
             \<lparr>ges_WaitingApproval = \<lparr>wa_Revision = ''v1''\<rparr>, ges_Targets = None\<rparr>), (''old'', None)]\<rparr>\<rparr>]\<rparr>,
      [10, 11, 0, 2, 1, 3, 4, 5, 6, 7, 8])"

lemma demo_read: "read_PipelineList_ref demo_machinery demo_heap (Some 10) = Some demo_list_tree"
  by (simp add: demo_read_simps demo_list_tree_def demo_heap_def demo_cell_def demo_pipeline_def)

theorem PipelineList_DeepCopy_isolated_witness:
  "\<exists>bs. read_PipelineList_ref demo_machinery (snd (PipelineList_DeepCopy demo_machinery (Some 10) demo_heap))
          (fst (PipelineList_DeepCopy demo_machinery (Some 10) demo_heap)) = Some (fst demo_list_tree, bs) \<and>
        distinct bs \<and> set (snd demo_list_tree) \<inter> set bs = {}"
proof -
  have "allocated demo_heap (snd demo_list_tree)"
    by (simp add: allocated_def demo_heap_def demo_list_tree_def)
  then show ?thesis
    using PipelineList_DeepCopy_isolated
      [of demo_machinery demo_heap "Some 10" "fst demo_list_tree" "snd demo_list_tree"
        "fst (PipelineList_DeepCopy demo_machinery (Some 10) demo_heap)"
        "snd (PipelineList_DeepCopy demo_machinery (Some 10) demo_heap)"]
      demo_library_copies demo_read
    by auto
qed

end
