(* ===== verification/Status_Heap.thy ===== *)
theory Status_Heap
  imports Deep_Copy
begin

text \<open>
  The status methods and the status patch on the heap of \<open>Go_Heap\<close>. \<open>Api_Types\<close> has the
  waiting approval as a function of the status value; here the map \<open>.status.environments\<close>
  holds pointers, \<open>setWaitingApproval\<close> writes through them, and an entry may be nil. The
  theorems show when the two agree: the methods refine those of \<open>Api_Types\<close> for a status
  whose references are not shared, and panic exactly at a nil entry. The second part is the
  patch the edge-triggered reconciler sends: its base is a deep copy, so it still shows the old
  status after the new one is assigned.
\<close>

section \<open>The value of a status in memory\<close>

definition target_status_of :: "tTargetStatus \<Rightarrow> TargetStatus" where
  "target_status_of t =
     \<lparr>ts_ClusterAppRef = \<lparr>car_LocalAppReference = gca_LocalAppReference (gts_ClusterAppRef t),
        car_ClusterRef = gca_ClusterRef (gts_ClusterAppRef t)\<rparr>,
      ts_Ready = gts_Ready t, ts_Revision = gts_Revision t, ts_Error = gts_Error t\<rparr>"

definition env_status_of :: "tEnvironmentStatus \<Rightarrow> EnvironmentStatus" where
  "env_status_of t =
     \<lparr>es_WaitingApproval = ges_WaitingApproval t,
      es_Targets = (case ges_Targets t of None \<Rightarrow> [] | Some ts \<Rightarrow> map target_status_of ts)\<rparr>"

definition entries_of :: "tEnvironments \<Rightarrow> string \<rightharpoonup> EnvironmentStatus" where
  "entries_of es env = (case map_of es env of Some (Some v) \<Rightarrow> Some (env_status_of v) | _ \<Rightarrow> None)"

definition status_of :: "('t \<Rightarrow> Condition) \<Rightarrow> 't tPipelineStatus \<Rightarrow> PipelineStatus" where
  "status_of co t =
     \<lparr>ps_ObservedGeneration = gps_ObservedGeneration t,
      ps_Conditions = (case gps_Conditions t of None \<Rightarrow> [] | Some cs \<Rightarrow> map co cs),
      ps_Environments = map_option entries_of (gps_Environments t)\<rparr>"

definition nil_entry :: "'t tPipelineStatus \<Rightarrow> string \<Rightarrow> bool" where
  "nil_entry t env =
     (case gps_Environments t of None \<Rightarrow> False | Some es \<Rightarrow> map_of es env = Some None)"

section \<open>The methods on pointers\<close>

text \<open>Reading a nil map finds nothing.\<close>

definition map_entries :: "'x cell heap \<Rightarrow> ref \<Rightarrow> (string \<times> ref) list" where
  "map_entries h m =
     (case m of None \<Rightarrow> []
      | Some a \<Rightarrow> (case cell_EnvironmentMap (hp_cell h a) of None \<Rightarrow> [] | Some es \<Rightarrow> es))"

definition heap_GetWaitingApproval ::
  "hPipelineStatus \<Rightarrow> string \<Rightarrow> 'x cell heap \<Rightarrow> WaitingApproval outcome" where
  "heap_GetWaitingApproval p env h =
     (case map_of (map_entries h (gps_Environments p)) env of
        None \<Rightarrow> Returned zero_WaitingApproval
      | Some None \<Rightarrow> Panicked nil_dereference
      | Some (Some a) \<Rightarrow>
          (case cell_EnvironmentStatus (hp_cell h a) of
             None \<Rightarrow> Panicked nil_dereference
           | Some val \<Rightarrow> Returned (ges_WaitingApproval val)))"

definition heap_setWaitingApproval ::
  "hPipelineStatus \<Rightarrow> string \<Rightarrow> WaitingApproval \<Rightarrow> 'x cell heap \<Rightarrow>
     (hPipelineStatus \<times> 'x cell heap) outcome" where
  "heap_setWaitingApproval p env waitingApproval h =
     (let (m, h) = (case gps_Environments p of
                      None \<Rightarrow> alloc (C_EnvironmentMap []) h
                    | Some m \<Rightarrow> (m, h));
          p = p\<lparr>gps_Environments := Some m\<rparr>
      in case map_of (map_entries h (Some m)) env of
           None \<Rightarrow>
             (let (b, h) = alloc (C_EnvironmentStatus
                  \<lparr>ges_WaitingApproval = waitingApproval, ges_Targets = None\<rparr>) h
              in Returned (p, set_cell m
                   (C_EnvironmentMap (map_entries h (Some m) @ [(env, Some b)])) h))
         | Some None \<Rightarrow> Panicked nil_dereference
         | Some (Some a) \<Rightarrow>
             (case cell_EnvironmentStatus (hp_cell h a) of
                None \<Rightarrow> Panicked nil_dereference
              | Some val \<Rightarrow> Returned (p, set_cell a
                  (C_EnvironmentStatus (val\<lparr>ges_WaitingApproval := waitingApproval\<rparr>)) h)))"

definition heap_SetWaitingApproval ::
  "hPipelineStatus \<Rightarrow> string \<Rightarrow> string \<Rightarrow> 'x cell heap \<Rightarrow> (hPipelineStatus \<times> 'x cell heap) outcome"
where
  "heap_SetWaitingApproval p env revision h =
     heap_setWaitingApproval p env \<lparr>wa_Revision = revision\<rparr> h"

definition heap_ResetWaitingApproval ::
  "hPipelineStatus \<Rightarrow> string \<Rightarrow> 'x cell heap \<Rightarrow> (hPipelineStatus \<times> 'x cell heap) outcome" where
  "heap_ResetWaitingApproval p env h = heap_setWaitingApproval p env zero_WaitingApproval h"

section \<open>Reading the entries\<close>

abbreviation read_entries :: "((string \<times> ref) list, tEnvironments, 'x cell) read_fun" where
  "read_entries \<equiv> read_list read_entry"

abbreviation read_status_ref :: "(ref, tEnvironmentStatus option, 'x cell) read_fun" where
  "read_status_ref \<equiv> read_ref cell_EnvironmentStatus read_EnvironmentStatus"

lemma read_entry_Some:
  "read_entry h e = Some (u, as) \<longleftrightarrow> fst u = fst e \<and> read_status_ref h (snd e) = Some (snd u, as)"
  by (cases u) (auto simp: read_entry_def read_field_def)

lemma read_entries_Cons:
  "read_entries h (e # es) = Some (ts, as) \<longleftrightarrow>
     (\<exists>u us as1 as2. ts = u # us \<and> as = as1 @ as2 \<and> fst u = fst e \<and>
        read_status_ref h (snd e) = Some (snd u, as1) \<and> read_entries h es = Some (us, as2))"
  by (auto simp: read_list_Cons_Some read_both_Some read_entry_Some simp del: read_list.simps)

lemma read_entries_lookup:
  assumes "read_entries h es = Some (ts, as)"
  shows "rel_option (\<lambda>p v. \<exists>bs. read_status_ref h p = Some (v, bs) \<and> set bs \<subseteq> set as)
           (map_of es env) (map_of ts env)"
  using assms
proof (induction es arbitrary: ts as)
  case (Cons e es)
  obtain u us as1 as2 where u: "ts = u # us" "as = as1 @ as2" "fst u = fst e"
    "read_status_ref h (snd e) = Some (snd u, as1)" "read_entries h es = Some (us, as2)"
    using Cons.prems unfolding read_entries_Cons by blast
  show ?case
  proof (cases "fst e = env")
    case True
    then show ?thesis using u(3,4) by (cases e; cases u) (auto simp: u(1,2))
  next
    case False
    have "rel_option (\<lambda>p v. \<exists>bs. read_status_ref h p = Some (v, bs) \<and> set bs \<subseteq> set as)
            (map_of es env) (map_of us env)"
      by (rule option.rel_mono_strong [OF Cons.IH [OF u(5)]]) (auto simp: u(2))
    then show ?thesis using False u(3) by (cases e; cases u) (simp add: u(1))
  qed
qed simp

lemma read_status_ref_Some:
  "read_status_ref h (Some a) = Some (v, as) \<longleftrightarrow>
     (\<exists>x ts bs. cell_EnvironmentStatus (hp_cell h a) = Some x \<and>
        read_ref cell_TargetStatuses (read_list read_TargetStatus) h (ges_Targets x) = Some (ts, bs) \<and>
        v = Some \<lparr>ges_WaitingApproval = ges_WaitingApproval x, ges_Targets = ts\<rparr> \<and> as = a # bs)"
  by (auto simp: read_ref_Some read_EnvironmentStatus_def read_field_def)

lemma framed_copier: "deep_copier c r \<Longrightarrow> framed r"
  by (simp add: deep_copier_iff)

lemma framed_status_ref: "framed read_status_ref"
  by (intro framed_ref framed_copier [OF EnvironmentStatus_copy.deep_copier_axioms])

lemma framed_entries: "framed read_entries"
  by (intro framed_list framed_copier [OF entry_copy.deep_copier_axioms])

lemma framed_target_statuses:
  "framed (read_ref cell_TargetStatuses (read_list read_TargetStatus))"
  by (intro framed_ref framed_list framed_copier [OF TargetStatus_copy.deep_copier_axioms])

lemma agree_on_set_cell: "a \<notin> set as \<Longrightarrow> agree_on as h (set_cell a c h)"
  by (auto simp: agree_on_def set_cell_def)

text \<open>The write through the pointer of one entry, seen on the entries' trees.\<close>

fun note_entry :: "string \<Rightarrow> WaitingApproval \<Rightarrow> tEnvironments \<Rightarrow> tEnvironments" where
  "note_entry env w [] = []"
| "note_entry env w ((k, v) # es) =
     (if k = env then (k, map_option (\<lambda>v. v\<lparr>ges_WaitingApproval := w\<rparr>) v) # es
      else (k, v) # note_entry env w es)"

lemma map_of_note_entry:
  "map_of (note_entry env w es) k =
     (if k = env then map_option (map_option (\<lambda>v. v\<lparr>ges_WaitingApproval := w\<rparr>)) (map_of es k)
      else map_of es k)"
  by (induction es rule: note_entry.induct) auto

lemma read_status_ref_write:
  assumes "read_status_ref h (Some a) = Some (v, as)" and "distinct as"
    and "cell_EnvironmentStatus (hp_cell h a) = Some x"
    and "h' = set_cell a (C_EnvironmentStatus (x\<lparr>ges_WaitingApproval := w\<rparr>)) h"
  shows "read_status_ref h' (Some a) = Some (map_option (\<lambda>v. v\<lparr>ges_WaitingApproval := w\<rparr>) v, as)"
proof -
  obtain ts bs where t: "read_ref cell_TargetStatuses (read_list read_TargetStatus) h (ges_Targets x) = Some (ts, bs)"
    and v: "v = Some \<lparr>ges_WaitingApproval = ges_WaitingApproval x, ges_Targets = ts\<rparr>" "as = a # bs"
    using assms(1,3) by (auto simp: read_status_ref_Some)
  have "read_ref cell_TargetStatuses (read_list read_TargetStatus) h' (ges_Targets x) = Some (ts, bs)"
    by (rule framedD [OF framed_target_statuses t]) (use assms(2) in \<open>simp add: v assms(4) agree_on_set_cell\<close>)
  then show ?thesis by (simp add: read_status_ref_Some v assms(4) set_cell_def)
qed

lemma read_entries_write:
  assumes "read_entries h es = Some (ts, as)" and "distinct as"
    and "map_of es env = Some (Some a)"
    and x: "cell_EnvironmentStatus (hp_cell h a) = Some x"
    and h': "h' = set_cell a (C_EnvironmentStatus (x\<lparr>ges_WaitingApproval := w\<rparr>)) h"
  shows "read_entries h' es = Some (note_entry env w ts, as)"
  using assms(1-3)
proof (induction es arbitrary: ts as)
  case (Cons e es)
  obtain u us as1 as2 where u: "ts = u # us" "as = as1 @ as2" "fst u = fst e"
    "read_status_ref h (snd e) = Some (snd u, as1)" "read_entries h es = Some (us, as2)"
    using Cons.prems(1) unfolding read_entries_Cons by blast
  have d: "distinct as1" "distinct as2" "set as1 \<inter> set as2 = {}"
    using Cons.prems(2) by (auto simp: u)
  show ?case
  proof (cases "fst e = env")
    case True
    then have e: "snd e = Some a" using Cons.prems(3) by (cases e) simp
    have "read_status_ref h' (snd e) = Some (map_option (\<lambda>v. v\<lparr>ges_WaitingApproval := w\<rparr>) (snd u), as1)"
      using read_status_ref_write [OF _ d(1) x h'] u(4) by (simp add: e)
    moreover have "a \<in> set as1" using u(4) by (auto simp: e read_status_ref_Some)
    then have "read_entries h' es = Some (us, as2)"
      using framedD [OF framed_entries u(5)] d(3) agree_on_set_cell [of a as2 h] by (auto simp: h')
    ultimately show ?thesis
      using True u(3) by (cases u) (simp add: read_entries_Cons u(1,2) del: read_list.simps)
  next
    case False
    then have m: "map_of es env = Some (Some a)" using Cons.prems(3) by (cases e) simp
    have "a \<in> set as2"
      using read_entries_lookup [OF u(5), of env] by (auto simp: m option_rel_Some1 read_status_ref_Some)
    then have "read_status_ref h' (snd e) = Some (snd u, as1)"
      using framedD [OF framed_status_ref u(4)] d(3) agree_on_set_cell [of a as1 h] by (auto simp: h')
    moreover have "read_entries h' es = Some (note_entry env w us, as2)"
      by (rule Cons.IH [OF u(5) d(2) m])
    ultimately show ?thesis
      using False u(3) by (cases u) (simp add: read_entries_Cons u(1,2) del: read_list.simps)
  qed
qed simp

lemma read_entries_add:
  assumes "read_entries h es = Some (ts, as)" "read_status_ref h (Some b) = Some (v, bs)"
  shows "read_entries h (es @ [(env, Some b)]) = Some (ts @ [(env, v)], as @ bs)"
  using assms(1)
proof (induction es arbitrary: ts as)
  case Nil
  then show ?case
    using assms(2) by (simp add: read_entry_def read_field_def)
next
  case (Cons e es)
  then show ?case
    unfolding append_Cons read_entries_Cons by fastforce
qed

section \<open>Refinement\<close>

abbreviation read_map :: "(ref, tEnvironments option, 'x cell) read_fun" where
  "read_map \<equiv> read_ref cell_EnvironmentMap read_entries"

abbreviation read_conditions :: "('x, 't) apimachinery \<Rightarrow> (ref, 't list option, 'x cell) read_fun" where
  "read_conditions L \<equiv> read_ref cell_Conditions (read_list (Condition_read L))"

lemma read_PipelineStatus_Some:
  "read_PipelineStatus L h st = Some (t, as) \<longleftrightarrow>
     (\<exists>as1 as2. read_conditions L h (gps_Conditions st) = Some (gps_Conditions t, as1) \<and>
        read_map h (gps_Environments st) = Some (gps_Environments t, as2) \<and>
        as = as1 @ as2 \<and> gps_ObservedGeneration t = gps_ObservedGeneration st)"
  by (cases t) (auto simp: read_PipelineStatus_def read_field_def read_both_def split: option.splits prod.splits)

lemma framed_conditions: "library_copies L \<Longrightarrow> framed (read_conditions L)"
  unfolding library_copies_def by (intro framed_ref framed_list) (blast intro: framed_copier)

lemma map_entries_read:
  "read_map h m = Some (es, as) \<Longrightarrow>
     \<exists>bs. read_entries h (map_entries h m) = Some (case es of None \<Rightarrow> [] | Some l \<Rightarrow> l, bs)"
  by (cases m) (auto simp: map_entries_def read_ref_Some)

lemma GetWaitingApproval_heap:
  assumes "read_PipelineStatus L h st = Some (t, as)"
  shows "heap_GetWaitingApproval st env h =
           (if nil_entry t env then Panicked nil_dereference
            else Returned (GetWaitingApproval (status_of co t) env))"
proof -
  obtain as2 where m: "read_map h (gps_Environments st) = Some (gps_Environments t, as2)"
    using assms by (auto simp: read_PipelineStatus_Some)
  define ts where "ts = (case gps_Environments t of None \<Rightarrow> [] | Some l \<Rightarrow> l)"
  obtain bs where "read_entries h (map_entries h (gps_Environments st)) = Some (ts, bs)"
    using map_entries_read [OF m] ts_def by blast
  note rel = read_entries_lookup [OF this, of env]
  have n: "nil_entry t env \<longleftrightarrow> map_of ts env = Some None"
    by (simp add: nil_entry_def ts_def split: option.splits)
  have g: "envs_lookup (status_of co t) env = entries_of ts env"
    by (simp add: envs_lookup_def status_of_def ts_def entries_of_def split: option.splits)
  show ?thesis
  proof (cases "map_of (map_entries h (gps_Environments st)) env")
    case None
    then show ?thesis using rel by (simp add: heap_GetWaitingApproval_def n GetWaitingApproval_def g entries_of_def)
  next
    case (Some p)
    then obtain v cs where "map_of ts env = Some v" "read_status_ref h p = Some (v, cs)"
      using rel by (auto simp: option_rel_Some1)
    then show ?thesis
      by (cases p)
         (auto simp: heap_GetWaitingApproval_def Some n GetWaitingApproval_def g entries_of_def
           read_status_ref_Some env_status_of_def)
  qed
qed

text \<open>A status whose references are allocated and lead to distinct cells, as a decoded object
  and a deep copy have them.\<close>

definition owned :: "('x, 't) apimachinery \<Rightarrow> 'x cell heap \<Rightarrow> hPipelineStatus \<Rightarrow> 't tPipelineStatus \<Rightarrow> bool"
where
  "owned L h st t = (\<exists>as. read_PipelineStatus L h st = Some (t, as) \<and> allocated h as \<and> distinct as)"

lemma ownedE:
  assumes "owned L h st t" "gps_Environments st = Some m"
  obtains es ts as1 as2 where
    "read_conditions L h (gps_Conditions st) = Some (gps_Conditions t, as1)"
    "cell_EnvironmentMap (hp_cell h m) = Some es" "read_entries h es = Some (ts, as2)"
    "gps_Environments t = Some ts" "gps_ObservedGeneration t = gps_ObservedGeneration st"
    "distinct (as1 @ m # as2)" "allocated h (as1 @ m # as2)"
  using assms by (fastforce simp: owned_def read_PipelineStatus_Some read_ref_Some)

lemma ownedI:
  assumes "read_conditions L h (gps_Conditions st) = Some (gps_Conditions t, as1)"
    "cell_EnvironmentMap (hp_cell h m) = Some es" "read_entries h es = Some (ts, as2)"
    "gps_Environments st = Some m" "gps_Environments t = Some ts"
    "gps_ObservedGeneration t = gps_ObservedGeneration st"
    "distinct (as1 @ m # as2)" "allocated h (as1 @ m # as2)"
  shows "owned L h st t"
  unfolding owned_def
  using assms by (intro exI [of _ "as1 @ m # as2"]) (auto simp: read_PipelineStatus_Some read_ref_Some)

lemma status_of_note:
  assumes "gps_Environments t = Some ts" "map_of ts env = Some (Some v)"
  shows "status_of co (t\<lparr>gps_Environments := Some (note_entry env w ts)\<rparr>) =
           setWaitingApproval (status_of co t) env w"
  using assms
  by (auto simp: status_of_def setWaitingApproval_def Let_def entries_of_def fun_eq_iff
      map_of_note_entry env_status_of_def split: option.splits)

lemma status_of_add:
  assumes "gps_Environments t = Some ts" "map_of ts env = None"
  shows "status_of co (t\<lparr>gps_Environments :=
             Some (ts @ [(env, Some \<lparr>ges_WaitingApproval = w, ges_Targets = None\<rparr>)])\<rparr>) =
           setWaitingApproval (status_of co t) env w"
  using assms
  by (auto simp: status_of_def setWaitingApproval_def Let_def entries_of_def fun_eq_iff
      map_add_def map_of_append env_status_of_def split: option.splits)

lemma same_map: "gps_Environments st = Some m \<Longrightarrow> st\<lparr>gps_Environments := Some m\<rparr> = st"
  by simp

text \<open>The map exists and has a status for the environment: a write through its pointer.\<close>

lemma set_existing:
  assumes L: "library_copies L" and o: "owned L h st t" and m: "gps_Environments st = Some m"
    and e: "map_of (map_entries h (Some m)) env = Some (Some a)"
  shows "\<exists>h' t'. heap_setWaitingApproval st env w h = Returned (st, h') \<and> owned L h' st t' \<and>
           status_of co t' = setWaitingApproval (status_of co t) env w"
proof -
  obtain es ts as1 as2 where c: "read_conditions L h (gps_Conditions st) = Some (gps_Conditions t, as1)"
    and es: "cell_EnvironmentMap (hp_cell h m) = Some es" "read_entries h es = Some (ts, as2)"
    and t: "gps_Environments t = Some ts" "gps_ObservedGeneration t = gps_ObservedGeneration st"
    and as: "distinct (as1 @ m # as2)" "allocated h (as1 @ m # as2)"
    by (rule ownedE [OF o m])
  have e': "map_of es env = Some (Some a)" using e by (simp add: map_entries_def es)
  then obtain v bs where v: "map_of ts env = Some v" "read_status_ref h (Some a) = Some (v, bs)" "set bs \<subseteq> set as2"
    using read_entries_lookup [OF es(2), of env] by (auto simp: option_rel_Some1)
  then obtain x where x: "cell_EnvironmentStatus (hp_cell h a) = Some x" "a \<in> set as2" "v \<noteq> None"
    by (auto simp: read_status_ref_Some)
  define h' where "h' = set_cell a (C_EnvironmentStatus (x\<lparr>ges_WaitingApproval := w\<rparr>)) h"
  let ?t = "t\<lparr>gps_Environments := Some (note_entry env w ts)\<rparr>"
  have "a \<notin> set as1" "a \<noteq> m" using as(1) x(2) by auto
  then have "owned L h' st ?t"
    using framedD [OF framed_conditions [OF L] c agree_on_set_cell]
      read_entries_write [OF es(2) _ e' x(1) h'_def] as t(2) m es(1)
    by (intro ownedI [where m = m and es = es and ts = "note_entry env w ts"])
       (auto simp: h'_def)
  moreover have "heap_setWaitingApproval st env w h = Returned (st, h')"
    by (simp add: heap_setWaitingApproval_def m same_map map_entries_def es e' x h'_def)
  moreover have "status_of co ?t = setWaitingApproval (status_of co t) env w"
    using status_of_note [OF t(1)] v(1) x(3) by fastforce
  ultimately show ?thesis by blast
qed

text \<open>The map exists and lacks the environment: a new status is entered.\<close>

lemma set_absent:
  assumes L: "library_copies L" and o: "owned L h st t" and m: "gps_Environments st = Some m"
    and e: "map_of (map_entries h (Some m)) env = None"
  shows "\<exists>h' t'. heap_setWaitingApproval st env w h = Returned (st, h') \<and> owned L h' st t' \<and>
           status_of co t' = setWaitingApproval (status_of co t) env w"
proof -
  obtain es ts as1 as2 where c: "read_conditions L h (gps_Conditions st) = Some (gps_Conditions t, as1)"
    and es: "cell_EnvironmentMap (hp_cell h m) = Some es" "read_entries h es = Some (ts, as2)"
    and t: "gps_Environments t = Some ts" "gps_ObservedGeneration t = gps_ObservedGeneration st"
    and as: "distinct (as1 @ m # as2)" "allocated h (as1 @ m # as2)"
    by (rule ownedE [OF o m])
  let ?s = "\<lparr>ges_WaitingApproval = w, ges_Targets = None\<rparr>"
  obtain b h1 where b: "alloc (C_EnvironmentStatus ?s) h = (b, h1)" by fastforce
  have b': "b = hp_next h" "hp_next h1 = Suc b" "hp_cell h1 b = C_EnvironmentStatus ?s"
    using b by (auto simp: alloc_def)
  have x: "extends h h1" by (rule extends_alloc [OF b])
  define h' where "h' = set_cell m (C_EnvironmentMap (es @ [(env, Some b)])) h1"
  have mh: "hp_cell h1 m = hp_cell h m" "m < b"
    using x as(2) b' by (simp_all add: extends_def)
  have fr: "agree_on bs h h'" if "allocated h bs" "m \<notin> set bs" for bs
    using allocated_agree [OF that(1) x] that(2) by (auto simp: agree_on_def h'_def)
  have e': "map_of es env = None" using e by (simp add: map_entries_def es)
  then have v: "map_of ts env = None"
    using read_entries_lookup [OF es(2), of env] by simp
  have "read_entries h' es = Some (ts, as2)"
    using framedD [OF framed_entries es(2) fr] as by simp
  moreover have "read_status_ref h' (Some b) = Some (Some \<lparr>ges_WaitingApproval = w, ges_Targets = None\<rparr>, [b])"
    using mh(2) by (simp add: read_status_ref_Some h'_def b'(3))
  ultimately have re: "read_entries h' (es @ [(env, Some b)]) =
      Some (ts @ [(env, Some \<lparr>ges_WaitingApproval = w, ges_Targets = None\<rparr>)], as2 @ [b])"
    by (rule read_entries_add)
  let ?t = "t\<lparr>gps_Environments := Some (ts @ [(env, Some \<lparr>ges_WaitingApproval = w, ges_Targets = None\<rparr>)])\<rparr>"
  have cr: "read_conditions L h' (gps_Conditions st) = Some (gps_Conditions ?t, as1)"
    using framedD [OF framed_conditions [OF L] c fr] as by simp
  have d: "distinct (as1 @ m # as2 @ [b])" and al: "allocated h' (as1 @ m # as2 @ [b])"
    using as mh(2) allocated_mono [OF as(2) x] by (auto simp: h'_def b' allocated_def)
  have "owned L h' st ?t"
    by (rule ownedI [OF cr _ re _ _ _ d al]) (simp_all add: h'_def t(2) m)
  moreover have "heap_setWaitingApproval st env w h = Returned (st, h')"
    by (simp add: heap_setWaitingApproval_def m same_map map_entries_def es e' b h'_def mh)
  ultimately show ?thesis using status_of_add [OF t(1) v] by blast
qed

text \<open>Without a map, an empty one is entered first.\<close>

lemma set_nil_map:
  assumes L: "library_copies L" and o: "owned L h st t" and m: "gps_Environments st = None"
  obtains m h1 where
    "heap_setWaitingApproval st env w h = heap_setWaitingApproval (st\<lparr>gps_Environments := Some m\<rparr>) env w h1"
    "owned L h1 (st\<lparr>gps_Environments := Some m\<rparr>) (t\<lparr>gps_Environments := Some []\<rparr>)"
    "map_entries h1 (Some m) = []"
proof -
  obtain b h1 where b: "alloc (C_EnvironmentMap []) h = (b, h1)" by fastforce
  have b': "b = hp_next h" "hp_next h1 = Suc b" "hp_cell h1 b = C_EnvironmentMap []"
    using b by (auto simp: alloc_def)
  obtain as where as: "read_conditions L h (gps_Conditions st) = Some (gps_Conditions t, as)"
    "allocated h as" "distinct as" "gps_ObservedGeneration t = gps_ObservedGeneration st"
    using o m by (auto simp: owned_def read_PipelineStatus_Some)
  have x: "extends h h1" by (rule extends_alloc [OF b])
  have "read_conditions L h1 (gps_Conditions st) = Some (gps_Conditions t, as)"
    by (rule framedD [OF framed_conditions [OF L] as(1) allocated_agree [OF as(2) x]])
  then have "owned L h1 (st\<lparr>gps_Environments := Some b\<rparr>) (t\<lparr>gps_Environments := Some []\<rparr>)"
    using as(2-4) b' allocated_mono [OF as(2) x]
    by (intro ownedI [where m = b and es = "[]" and ts = "[]"]) (auto simp: allocated_def)
  moreover have "heap_setWaitingApproval st env w h =
      heap_setWaitingApproval (st\<lparr>gps_Environments := Some b\<rparr>) env w h1"
    by (simp add: heap_setWaitingApproval_def m b)
  ultimately show thesis using that b'(3) by (simp add: map_entries_def)
qed

lemma setWaitingApproval_nil_map:
  "gps_Environments t = None \<Longrightarrow>
     setWaitingApproval (status_of co (t\<lparr>gps_Environments := Some []\<rparr>)) env w =
     setWaitingApproval (status_of co t) env w"
  by (simp add: setWaitingApproval_def status_of_def entries_of_def fun_eq_iff)

lemma owned_envs_None_iff:
  "owned L h st t \<Longrightarrow> gps_Environments t = None \<longleftrightarrow> gps_Environments st = None"
  by (cases "gps_Environments st") (auto simp: owned_def read_PipelineStatus_Some read_ref_Some)

lemma nil_entry_map:
  assumes "owned L h st t" "gps_Environments st = Some m"
  shows "nil_entry t env \<longleftrightarrow> map_of (map_entries h (Some m)) env = Some None"
proof -
  obtain es ts as2 where es: "cell_EnvironmentMap (hp_cell h m) = Some es" "read_entries h es = Some (ts, as2)"
    and t: "gps_Environments t = Some ts"
    by (rule ownedE [OF assms])
  show ?thesis
    using read_entries_lookup [OF es(2), of env]
    by (cases "map_of es env"; cases "the (map_of es env)")
       (auto simp: nil_entry_def t map_entries_def es(1) option_rel_Some1 read_status_ref_Some)
qed

lemma set_WaitingApproval_refines:
  assumes L: "library_copies L" and o: "owned L h st t"
  shows "if nil_entry t env then heap_setWaitingApproval st env w h = Panicked nil_dereference
         else \<exists>st' h' t'. heap_setWaitingApproval st env w h = Returned (st', h') \<and> owned L h' st' t' \<and>
                status_of co t' = setWaitingApproval (status_of co t) env w"
proof (cases "gps_Environments st")
  case None
  obtain m h1 where eq: "heap_setWaitingApproval st env w h =
      heap_setWaitingApproval (st\<lparr>gps_Environments := Some m\<rparr>) env w h1"
    and o1: "owned L h1 (st\<lparr>gps_Environments := Some m\<rparr>) (t\<lparr>gps_Environments := Some []\<rparr>)"
    and m: "map_entries h1 (Some m) = []"
    by (rule set_nil_map [OF L o None])
  have t: "gps_Environments t = None" using owned_envs_None_iff [OF o] None by simp
  show ?thesis
    using set_absent [OF L o1, of m env w co] setWaitingApproval_nil_map [OF t, of co env w]
    by (auto simp: eq m nil_entry_def t)
next
  case (Some m)
  show ?thesis
  proof (cases "map_of (map_entries h (Some m)) env")
    case None
    then show ?thesis
      using set_absent [OF L o Some None, of w co] nil_entry_map [OF o Some, of env] by auto
  next
    case e: (Some p)
    show ?thesis
    proof (cases p)
      case None
      then show ?thesis
        using e nil_entry_map [OF o Some, of env] by (simp add: heap_setWaitingApproval_def Some)
    next
      case a: (Some a)
      show ?thesis
        using set_existing [OF L o Some, of env a w co] nil_entry_map [OF o Some, of env]
        by (auto simp: e a)
    qed
  qed
qed

text \<open>C22. The status methods on the map of pointers do what the value-level methods of
  \<open>Api_Types\<close> say: for a status in memory whose references are not shared,
  \<open>GetWaitingApproval\<close> returns the abstract status' note, and \<open>setWaitingApproval\<close>, which
  allocates the map when it is nil, enters a new environment or writes through the pointer of
  an existing one, leaves in memory a status with unshared references whose abstract value is
  the one \<open>Api_Types.setWaitingApproval\<close> computes. Both panic exactly when the map has a nil
  pointer for the environment.
\<close>

theorem WaitingApproval_refinement:
  assumes "library_copies L" and "owned L h st t"
  shows "heap_GetWaitingApproval st env h =
           (if nil_entry t env then Panicked nil_dereference
            else Returned (GetWaitingApproval (status_of co t) env)) \<and>
         (if nil_entry t env then heap_setWaitingApproval st env w h = Panicked nil_dereference
          else \<exists>st' h' t'. heap_setWaitingApproval st env w h = Returned (st', h') \<and> owned L h' st' t' \<and>
                 status_of co t' = setWaitingApproval (status_of co t) env w)"
proof
  show "heap_GetWaitingApproval st env h =
      (if nil_entry t env then Panicked nil_dereference
       else Returned (GetWaitingApproval (status_of co t) env))"
    using assms(2) GetWaitingApproval_heap unfolding owned_def by blast
qed (rule set_WaitingApproval_refines [OF assms])

abbreviation demo_status :: "meta_tree tPipelineStatus" where
  "demo_status \<equiv>
     \<lparr>gps_ObservedGeneration = 3, gps_Conditions = Some [],
      gps_Environments = Some [(''dev'', Some
        \<lparr>ges_WaitingApproval = \<lparr>wa_Revision = ''v1''\<rparr>, ges_Targets = None\<rparr>), (''old'', None)]\<rparr>"

lemma demo_status_read:
  "read_PipelineStatus demo_machinery demo_heap (gpl_Status demo_pipeline) = Some (demo_status, [6, 7, 8])"
  by (simp add: demo_read_simps demo_heap_def demo_cell_def demo_pipeline_def)

lemma demo_owned: "owned demo_machinery demo_heap (gpl_Status demo_pipeline) demo_status"
  using demo_status_read by (auto simp: owned_def allocated_def demo_heap_def)

definition demo_condition :: Condition where
  "demo_condition = \<lparr>cond_Type = ''Ready'', cond_Status = ''True'', cond_Reason = ''Ok'', cond_Message = ''ok''\<rparr>"

theorem WaitingApproval_refinement_witness:
  "heap_GetWaitingApproval (gpl_Status demo_pipeline) ''dev'' demo_heap = Returned \<lparr>wa_Revision = ''v1''\<rparr> \<and>
   heap_GetWaitingApproval (gpl_Status demo_pipeline) ''old'' demo_heap = Panicked nil_dereference \<and>
   (\<exists>st' h' t'. heap_setWaitingApproval (gpl_Status demo_pipeline) ''prod'' \<lparr>wa_Revision = ''v2''\<rparr> demo_heap =
        Returned (st', h') \<and> owned demo_machinery h' st' t' \<and>
      status_of (\<lambda>_. demo_condition) t' =
        setWaitingApproval (status_of (\<lambda>_. demo_condition) demo_status) ''prod'' \<lparr>wa_Revision = ''v2''\<rparr>)"
  using WaitingApproval_refinement [OF demo_library_copies demo_owned, of "''dev''" "\<lambda>_. demo_condition"]
    WaitingApproval_refinement [OF demo_library_copies demo_owned, of "''old''" "\<lambda>_. demo_condition"]
    WaitingApproval_refinement [OF demo_library_copies demo_owned, of "''prod''" "\<lambda>_. demo_condition" "\<lparr>wa_Revision = ''v2''\<rparr>"]
  by (simp add: nil_entry_def GetWaitingApproval_def envs_lookup_def status_of_def entries_of_def env_status_of_def)

section \<open>The base of a status patch\<close>

text \<open>\<open>patchStatus\<close> up to the call of \<open>Patch\<close>, for the pipeline \<open>Get\<close> has filled in at an
  address: the base of the merge patch, and the memory after \<open>pipeline.Status = newStatus\<close>.\<close>

definition assign_Status :: "nat \<Rightarrow> hPipelineStatus \<Rightarrow> 'x cell heap \<Rightarrow> 'x cell heap" where
  "assign_Status a st h =
     (case cell_Pipeline (hp_cell h a) of
        None \<Rightarrow> h
      | Some x \<Rightarrow> set_cell a (C_Pipeline (x\<lparr>gpl_Status := st\<rparr>)) h)"

definition patchStatus_heap ::
  "('x, 't) apimachinery \<Rightarrow> nat \<Rightarrow> hPipelineStatus \<Rightarrow> 'x cell heap \<Rightarrow> ref \<times> 'x cell heap" where
  "patchStatus_heap L pipeline newStatus h =
     (let (base, h) = Pipeline_DeepCopy L (Some pipeline) h
      in (base, assign_Status pipeline newStatus h))"

lemma read_Pipeline_Some:
  "read_Pipeline L h x = Some (t, as) \<longleftrightarrow>
     (\<exists>as1 as2 as3. ObjectMeta_read L h (gpl_ObjectMeta x) = Some (gpl_ObjectMeta t, as1) \<and>
        read_PipelineSpec h (gpl_Spec x) = Some (gpl_Spec t, as2) \<and>
        read_PipelineStatus L h (gpl_Status x) = Some (gpl_Status t, as3) \<and>
        as = as1 @ as2 @ as3 \<and> gpl_TypeMeta t = gpl_TypeMeta x)"
  by (cases t) (auto simp: read_Pipeline_def read_field_def read_both_def split: option.splits prod.splits)

lemma assign_Status_read:
  assumes L: "library_copies L"
    and p: "read_Pipeline_ref L h (Some a) = Some (Some t, as)" "distinct as"
    and s: "read_PipelineStatus L h st = Some (u, cs)" "a \<notin> set cs"
  shows "\<exists>ds. read_Pipeline_ref L (assign_Status a st h) (Some a) = Some (Some (t\<lparr>gpl_Status := u\<rparr>), ds)"
proof -
  obtain x as1 as2 as3 where x: "cell_Pipeline (hp_cell h a) = Some x" "as = a # as1 @ as2 @ as3"
    "ObjectMeta_read L h (gpl_ObjectMeta x) = Some (gpl_ObjectMeta t, as1)"
    "read_PipelineSpec h (gpl_Spec x) = Some (gpl_Spec t, as2)" "gpl_TypeMeta t = gpl_TypeMeta x"
    using p(1) by (auto simp: read_ref_Some read_Pipeline_Some)
  define g where "g = assign_Status a st h"
  have g: "g = set_cell a (C_Pipeline (x\<lparr>gpl_Status := st\<rparr>)) h"
    by (simp add: g_def assign_Status_def x(1))
  have ag: "agree_on bs h g" if "a \<notin> set bs" for bs
    using agree_on_set_cell [OF that] by (simp add: g)
  have f: "framed (ObjectMeta_read L)" "framed (read_PipelineStatus L)"
    using L PipelineStatus_copier [OF L] by (auto simp: library_copies_def intro: framed_copier)
  have "ObjectMeta_read L g (gpl_ObjectMeta x) = Some (gpl_ObjectMeta t, as1)"
    "read_PipelineSpec g (gpl_Spec x) = Some (gpl_Spec t, as2)"
    "read_PipelineStatus L g st = Some (u, cs)"
    using framedD [OF f(1) x(3) ag] PipelineSpec_copy.frame [OF x(4) ag] framedD [OF f(2) s(1) ag [OF s(2)]]
      p(2) by (auto simp: x(2))
  then show ?thesis
    by (auto simp: read_ref_Some read_Pipeline_Some g x(5) simp flip: g_def)
qed

text \<open>C23. The patch of \<open>patchStatus\<close> is taken against the pipeline as it was read: after the new
  status is assigned, the base the merge patch is computed from still denotes the pipeline
  \<open>Get\<close> returned, in full, while the object to be sent differs from it in its status
  alone, which is the new one. So the patch carries exactly the change of the status; without
  the deep copy base and object would be the same memory and the patch empty.
\<close>

theorem patch_base_is_old:
  assumes L: "library_copies L"
    and p: "read_Pipeline_ref L h (Some a) = Some (Some t, as)" "allocated h as" "distinct as"
    and s: "read_PipelineStatus L h newStatus = Some (u, cs)" "allocated h cs" "a \<notin> set cs"
    and q: "patchStatus_heap L a newStatus h = (base, h')"
  shows "\<exists>bs ds. read_Pipeline_ref L h' base = Some (Some t, bs) \<and>
           read_Pipeline_ref L h' (Some a) = Some (Some (t\<lparr>gpl_Status := u\<rparr>), ds)"
proof -
  obtain h1 where h1: "Pipeline_DeepCopy L (Some a) h = (base, h1)" and h': "h' = assign_Status a newStatus h1"
    using q by (auto simp: patchStatus_heap_def split: prod.splits)
  note cp = library_DeepCopy_copiers(2) [OF L]
  obtain bs where bs: "read_Pipeline_ref L h1 base = Some (Some t, bs)" "set as \<inter> set bs = {}"
    "extends h h1" "read_Pipeline_ref L h1 (Some a) = Some (Some t, as)"
    "\<And>g. agree_on bs h1 g \<Longrightarrow> read_Pipeline_ref L g base = Some (Some t, bs)"
    by (rule deep_copier.isolated [OF cp p(1,2) h1]) blast
  have "a \<in> set as" using p(1) by (auto simp: read_ref_Some)
  then have "agree_on bs h1 h'"
    using bs(2) by (auto simp: h' assign_Status_def agree_on_def split: option.splits)
  moreover have "read_PipelineStatus L h1 newStatus = Some (u, cs)"
    by (rule framedD [OF framed_copier [OF PipelineStatus_copier [OF L]] s(1) allocated_agree [OF s(2) bs(3)]])
  ultimately show ?thesis
    using bs(5) assign_Status_read [OF L bs(4) p(3) _ s(3)] by (metis h')
qed

definition demo_new_status :: hPipelineStatus where
  "demo_new_status = \<lparr>gps_ObservedGeneration = 4, gps_Conditions = None, gps_Environments = None\<rparr>"

lemma demo_pipeline_read:
  "\<exists>t. read_Pipeline_ref demo_machinery demo_heap (Some 9) = Some (Some t, [9, 0, 2, 1, 3, 4, 5, 6, 7, 8]) \<and>
     gpl_Status t = demo_status"
  by (simp add: demo_read_simps demo_heap_def demo_cell_def demo_pipeline_def)

theorem patch_base_is_old_witness:
  "\<exists>t bs ds. gpl_Status t = demo_status \<and>
     read_Pipeline_ref demo_machinery (snd (patchStatus_heap demo_machinery 9 demo_new_status demo_heap))
       (fst (patchStatus_heap demo_machinery 9 demo_new_status demo_heap)) = Some (Some t, bs) \<and>
     read_Pipeline_ref demo_machinery (snd (patchStatus_heap demo_machinery 9 demo_new_status demo_heap)) (Some 9) =
       Some (Some (t\<lparr>gpl_Status := \<lparr>gps_ObservedGeneration = 4, gps_Conditions = None,
         gps_Environments = None\<rparr>\<rparr>), ds)"
proof -
  obtain t where t: "read_Pipeline_ref demo_machinery demo_heap (Some 9) = Some (Some t, [9, 0, 2, 1, 3, 4, 5, 6, 7, 8])"
    "gpl_Status t = demo_status"
    using demo_pipeline_read by blast
  have "read_PipelineStatus demo_machinery demo_heap demo_new_status =
      Some (\<lparr>gps_ObservedGeneration = 4, gps_Conditions = None, gps_Environments = None\<rparr>, [])"
    by (simp add: demo_new_status_def read_PipelineStatus_def read_field_def read_both_def)
  moreover have "allocated demo_heap [9, 0, 2, 1, 3, 4, 5, 6, 7, 8]" "allocated demo_heap []"
    by (simp_all add: allocated_def demo_heap_def)
  ultimately show ?thesis
    using patch_base_is_old [OF demo_library_copies t(1), of demo_new_status _ "[]"
        "fst (patchStatus_heap demo_machinery 9 demo_new_status demo_heap)"
        "snd (patchStatus_heap demo_machinery 9 demo_new_status demo_heap)"] t(2)
    by auto
qed

end
