(* ===== verification/Spec2Isabelle.thy ===== *)
theory Spec2Isabelle
  imports Scheme_Registration Approval_Lifecycle Cache_Concurrency Cache_Runner Cache_Collector Server_Lifecycle Startup Status_Heap
begin

text \<open>
  A verification of the Weaveworks pipeline-controller.

  The program. A \<open>Pipeline\<close> lists environments, each with target applications on clusters. The
  controller promotes a new version from one environment to the next. It has two modes, chosen
  by a flag in \<open>main.go\<close>: the level-triggered reconciler (\<open>controllers/leveltriggered\<close>) watches
  the applications through caches, writes what it sees into the status and promotes on its own
  account; in the other mode a small reconciler (\<open>controllers/pipeline_controller.go\<close>) only checks
  the clusters, and promotions are asked for by signed webhooks (\<open>server\<close>), which run in both modes.
  Both ways end in a strategy (\<open>server/strategy\<close>) that either sends a notification or clones a
  git repository, patches its manifests, pushes a branch and opens or updates a pull request through
  a provider (\<open>internal/git\<close>).

  How it is modelled. Code with effects is a state monad over the state \<open>'w sys\<close>: the world outside,
  the list of calls made to it, and the map of target caches. Go errors are \<open>Inl\<close> values, panics the
  \<open>Panicked\<close> case of \<open>outcome\<close>, nil pointers \<open>None\<close>; counters of the rate limiter and durations
  computed from flags are 64-bit words. What is not in the repository (API server, controller-runtime,
  git, hosting services, file system) are parameters: the records \<open>Platform\<close>, \<open>Lib\<close>, \<open>WebhookLib\<close>,
  \<open>GitPlatform\<close> and \<open>GitLib\<close> and the function \<open>boot_platform\<close>, with laws stated as predicates or
  locales where a proof needs them. \<open>Memory_Platform\<close> and \<open>Pull_Request_Properties\<close> hold
  in-memory instances that satisfy these laws and serve the examples.

  The theories.
  \<^item> \<open>PC_Prelude\<close>: Go's errors, panics and string functions, the calculi \<open>wp\<close> (weakest
    preconditions), \<open>emits\<close> (kinds of calls a program makes) and \<open>keeps\<close>/\<open>preserves\<close>.
  \<^item> \<open>Api_Types\<close> (\<open>api/v1alpha1\<close>): the resource and its methods; the approval notes of a status
    satisfy get-after-set laws (locale \<open>approval_store\<close>).
  \<^item> \<open>Go_Heap\<close>, \<open>Deep_Copy\<close>, \<open>Status_Heap\<close> (\<open>zz_generated.deepcopy.go\<close>, the status methods and
    \<open>patchStatus\<close>): the same resource in memory, as structs with references into a heap of typed
    cells. Every generated copy meets the contract \<open>deep_copier\<close>, a locale that is closed under the
    ways copies are composed; the methods of the status on its map of pointers refine those of
    \<open>Api_Types\<close>. The rest of the development works on the values.
  \<^item> \<open>Scheme_Registration\<close> (\<open>groupversion_info.go\<close>, the \<open>init\<close> functions): the kinds are registered.
  \<^item> \<open>Platform\<close>, \<open>Memory_Platform\<close>: the outside and its calls.
  \<^item> \<open>Condition_Util\<close> (\<open>pkg/conditions\<close>), \<open>Indexing\<close> (\<open>indexing.go\<close>, \<open>pipeline_indexing.go\<close>):
    readiness and index functions; a cluster event reaches exactly the pipelines on it.
  \<^item> \<open>Strategy_Registry\<close> (\<open>server/strategy\<close>, \<open>notification\<close>): the strategy interface with its
    contract, the locale \<open>promotion_strategy\<close>: no write, no further promotion, no change of the
    caches. Interpreted on the notification strategy here and on the pull request strategy below.
  \<^item> \<open>Target_Caches\<close>, \<open>Cache_Properties\<close> (\<open>caching.go\<close>): the sequential behaviour of caches, event
    fan-out and garbage collector. The collector drops exactly the caches no pipeline needs.
  \<^item> \<open>Cache_Concurrency\<close>: the same code at the granularity of its lock, as interleaved steps of
    several reconciliations and the collector, with an invariant, the refinement of the sequential
    operations, and a race that hands out a cancelled reader.
  \<^item> \<open>Cache_Runner\<close> (\<open>runner.go\<close>): the goroutine that starts caches, as a step relation with contexts,
    channels and the lock its caller holds: each cache is started once, \<open>run\<close> is not stuck while the
    manager runs and never returns after it has stopped.
  \<^item> \<open>Cache_Collector\<close> (\<open>newCaches\<close>, \<open>newGC\<close>, \<open>gc.Start\<close>): the life of the collector as a step relation
    over its goroutine, the manager and the work queue: it ends with the manager.
  \<^item> \<open>Level_Reconciler\<close>, \<open>Level_Promotion\<close> (\<open>leveltriggered/controller.go\<close>): \<open>Reconcile\<close> in
    stages; a promotion happens exactly when it is due, statuses are faithful, panics and errors
    are characterised.
  \<^item> \<open>Pipeline_Reconciler\<close> (\<open>pipeline_controller.go\<close>): refinement of an abstract verdict.
  \<^item> \<open>Sign_Verifier\<close>, \<open>Retry_Exponential\<close>, \<open>Rate_Limiter\<close>: signature check, retry loop with its
    termination (locale \<open>retried\<close>), limiter with wrap-around of its counters.
  \<^item> \<open>Webhook_Handlers\<close>, \<open>Webhook_Guarantees\<close>, \<open>Webhook_Service\<close> (\<open>promotion_handler.go\<close>,
    \<open>approval_handler.go\<close>): what requests can cause, and that deserving requests are served.
  \<^item> \<open>Promotion_Server\<close> (\<open>promotion_server.go\<close>, \<open>opts.go\<close>): options, routing, rate limiting;
    \<open>Server_Lifecycle\<close>: its shutdown and that of the limiter, among requests in flight.
  \<^item> \<open>Approval_Lifecycle\<close>: the API server as a store through which the webhooks and the
    level-triggered reconciler meet. The theorems about a manual promotion from the event to the
    approval, and about a reconciliation in between, are below.
  \<^item> \<open>Git_Types\<close>, \<open>Git_Utils\<close>, \<open>Git_Platform\<close>, \<open>Go_Git_Provider\<close>, \<open>Azure_Provider\<close>,
    \<open>Provider_Factory\<close> (\<open>internal/git\<close> and \<open>pullrequest/gitprovider.go\<close>): data, URL parsing, the git
    libraries as parameters, the four providers (locale \<open>git_provider\<close>, interpreted on each of them
    by sublocales of \<open>git_platform\<close>), the factory.
  \<^item> \<open>Pull_Request_Strategy\<close>, \<open>Pull_Request_Properties\<close> (\<open>server/strategy/pullrequest\<close>): the
    strategy, that it keeps the contract (locale \<open>provider_factory\<close>), the order of its steps, the
    removal of the clone, one pull request per branch (locale \<open>hosting\<close>), its panics and refusals.
  \<^item> \<open>Startup\<close> (\<open>main.go\<close> and the \<open>SetupWithManager\<close> functions): flags, registry, wiring and exits;
    the program puts the parts together so that their contracts hold.

  Loops and bounds. Loops over lists are structural recursion. The retry loop of \<open>pkg/retry\<close> is a
  \<open>function\<close> with a measure; the library's \<open>retry.OnError\<close> is a relation with at most \<open>Steps\<close> runs, so
  nothing is assumed about its waits but that the process does nothing in them. The collector's
  loop is a \<open>partial_function\<close> that ends when the queue shuts down; its theorems are about single
  turns, and those on interleavings about all finite runs. After the shutdown its number of steps is
  bounded by the items left in the queue. No theorem depends on a fuel that could
  run out: the step counts in \<open>lock_sections_sequential\<close> are the exact lengths of the operations.

  Not modelled. Mocks and test helpers; logging; aliasing of slices (a slice field is one cell with
  its elements) and pointers into structs, which the code takes only for the duration of a call; the
  copies of Kubernetes metadata, the work queue of client-go and \<open>net/http\<close> themselves, which are
  parameters with their documented contracts; in \<open>Rate_Limiter\<close> the times of the ticks (its cleaner runs
  at any time); the text of error messages of third-party code. In \<open>Promotion_Server\<close> requests are
  handled one after the other: handlers share no state but the limiter, whose lock makes its
  operations atomic.
\<close>

section \<open>The way of a manual promotion\<close>

text \<open>C7. A manual promotion happens once, and only when it is approved. If an authentic event asks
  for a manual promotion, the promotion webhook answers 204 having written nothing but the note that
  the environment waits for that revision; the approval webhook, asked next for that environment and
  revision, promotes exactly that revision to that environment with the environment's strategy,
  resets the note, and answers with the strategy's result; and the same approval asked a second time
  does nothing and reports failure. This holds for every API server that stores what is written to
  it, and every strategy that succeeds while the pipeline exists and leaves pipelines alone.\<close>

theorem manual_promotion_lifecycle:
  assumes K: "api_store K" and p: "pipelines_of K (world s) key = Inr p"
    and r: "rq_Method r = ''POST''" "path_match 3 (rq_Path r) = Some [ok_Namespace key, ok_Name key, env]"
      "rq_Body r = Inr body" "\<And>w. authentic (wl_Sign W) K p (rq_Header r) body w"
    and ask: "asks_for W p key env body spec prom" "pr_Manual spec"
    and a: "rq_Method a = ''POST''"
      "path_match 4 (rq_Path a) =
         Some [ok_Namespace key, ok_Name key, env_Name (sp_Environment prom), sp_Version prom]"
      "\<And>w. authentic (wl_Sign W) K p (rq_Header a) '''' w"
    and name: "lookupEnvironment p (env_Name (sp_Environment prom)) = Inr (sp_Environment prom)"
    and st: "list_all promotion_strategy (ah_stratReg g)" "Registry_Get (ah_stratReg g) spec = Inr st"
      "\<And>t q. pipelines_of K (world t) key = Inr q \<Longrightarrow> value_of (strat_Promote st spec prom) t = Returned (Inr res)"
      "\<And>t. pipelines_of K (world (exec (strat_Promote st spec prom) t)) = pipelines_of K (world t)"
  shows "\<exists>s1 s2 q1 q2.
     run_state (PromotionHandler_ServeHTTP h W K r) s = (respond StatusNoContent '''', s1) \<and>
     effects s1 = effects s @ [CallStatusUpdate q1] \<and>
     GetWaitingApproval (p_Status q1) (env_Name (sp_Environment prom)) = \<lparr>wa_Revision = sp_Version prom\<rparr> \<and>
     run_state (ApprovalHandler_ServeHTTP g W K a) s1 = (respond_result (Some res), s2) \<and>
     effects s2 = effects s1 @ [CallPromote spec prom, CallStatusUpdate q2] \<and>
     pipelines_of K (world s2) key = Inr q2 \<and>
     effects (exec (ApprovalHandler_ServeHTTP g W K a) s2) = effects s2 \<and>
     \<not> succeeded (value_of (ApprovalHandler_ServeHTTP g W K a) s2)"
proof -
  let ?env = "env_Name (sp_Environment prom)" and ?v = "sp_Version prom"
  let ?q1 = "p\<lparr>p_Status := SetWaitingApproval (p_Status p) ?env ?v\<rparr>"
  let ?q2 = "?q1\<lparr>p_Status := ResetWaitingApproval (p_Status ?q1) ?env\<rparr>"
  obtain s1 where s1: "run_state (PromotionHandler_ServeHTTP h W K r) s = (respond StatusNoContent '''', s1)"
    "effects s1 = effects s @ [CallStatusUpdate ?q1]"
    "pipelines_of K (world s1) = (pipelines_of K (world s))(key := Inr ?q1)"
    by (rule manual_request_stores [OF K p r ask])
  have noted: "GetWaitingApproval (p_Status ?q1) ?env = \<lparr>wa_Revision = ?v\<rparr>"
    by (simp add: SetWaitingApproval_def status_app.get_put)
  have p1: "pipelines_of K (world s1) key = Inr ?q1" by (simp add: s1(3))
  note asked = asks_for_awaits [OF ask(1) name]
  have au: "\<And>w. authentic (wl_Sign W) K ?q1 (rq_Header a) '''' w" using a(3) by simp
  have ps: "promotion_strategy st"
    using st(1) Registry_Get_set [OF st(2)] by (simp add: list_all_iff)
  obtain s2 where s2: "run_state (ApprovalHandler_ServeHTTP g W K a) s1 = (respond_result (Some res), s2)"
    "effects s2 = effects s1 @ [CallPromote spec prom, CallStatusUpdate ?q2]"
    "pipelines_of K (world s2) = (pipelines_of K (world s1))(key := Inr ?q2)"
    by (rule approval_stores [OF K p1 a(1,2) au asked(1) st(2) ps st(3,4)])
  have p2: "fst (pf_GetPipeline K key (world s2)) = Inr ?q2"
    using s2(3) by (metis fun_upd_same pipelines_of_def)
  have "wa_Revision (GetWaitingApproval (p_Status ?q2) ?env) \<noteq> ?v"
    using asked(2) by (simp add: ResetWaitingApproval_revoked)
  note again = approval_refused [OF st(1) a(2) p2 this]
  have "pipelines_of K (world s2) key = Inr ?q2" using p2 by (simp add: pipelines_of_def)
  then show ?thesis
    using s1(1,2) noted s2(1,2) again
    by (intro exI [of _ s1] exI [of _ s2] exI [of _ ?q1] exI [of _ ?q2]) blast
qed

theorem manual_promotion_lifecycle_witness:
  "\<exists>s1 s2 q1 q2.
     run_state (PromotionHandler_ServeHTTP sample_handler sample_webhook mem_platform sample_request) manual_sys =
       (respond StatusNoContent '''', s1) \<and>
     effects s1 = effects manual_sys @ [CallStatusUpdate q1] \<and>
     run_state (ApprovalHandler_ServeHTTP \<lparr>ah_stratReg = [Notification mem_platform]\<rparr> sample_webhook mem_platform
       approval_webhook_request) s1 = (respond StatusNoContent '''', s2) \<and>
     effects s2 = effects s1 @
       [CallPromote (sample_promotion\<lparr>pr_Manual := True\<rparr>) sample_strategy_promotion, CallStatusUpdate q2]"
proof -
  let ?spec = "sample_promotion\<lparr>pr_Manual := True\<rparr>"
  have auth: "authentic (wl_Sign sample_webhook) mem_platform manual_pipeline hdr body w" for hdr body w
    by (rule no_secret_authentic) (simp_all add: manual_pipeline_def sample_promotion_def)
  have ask: "asks_for sample_webhook manual_pipeline sample_key ''dev'' ''event'' ?spec sample_strategy_promotion"
    by (rule sample_asks_for) (simp add: manual_pipeline_def)
  have path: "path_match 4 (rq_Path approval_webhook_request) = Some [ok_Namespace sample_key, ok_Name sample_key,
      env_Name (sp_Environment sample_strategy_promotion), sp_Version sample_strategy_promotion]"
    by (simp add: approval_webhook_request_def path_match_def)
  have post: "rq_Method approval_webhook_request = ''POST''"
    by (simp add: approval_webhook_request_def sample_request_def)
  have look: "lookupEnvironment manual_pipeline (env_Name (sp_Environment sample_strategy_promotion)) =
      Inr (sp_Environment sample_strategy_promotion)"
    by (simp add: lookupEnvironment_def manual_pipeline_def)
  have reg: "Registry_Get (ah_stratReg \<lparr>ah_stratReg = [Notification mem_platform]\<rparr>) ?spec = Inr (Notification mem_platform)"
    "list_all promotion_strategy (ah_stratReg \<lparr>ah_stratReg = [Notification mem_platform]\<rparr>)"
    by (simp_all add: Notification_def Notification_Handles_def sample_promotion_def
        notification.promotion_strategy_axioms [unfolded Notification_def])
  show ?thesis
    using manual_promotion_lifecycle [OF mem_api_store manual_sys_pipeline sample_request_simps(1) sample_path
        sample_request_simps(2) auth ask _ post path auth look reg(2,1) manual_notification, where h = sample_handler]
    by (fastforce simp: respond_result_def)
qed

text \<open>C8. A level-triggered reconciliation discards every waiting approval: once a \<open>Reconcile\<close> has
  written the status of a pipeline, any approval of any revision for any of its environments is
  refused without effect, whatever a promotion webhook had noted before; the promotion has to be
  asked for again.\<close>

theorem reconciliation_discards_approvals:
  assumes reg: "list_all promotion_strategy (r_stratReg r)" "list_all promotion_strategy (ah_stratReg h)"
    and L: "condition_laws L" and p: "fst (pf_GetPipeline K req (world s)) = Inr p"
    and tr: "trace (exec (Reconcile r L K req) s) = trace s @ d" "CallPatch owner p' \<in> set d"
    and q: "fst (pf_GetPipeline K key (world t)) = Inr q" "p_Status q = p_Status p'"
    and rq: "path_match 4 (rq_Path rq) = Some [ok_Namespace key, ok_Name key, env, revision]" "revision \<noteq> ''''"
  shows "effects (exec (ApprovalHandler_ServeHTTP h W K rq) t) = effects t \<and>
         \<not> succeeded (value_of (ApprovalHandler_ServeHTTP h W K rq) t)"
proof -
  have "grew (faithful_call L p) s (exec (Reconcile r L K req) s)"
    using Reconcile_faithful [OF reg(1) L p] by (simp add: wp_exec)
  then have "list_all (faithful_call L p) d" using tr(1) by (auto simp: grew_def)
  then have "status_faithful L p p'" using tr(2) by (auto simp: list_all_iff faithful_call_def)
  then have "wa_Revision (GetWaitingApproval (p_Status q) env) \<noteq> revision"
    using faithful_no_approval rq(2) q(2) by metis
  then show ?thesis by (rule approval_refused [OF reg(2) rq(1) q(1)])
qed

theorem reconciliation_discards_approvals_witness:
  "\<exists>owner p'. CallPatch owner p' \<in> set (trace (snd sample_run)) \<and>
     effects (exec (ApprovalHandler_ServeHTTP approval_handler sample_webhook
       mem_platform approval_webhook_request)
       (sample_sys\<lparr>world := sample_store\<lparr>mem_Pipelines := [p']\<rparr>\<rparr>)) = []"
proof -
  have "list_ex is_write (trace (snd sample_run))"
    by (simp add: read_defs stage_defs)
  then obtain c where c: "c \<in> set (trace (snd sample_run))" "is_write c" by (auto simp: list_ex_iff)
  have get: "fst (pf_GetPipeline mem_platform sample_key (world sample_sys)) = Inr sample_pipeline" by simp
  have "grew (faithful_call mem_lib sample_pipeline) sample_sys (snd sample_run)"
    using Reconcile_faithful [OF sample_strategies mem_condition_laws get] by (simp add: wp_exec)
  then obtain owner p' where p': "c = CallPatch owner p'" "status_faithful mem_lib sample_pipeline p'"
    using c by (auto simp: grew_def list_all_iff faithful_call_def)
  have key: "Pipeline_key p' = sample_key"
    using p'(2) by (simp add: status_faithful_def)
  have path: "path_match 4 (rq_Path approval_webhook_request) =
      Some [ok_Namespace sample_key, ok_Name sample_key, ''prod'', ''v2'']"
    by (simp add: approval_webhook_request_def path_match_def)
  have "effects (exec (ApprovalHandler_ServeHTTP approval_handler sample_webhook mem_platform approval_webhook_request)
      (sample_sys\<lparr>world := sample_store\<lparr>mem_Pipelines := [p']\<rparr>\<rparr>)) = []"
    using reconciliation_discards_approvals [OF sample_strategies _ mem_condition_laws get, of approval_handler
        "trace (snd sample_run)" owner p' sample_key "sample_sys\<lparr>world := sample_store\<lparr>mem_Pipelines := [p']\<rparr>\<rparr>" p'
        approval_webhook_request "''prod''" "''v2''" sample_webhook]
      c(1) p'(1) key path
    by (simp add: calls_of_def notification.promotion_strategy_axioms)
  then show ?thesis using c(1) p'(1) by auto
qed
end
